(* ===== verification/Prelude.thy ===== *)
theory Prelude
  imports Main "HOL-Library.Word"
begin

text \<open>
  Shared vocabulary of the development: the Go runtime notions every component uses.
  Errors are values of \<open>goerr\<close>; a call that may return an error or panic has a
  result of type \<open>'a res\<close>; effectful code is a state transformer \<open>('s, 'a) go\<close>
  that threads its state through errors and panics, as Go does (a failed call keeps
  the writes made before it). The formatting and splitting functions of \<^verbatim>\<open>fmt\<close> and
  \<^verbatim>\<open>strings\<close> that the sources use are here too, with their inversion lemmas.
\<close>

named_theorems go_simps \<open>unfolding rules of the effect combinators\<close>
named_theorems inv_intros \<open>preservation lemmas of component invariants\<close>

section \<open>Errors, results and effects\<close>

text \<open>
  An error value. \<open>Sentinel\<close> is a package-level \<^verbatim>\<open>var Err = errors.New(..)\<close>, compared by
  identity; \<open>ErrorString\<close> is a fresh \<^verbatim>\<open>errors.New\<close> or \<^verbatim>\<open>fmt.Errorf\<close> without \<^verbatim>\<open>%w\<close>;
  \<open>WrapError\<close> wraps with a message; \<open>WrappedError\<close> is \<^verbatim>\<open>azuredevops.WrappedError\<close> with its
  type key; \<open>UnmarshalTypeError\<close> is the one of \<^verbatim>\<open>encoding/json\<close> with its struct, field and
  value; \<open>StatusError\<close> is a Kubernetes API error with its reason; \<open>External\<close> is any other error
  a library returns.
\<close>

datatype status_reason = NotFound | AlreadyExists | Conflict | OtherReason string

datatype goerr =
    ErrorString string
  | Sentinel string
  | WrapError string goerr
  | WrappedError "string option"
  | UnmarshalTypeError string string string
  | StatusError status_reason
  | External string

datatype 'a res = Ok 'a | Err goerr | Panic string

type_synonym ('s, 'a) go = "'s \<Rightarrow> 'a res \<times> 's"

definition ret :: "'a \<Rightarrow> ('s, 'a) go" where
  "ret x s = (Ok x, s)"

definition fail :: "goerr \<Rightarrow> ('s, 'a) go" where
  "fail e s = (Err e, s)"

definition panic :: "string \<Rightarrow> ('s, 'a) go" where
  "panic m s = (Panic m, s)"

text \<open>\<^verbatim>\<open>x, err := m(); if err != nil { return err }; k(x)\<close>\<close>

definition andThen :: "('s, 'a) go \<Rightarrow> ('a \<Rightarrow> ('s, 'b) go) \<Rightarrow> ('s, 'b) go" where
  "andThen m k s = (case m s of
       (Ok x, s') \<Rightarrow> k x s'
     | (Err e, s') \<Rightarrow> (Err e, s')
     | (Panic p, s') \<Rightarrow> (Panic p, s'))"

text \<open>\<^verbatim>\<open>x, err := m()\<close> where the caller inspects \<^verbatim>\<open>err\<close> itself; a panic still unwinds.\<close>

definition attempt :: "('s, 'a) go \<Rightarrow> (goerr + 'a \<Rightarrow> ('s, 'b) go) \<Rightarrow> ('s, 'b) go" where
  "attempt m k s = (case m s of
       (Ok x, s') \<Rightarrow> k (Inr x) s'
     | (Err e, s') \<Rightarrow> k (Inl e) s'
     | (Panic p, s') \<Rightarrow> (Panic p, s'))"

definition ask :: "('s, 's) go" where
  "ask s = (Ok s, s)"

definition upd :: "('s \<Rightarrow> 's) \<Rightarrow> ('s, unit) go" where
  "upd f s = (Ok (), f s)"

definition require :: "bool \<Rightarrow> goerr \<Rightarrow> ('s, unit) go" where
  "require b e s = (if b then Ok () else Err e, s)"

definition lift_res :: "'a res \<Rightarrow> ('s, 'a) go" where
  "lift_res r s = (r, s)"

text \<open>A call of library code: its result is an error or a value, never a panic.\<close>

definition external :: "('s \<Rightarrow> (goerr + 'a) \<times> 's) \<Rightarrow> ('s, 'a) go" where
  "external f s = (case f s of (Inl e, s') \<Rightarrow> (Err e, s') | (Inr x, s') \<Rightarrow> (Ok x, s'))"

text \<open>Run code on a part of the state (the fields of a struct the code has a pointer to).\<close>

definition zoom :: "('s \<Rightarrow> 't) \<Rightarrow> ('t \<Rightarrow> 's \<Rightarrow> 's) \<Rightarrow> ('t, 'a) go \<Rightarrow> ('s, 'a) go" where
  "zoom g p m s = (case m (g s) of (r, t) \<Rightarrow> (r, p t s))"

lemmas go_defs [go_simps] =
  ret_def fail_def panic_def andThen_def attempt_def ask_def upd_def require_def
  lift_res_def external_def zoom_def

lemma andThen_Ok_iff:
  "andThen m k s = (Ok y, s'') \<longleftrightarrow> (\<exists>x s'. m s = (Ok x, s') \<and> k x s' = (Ok y, s''))"
  by (auto simp: andThen_def split: prod.splits res.splits)

lemma andThen_ret [simp]: "andThen (ret x) k = k x"
  by (rule ext) (simp add: go_simps)

lemma andThen_lift_Ok [simp]: "andThen (lift_res (Ok x)) k = k x"
  by (rule ext) (simp add: go_simps)

lemma andThen_fail [simp]: "andThen (fail e) k = fail e"
  by (rule ext) (simp add: go_simps)

lemma andThen_assoc: "andThen (andThen m k) h = andThen m (\<lambda>x. andThen (k x) h)"
  by (rule ext) (simp add: andThen_def split: prod.splits res.splits)

text \<open>A frame rule: code that keeps a part of the state at every stage keeps it overall.\<close>

definition keeps :: "('s \<Rightarrow> 'x) \<Rightarrow> ('s, 'a) go \<Rightarrow> bool" where
  "keeps f m \<longleftrightarrow> (\<forall>s. f (snd (m s)) = f s)"

lemma keepsI: "(\<And>s. f (snd (m s)) = f s) \<Longrightarrow> keeps f m"
  by (simp add: keeps_def)

lemma keepsD: "keeps f m \<Longrightarrow> m s = (r, s') \<Longrightarrow> f s' = f s"
  by (metis keeps_def snd_conv)

lemma keeps_andThen [intro]: "keeps f m \<Longrightarrow> (\<And>x. keeps f (k x)) \<Longrightarrow> keeps f (andThen m k)"
  by (auto simp: keeps_def andThen_def split: prod.splits res.splits) (metis snd_conv)+

lemma keeps_attempt [intro]: "keeps f m \<Longrightarrow> (\<And>x. keeps f (k x)) \<Longrightarrow> keeps f (attempt m k)"
  by (auto simp: keeps_def attempt_def split: prod.splits res.splits) (metis snd_conv)+

lemma keeps_basic [simp, intro]:
  "keeps f (ret x)" "keeps f (fail e)" "keeps f (panic p)" "keeps f ask" "keeps f (require b e)"
  "keeps f (lift_res r)"
  by (simp_all add: keeps_def go_simps)

lemma keeps_branch [intro]:
  "keeps f m \<Longrightarrow> keeps f n \<Longrightarrow> keeps f (if b then m else n)"
  "(\<And>e. keeps f (g e)) \<Longrightarrow> (\<And>x. keeps f (h x)) \<Longrightarrow> keeps f (case r of Inl e \<Rightarrow> g e | Inr x \<Rightarrow> h x)"
  "keeps f m \<Longrightarrow> (\<And>x. keeps f (h x)) \<Longrightarrow> keeps f (case v of None \<Rightarrow> m | Some x \<Rightarrow> h x)"
  by (simp_all split: sum.splits option.splits)

lemmas keeps_if = keeps_branch(1)

lemma keeps_upd [intro]: "(\<And>s. f (g s) = f s) \<Longrightarrow> keeps f (upd g)"
  by (simp add: keeps_def go_simps)

text \<open>A step relation that code respects at every stage; a reflexive and transitive one composes.\<close>

definition stays :: "('s \<Rightarrow> 's \<Rightarrow> bool) \<Rightarrow> ('s, 'a) go \<Rightarrow> bool" where
  "stays R m \<longleftrightarrow> (\<forall>s. R s (snd (m s)))"

lemma staysI: "(\<And>s. R s (snd (m s))) \<Longrightarrow> stays R m"
  by (simp add: stays_def)

lemma staysD: "stays R m \<Longrightarrow> m s = (r, s') \<Longrightarrow> R s s'"
  by (metis stays_def snd_conv)

lemma stays_andThen:
  assumes "transp R" and "stays R m" and "\<And>x. stays R (k x)"
  shows "stays R (andThen m k)"
proof (rule staysI)
  fix s
  obtain r s1 where m: "m s = (r, s1)" by fastforce
  have "R s s1" by (rule staysD [OF assms(2) m])
  moreover have "R s1 (snd (k x s1))" for x using assms(3) by (simp add: stays_def)
  ultimately show "R s (snd (andThen m k s))"
    using m transpD [OF assms(1)] by (cases r) (auto simp: andThen_def)
qed

lemma stays_attempt:
  assumes "transp R" and "stays R m" and "\<And>x. stays R (k x)"
  shows "stays R (attempt m k)"
proof (rule staysI)
  fix s
  obtain r s1 where m: "m s = (r, s1)" by fastforce
  have "R s s1" by (rule staysD [OF assms(2) m])
  moreover have "R s1 (snd (k x s1))" for x using assms(3) by (simp add: stays_def)
  ultimately show "R s (snd (attempt m k s))"
    using m transpD [OF assms(1)] by (cases r) (auto simp: attempt_def)
qed

lemma stays_basic:
  assumes "reflp R"
  shows "stays R (ret x)" "stays R (fail e)" "stays R (panic p)" "stays R ask" "stays R (lift_res r)"
  using reflpD [OF assms] by (simp_all add: stays_def go_simps)

text \<open>The same without a state: pure code with error returns, and the nil checks that begin it.\<close>

definition fromSum :: "goerr + 'a \<Rightarrow> 'a res" where
  "fromSum r = (case r of Inl e \<Rightarrow> Err e | Inr x \<Rightarrow> Ok x)"

definition bindRes :: "'a res \<Rightarrow> ('a \<Rightarrow> 'b res) \<Rightarrow> 'b res" where
  "bindRes r k = (case r of Ok x \<Rightarrow> k x | Err e \<Rightarrow> Err e | Panic p \<Rightarrow> Panic p)"

definition nonNil :: "string \<Rightarrow> 'a option \<Rightarrow> 'a res" where
  "nonNil name v = (case v of None \<Rightarrow> Err (ErrorString (name @ '' == nil'')) | Some x \<Rightarrow> Ok x)"

lemma res_simps [simp]:
  "bindRes (Ok x) k = k x" "bindRes (Err e) k = Err e" "bindRes (Panic p) k = Panic p"
  "fromSum (Inr x) = Ok x" "fromSum (Inl e) = Err e" "nonNil n (Some x) = Ok x"
  "nonNil n None = Err (ErrorString (n @ '' == nil''))"
  by (simp_all add: bindRes_def fromSum_def nonNil_def)

lemma bindRes_Ok: "bindRes r k = Ok y \<longleftrightarrow> (\<exists>x. r = Ok x \<and> k x = Ok y)"
  by (cases r) simp_all

lemma fromSum_Ok: "fromSum r = Ok y \<longleftrightarrow> r = Inr y"
  by (cases r) simp_all

lemma nonNil_Ok: "nonNil n v = Ok y \<longleftrightarrow> v = Some y"
  by (cases v) simp_all

lemmas res_Ok = bindRes_Ok fromSum_Ok nonNil_Ok

text \<open>\<^verbatim>\<open>errors.Is\<close>: the chain of wrapped errors contains the target.\<close>

fun errors_Is :: "goerr \<Rightarrow> goerr \<Rightarrow> bool" where
  "errors_Is (WrapError m e) t = (WrapError m e = t \<or> errors_Is e t)"
| "errors_Is e t = (e = t)"

text \<open>\<^verbatim>\<open>client.IgnoreNotFound\<close> and the reason tests of \<^verbatim>\<open>apierrors\<close>.\<close>

fun isNotFound :: "goerr \<Rightarrow> bool" where
  "isNotFound (StatusError NotFound) = True"
| "isNotFound (WrapError m e) = isNotFound e"
| "isNotFound _ = False"

fun isAlreadyExists :: "goerr \<Rightarrow> bool" where
  "isAlreadyExists (StatusError AlreadyExists) = True"
| "isAlreadyExists (WrapError m e) = isAlreadyExists e"
| "isAlreadyExists _ = False"

section \<open>Formatting and splitting of strings\<close>

definition digit_char :: "nat \<Rightarrow> char" where
  "digit_char d = ''0123456789'' ! d"

definition is_digit :: "char \<Rightarrow> bool" where
  "is_digit c \<longleftrightarrow> c \<in> set ''0123456789''"

definition quoted :: "string \<Rightarrow> string" where
  "quoted s = CHR 0x22 # s @ [CHR 0x22]"

text \<open>\<^verbatim>\<open>%d\<close> of a non-negative integer.\<close>

fun show_nat :: "nat \<Rightarrow> string" where
  "show_nat n = (if n < 10 then [digit_char n] else show_nat (n div 10) @ [digit_char (n mod 10)])"

declare show_nat.simps [simp del]

definition show_int :: "int \<Rightarrow> string" where
  "show_int i = (if i < 0 then CHR ''-'' # show_nat (nat (- i)) else show_nat (nat i))"

lemma digit_char_is_digit: "d < 10 \<Longrightarrow> is_digit (digit_char d)"
  unfolding digit_char_def is_digit_def by (rule nth_mem) simp

lemma show_nat_digits: "list_all is_digit (show_nat n)"
proof (induction n rule: show_nat.induct)
  case (1 n)
  then show ?case
    by (subst show_nat.simps) (auto simp: digit_char_is_digit)
qed

lemma show_nat_nonempty [simp]: "show_nat n \<noteq> []"
  by (subst show_nat.simps) simp

lemma show_nat_length_3: "n < 1000 \<Longrightarrow> length (show_nat n) \<le> 3"
proof -
  have one: "length (show_nat m) = 1" if "m < 10" for m
    using that by (subst show_nat.simps) simp
  have two: "length (show_nat m) \<le> 2" if "m < 100" for m
    using that one [of "m div 10"] by (subst show_nat.simps) (auto simp: one)
  assume "n < 1000"
  then show ?thesis
    using two [of "n div 10"] by (subst show_nat.simps) auto
qed

text \<open>\<^verbatim>\<open>strconv.ParseInt(s, 10, 0)\<close>: an optional sign, digits, and the range of 64 bits.\<close>

definition digitsValue :: "string \<Rightarrow> int" where
  "digitsValue ds = foldl (\<lambda>acc c. 10 * acc + (int (of_char c) - 48)) 0 ds"

definition ParseInt :: "string \<Rightarrow> int res" where
  "ParseInt s =
     (let neg = (take 1 s = ''-''); ds = (if take 1 s = ''-'' \<or> take 1 s = ''+'' then drop 1 s else s) in
      if ds = [] \<or> \<not> list_all is_digit ds then Err (External ''invalid syntax'')
      else let v = (if neg then - digitsValue ds else digitsValue ds) in
           if v < - (2 ^ 63) \<or> 2 ^ 63 \<le> v then Err (External ''value out of range'') else Ok v)"

text \<open>\<^verbatim>\<open>strings.Split(s, sep)\<close> for a one-character separator.\<close>

fun split_on :: "char \<Rightarrow> string \<Rightarrow> string list" where
  "split_on c [] = [[]]"
| "split_on c (x # xs) =
     (if x = c then [] # split_on c xs
      else (x # hd (split_on c xs)) # tl (split_on c xs))"

fun join_with :: "char \<Rightarrow> string list \<Rightarrow> string" where
  "join_with c [] = []"
| "join_with c [w] = w"
| "join_with c (w # ws) = w @ c # join_with c ws"

lemma split_on_nonempty [simp]: "split_on c s \<noteq> []"
  by (cases s) auto

lemma join_split: "join_with c (split_on c s) = s"
proof (induction s)
  case (Cons x xs)
  obtain w ws where "split_on c xs = w # ws"
    by (metis neq_Nil_conv split_on_nonempty)
  with Cons show ?case by (cases ws) auto
qed simp

lemma split_on_no_sep: "w \<in> set (split_on c s) \<Longrightarrow> c \<notin> set w"
proof (induction s arbitrary: w)
  case (Cons x xs)
  obtain v vs where v: "split_on c xs = v # vs"
    by (metis neq_Nil_conv split_on_nonempty)
  show ?case
    using Cons.prems Cons.IH v by (auto split: if_splits)
qed simp

lemma split_on_plain: "c \<notin> set s \<Longrightarrow> split_on c s = [s]"
  by (induction s) auto

section \<open>Lists and maps\<close>

lemma takeWhile_prefix_all:
  "list_all P xs \<Longrightarrow> \<not> P y \<Longrightarrow> takeWhile P (xs @ y # ys) = xs"
  by (induction xs) auto

lemma dropWhile_prefix_all:
  "list_all P xs \<Longrightarrow> \<not> P y \<Longrightarrow> dropWhile P (xs @ y # ys) = y # ys"
  by (induction xs) auto

lemma find_first_split:
  "find P xs = Some x \<Longrightarrow> \<exists>us vs. xs = us @ x # vs \<and> P x \<and> (\<forall>u\<in>set us. \<not> P u)"
proof (induction xs)
  case (Cons y ys)
  show ?case
  proof (cases "P y")
    case True
    with Cons.prems show ?thesis by (intro exI [of _ "[]"] exI [of _ ys]) auto
  next
    case False
    with Cons.prems have "find P ys = Some x" by simp
    from Cons.IH [OF this] obtain us vs where
      "ys = us @ x # vs" "P x" "\<forall>u\<in>set us. \<not> P u" by blast
    with False show ?thesis by (intro exI [of _ "y # us"] exI [of _ vs]) auto
  qed
qed simp

section \<open>Reachability of a step relation\<close>

text \<open>
  A transition system and an inductive invariant of it: whatever the steps are, an
  invariant that holds at the start and is kept by every step holds at every reachable
  state. The components instantiate it with their own step relations.
\<close>

locale transition_system =
  fixes start :: "'s \<Rightarrow> bool"
    and step :: "'s \<Rightarrow> 's \<Rightarrow> bool"
    and inv :: "'s \<Rightarrow> bool"
  assumes start_inv: "start s \<Longrightarrow> inv s"
    and step_inv: "inv s \<Longrightarrow> step s t \<Longrightarrow> inv t"
begin

lemma run_inv: "rtranclp step s t \<Longrightarrow> inv s \<Longrightarrow> inv t"
  by (induction rule: rtranclp_induct) (auto intro: step_inv)

lemma reachable_inv: "start s \<Longrightarrow> rtranclp step s t \<Longrightarrow> inv t"
  by (blast intro: run_inv start_inv)

end

end
