(* ===== verification/Api_Types.thy ===== *)
theory Api_Types
  imports Prelude
begin

text \<open>
  The resources the operator works on: its own kinds (\<^verbatim>\<open>operator/api/v1alpha1/*_types.go\<close>) and
  the parts of the Kubernetes kinds its sources read or write. A Go slice or map that may be
  nil is an option, since \<^verbatim>\<open>reflect.DeepEqual\<close> and \<^verbatim>\<open>IsZero\<close> tell nil from empty; a quantity
  is its value, a time is its instant with 0 for the zero time.
\<close>

section \<open>Slices and maps that may be nil\<close>

type_synonym 'a slice = "'a list option"

type_synonym 'v gomap = "(string \<rightharpoonup> 'v) option"

definition elems :: "'a slice \<Rightarrow> 'a list" where
  "elems s = (case s of None \<Rightarrow> [] | Some xs \<Rightarrow> xs)"

definition key_get :: "'v gomap \<Rightarrow> string \<Rightarrow> 'v option" where
  "key_get m k = (case m of None \<Rightarrow> None | Some f \<Rightarrow> f k)"

text \<open>\<^verbatim>\<open>append(s, xs...)\<close>: appending nothing to a nil slice leaves it nil.\<close>

definition append_slice :: "'a slice \<Rightarrow> 'a list \<Rightarrow> 'a slice" where
  "append_slice s xs = (if xs = [] then s else Some (elems s @ xs))"

lemma elems_simps [simp]: "elems None = []" "elems (Some xs) = xs"
  by (simp_all add: elems_def)

lemma key_get_simps [simp]: "key_get None k = None" "key_get (Some f) k = f k"
  by (simp_all add: key_get_def)

lemma elems_append_slice [simp]: "elems (append_slice s xs) = elems s @ xs"
  by (simp add: append_slice_def)

section \<open>Kubernetes objects\<close>

record ObjectMeta =
  MetaName :: string
  GenerateName :: string
  MetaNamespace :: string
  MetaLabels :: "string gomap"
  MetaAnnotations :: "string gomap"
  DeletionTimestamp :: "int option"
  ControllerOwner :: "string option"

definition zeroMeta :: ObjectMeta where
  "zeroMeta = \<lparr>MetaName = [], GenerateName = [], MetaNamespace = [], MetaLabels = None,
     MetaAnnotations = None, DeletionTimestamp = None, ControllerOwner = None\<rparr>"

record ResourceRequirements =
  Limits :: "int gomap"
  Requests :: "int gomap"

record EnvVarSource =
  SecretKeyRef :: "string option"
  OtherKeyRef :: "string option"

record EnvVar =
  EnvName :: string
  EnvValue :: string
  ValueFrom :: "EnvVarSource option"

record EnvFromSource =
  ConfigMapRef :: "string option"
  SecretRef :: "string option"

record Volume =
  VolName :: string
  VolConfigMap :: "string option"
  VolSecret :: "string option"
  VolClaim :: "string option"
  VolOther :: "string option"

record VolumeMount =
  MountPath :: string
  MountName :: string
  SubPath :: string

record NodeSelectorRequirement =
  ReqKey :: string
  ReqOperator :: string
  ReqValues :: "string list"

record NodeSelectorTerm =
  MatchExpressions :: "NodeSelectorRequirement slice"
  MatchFields :: "NodeSelectorRequirement slice"

record NodeSelectorT =
  NodeSelectorTerms :: "NodeSelectorTerm slice"

record NodeAffinityT =
  RequiredDuringScheduling :: "NodeSelectorT option"
  PreferredDuringScheduling :: "string slice"

record AffinityT =
  NodeAffinity :: "NodeAffinityT option"
  PodAffinity :: "string option"
  PodAntiAffinity :: "string option"

record Toleration =
  TolKey :: string
  TolOperator :: string
  TolValue :: string
  TolEffect :: string

record ConfigMap =
  CmMeta :: ObjectMeta
  BinaryData :: "string gomap"

record SecretObj =
  SecMeta :: ObjectMeta
  SecData :: "string gomap"

record PodDisruptionBudgetSpec =
  MaxUnavailable :: "int option"
  PdbSelector :: "string gomap option"

record PodDisruptionBudget =
  PdbMeta :: ObjectMeta
  PdbSpec :: PodDisruptionBudgetSpec

text \<open>The phases as the API has them; the empty string is the zero value of each.\<close>

datatype ClaimPhase = NoClaimPhase | ClaimPending | ClaimBound | ClaimLost

datatype PodPhase = NoPodPhase | PodPending | PodRunning | PodSucceeded | PodFailed | PodUnknown

record PersistentVolumeClaim =
  PvcMeta :: ObjectMeta
  AccessModes :: "string slice"
  PvcResources :: ResourceRequirements
  PvcPhase :: ClaimPhase

record Container =
  CName :: string
  CImage :: string
  CEnvFrom :: "EnvFromSource slice"
  CEnv :: "EnvVar slice"
  CResources :: ResourceRequirements
  CVolumeMounts :: "VolumeMount slice"
  CLivenessCommand :: "string list option"
  CPrivileged :: "bool option"

record Pod =
  PodMeta :: ObjectMeta
  ActiveDeadlineSeconds :: "int option"
  PodVolumes :: "Volume slice"
  Containers :: "Container list"
  RestartPolicy :: string
  PodServiceAccountName :: string
  AutomountServiceAccountToken :: "bool option"
  RunAsUser :: "int option"
  RunAsGroup :: "int option"
  RunAsNonRoot :: "bool option"
  FSGroup :: "int option"
  Sysctls :: "(string \<times> string) list"
  PodAffinityOf :: "AffinityT option"
  PodTolerations :: "Toleration slice"
  PodNodeSelector :: "string gomap"
  PodPhaseOf :: PodPhase

section \<open>The operator's kinds\<close>

record ActionsRunnerRepository =
  Owner :: string
  RepoName :: string
  APIEndpoint :: string

type_synonym ActionsRunnerPolicyRule = string

record ActionsRunnerPolicy =
  Must :: "ActionsRunnerPolicyRule slice"
  MustNot :: "ActionsRunnerPolicyRule slice"

type_synonym ActionsRunnerCapability = string

definition ActionsRunnerCapabilitySecret :: ActionsRunnerCapability where
  "ActionsRunnerCapabilitySecret = ''secret''"

definition ActionsRunnerCapabilityDocker :: ActionsRunnerCapability where
  "ActionsRunnerCapabilityDocker = ''docker''"

record ActionsRunnerSpec =
  Repository :: ActionsRunnerRepository
  Policy :: ActionsRunnerPolicy
  Capabilities :: "ActionsRunnerCapability slice"
  Annotations :: "string gomap"
  Labels :: "string slice"
  Version :: string
  Volumes :: "Volume slice"
  VolumeMounts :: "VolumeMount slice"
  EnvFrom :: "EnvFromSource slice"
  Env :: "EnvVar slice"
  Resources :: "ResourceRequirements gomap"
  ServiceAccountName :: string
  Affinity :: "AffinityT option"
  Tolerations :: "Toleration slice"
  NodeSelector :: "string gomap"

record ActionsRunner =
  ArMeta :: ObjectMeta
  ArSpec :: ActionsRunnerSpec

record ActionsRunnerJobStatus =
  PersistentVolumeClaimPhase :: ClaimPhase
  JobPodPhase :: PodPhase

record ActionsRunnerJob =
  ArjMeta :: ObjectMeta
  ArjStatus :: ActionsRunnerJobStatus

record ActionsRunnerReplicaSetSpec =
  Replicas :: "64 word"
  Template :: ActionsRunnerSpec

record ActionsRunnerReplicaSetStatus =
  StatusReplicas :: "64 word"
  Selector :: string

record ActionsRunnerReplicaSet =
  ArrsMeta :: ObjectMeta
  ArrsSpec :: ActionsRunnerReplicaSetSpec
  ArrsStatus :: ActionsRunnerReplicaSetStatus

definition emptySpec :: ActionsRunnerSpec where
  "emptySpec = \<lparr>Repository = \<lparr>Owner = [], RepoName = [], APIEndpoint = []\<rparr>,
     Policy = \<lparr>Must = None, MustNot = None\<rparr>, Capabilities = None, Annotations = None, Labels = None,
     Version = [], Volumes = None, VolumeMounts = None, EnvFrom = None, Env = None, Resources = None,
     ServiceAccountName = [], Affinity = None, Tolerations = None, NodeSelector = None\<rparr>"

definition zeroRunner :: ActionsRunner where
  "zeroRunner = \<lparr>ArMeta = zeroMeta, ArSpec = emptySpec\<rparr>"

definition zeroConfigMap :: ConfigMap where
  "zeroConfigMap = \<lparr>CmMeta = zeroMeta, BinaryData = None\<rparr>"

definition zeroSecret :: SecretObj where
  "zeroSecret = \<lparr>SecMeta = zeroMeta, SecData = None\<rparr>"

definition zeroPdb :: PodDisruptionBudget where
  "zeroPdb = \<lparr>PdbMeta = zeroMeta, PdbSpec = \<lparr>MaxUnavailable = None, PdbSelector = None\<rparr>\<rparr>"

definition zeroResources :: ResourceRequirements where
  "zeroResources = \<lparr>Limits = None, Requests = None\<rparr>"

definition zeroPvc :: PersistentVolumeClaim where
  "zeroPvc = \<lparr>PvcMeta = zeroMeta, AccessModes = None, PvcResources = zeroResources, PvcPhase = NoClaimPhase\<rparr>"

definition zeroPod :: Pod where
  "zeroPod = \<lparr>PodMeta = zeroMeta, ActiveDeadlineSeconds = None, PodVolumes = None, Containers = [],
     RestartPolicy = [], PodServiceAccountName = [], AutomountServiceAccountToken = None,
     RunAsUser = None, RunAsGroup = None, RunAsNonRoot = None, FSGroup = None, Sysctls = [],
     PodAffinityOf = None, PodTolerations = None, PodNodeSelector = None, PodPhaseOf = NoPodPhase\<rparr>"

lemmas zero_defs =
  zeroMeta_def zeroRunner_def emptySpec_def zeroConfigMap_def zeroSecret_def zeroPdb_def
  zeroResources_def zeroPvc_def zeroPod_def

section \<open>Building an object\<close>

text \<open>
  \<^verbatim>\<open>ctrl.SetControllerReference(owner, object, scheme)\<close> of a scheme, on the metadata of both.
\<close>

type_synonym Scheme = "ObjectMeta \<Rightarrow> ObjectMeta \<Rightarrow> goerr + ObjectMeta"

text \<open>
  Its documented behaviour: it writes the owner reference and nothing else, and fails when
  the object already has another controller.
\<close>

definition scheme_laws :: "Scheme \<Rightarrow> bool" where
  "scheme_laws sch \<longleftrightarrow>
     (\<forall>own obj r. sch own obj = Inr r \<longrightarrow> r = obj\<lparr>ControllerOwner := Some (MetaName own)\<rparr>) \<and>
     (\<forall>own obj. ControllerOwner obj = None \<longrightarrow> sch own obj = Inr (obj\<lparr>ControllerOwner := Some (MetaName own)\<rparr>))"

definition demo_scheme :: Scheme where
  "demo_scheme own obj = (case ControllerOwner obj of
       None \<Rightarrow> Inr (obj\<lparr>ControllerOwner := Some (MetaName own)\<rparr>)
     | Some o' \<Rightarrow> if o' = MetaName own then Inr (obj\<lparr>ControllerOwner := Some (MetaName own)\<rparr>) else Inl (External ''already owned''))"

lemma demo_scheme_laws: "scheme_laws demo_scheme"
  unfolding scheme_laws_def
  by (intro conjI allI impI) (auto simp: demo_scheme_def split: option.splits if_splits)

lemma scheme_lawsD:
  assumes "scheme_laws sch"
  shows "sch own obj = Inr r \<Longrightarrow> r = obj\<lparr>ControllerOwner := Some (MetaName own)\<rparr>"
    and "ControllerOwner obj = None \<Longrightarrow> sch own obj = Inr (obj\<lparr>ControllerOwner := Some (MetaName own)\<rparr>)"
  using assms unfolding scheme_laws_def by blast+

end
