(* ===== verification/Controller_Util.thy ===== *)
theory Controller_Util
  imports Api_Types
begin

text \<open>
  What the reconcilers share (\<^verbatim>\<open>operator/internal/controller/util.go\<close>): whether a runner asks for
  storage, the object of a watch event, which action takes an actual object to a desired one,
  and the tests for zero objects, ignorable errors and objects being deleted.
\<close>

section \<open>Storage\<close>

text \<open>
  \<^verbatim>\<open>ResourceList.Storage()\<close> gives the zero quantity when the key is missing and never nil.
\<close>

definition storageQuantity :: "(string \<rightharpoonup> int) \<Rightarrow> int" where
  "storageQuantity req = (case req ''storage'' of None \<Rightarrow> 0 | Some q \<Rightarrow> q)"

definition HasActionsRunnerRequestedStorage :: "ActionsRunner option \<Rightarrow> bool" where
  "HasActionsRunnerRequestedStorage ar = (case ar of
       None \<Rightarrow> False
     | Some r \<Rightarrow> (case key_get (Resources (ArSpec r)) ''runner'' of
           None \<Rightarrow> False
         | Some res \<Rightarrow> (case Requests res of
               None \<Rightarrow> False
             | Some req \<Rightarrow> storageQuantity req \<noteq> 0)))"

lemma HasActionsRunnerRequestedStorage_iff:
  "HasActionsRunnerRequestedStorage (Some r) \<longleftrightarrow>
     (\<exists>res req q. key_get (Resources (ArSpec r)) ''runner'' = Some res \<and> Requests res = Some req \<and>
        req ''storage'' = Some q \<and> q \<noteq> 0)"
  by (auto simp: HasActionsRunnerRequestedStorage_def storageQuantity_def split: option.splits)

section \<open>Watch events\<close>

datatype kind =
    KConfigMap | KSecret | KPodDisruptionBudget | KActionsRunnerJob | KActionsRunner
  | KActionsRunnerReplicaSet | KPersistentVolumeClaim | KPod | KOther string

datatype 'o event =
    CreateEvent 'o
  | UpdateEvent 'o 'o
  | DeleteEvent 'o
  | GenericEvent 'o
  | UnknownEvent

definition EventObject :: "'o event \<Rightarrow> 'o option" where
  "EventObject e = (case e of
       CreateEvent x \<Rightarrow> Some x
     | UpdateEvent old new \<Rightarrow> Some new
     | DeleteEvent x \<Rightarrow> Some x
     | GenericEvent x \<Rightarrow> Some x
     | UnknownEvent \<Rightarrow> None)"

text \<open>The four methods of \<^verbatim>\<open>EventPredicate\<close> apply one function to the event.\<close>

definition epCreate :: "('o event \<Rightarrow> bool) \<Rightarrow> 'o \<Rightarrow> bool" where
  "epCreate ep x = ep (CreateEvent x)"

definition epUpdate :: "('o event \<Rightarrow> bool) \<Rightarrow> 'o \<Rightarrow> 'o \<Rightarrow> bool" where
  "epUpdate ep old new = ep (UpdateEvent old new)"

definition epDelete :: "('o event \<Rightarrow> bool) \<Rightarrow> 'o \<Rightarrow> bool" where
  "epDelete ep x = ep (DeleteEvent x)"

definition epGeneric :: "('o event \<Rightarrow> bool) \<Rightarrow> 'o \<Rightarrow> bool" where
  "epGeneric ep x = ep (GenericEvent x)"

section \<open>Actual and desired objects\<close>

datatype ReconciliationAction =
    ReconciliationActionNothing
  | ReconciliationActionCreate
  | ReconciliationActionUpdate
  | ReconciliationActionDelete

text \<open>
  A nil interface and a nil pointer are zero; a pointer is zero when the struct it points to
  has its zero value \<open>z\<close>.
\<close>

definition IsZero :: "'a \<Rightarrow> 'a option \<Rightarrow> bool" where
  "IsZero z v \<longleftrightarrow> (case v of None \<Rightarrow> True | Some x \<Rightarrow> x = z)"

definition CalculateReconciliationAction :: "'a \<Rightarrow> 'a option \<Rightarrow> 'a option \<Rightarrow> ReconciliationAction" where
  "CalculateReconciliationAction z actual desired =
     (let actualIsZero = IsZero z actual; desiredIsZero = IsZero z desired in
      if actualIsZero \<and> \<not> desiredIsZero then ReconciliationActionCreate
      else if \<not> actualIsZero \<and> \<not> desiredIsZero then ReconciliationActionUpdate
      else if \<not> actualIsZero \<and> desiredIsZero then ReconciliationActionDelete
      else ReconciliationActionNothing)"

definition IgnoreAlreadyExists :: "goerr option \<Rightarrow> goerr option" where
  "IgnoreAlreadyExists err = (case err of
       None \<Rightarrow> None
     | Some e \<Rightarrow> if isAlreadyExists e then None else Some e)"

definition IsBeingDeleted :: "ObjectMeta option \<Rightarrow> bool" where
  "IsBeingDeleted o' = (case o' of
       None \<Rightarrow> True
     | Some m \<Rightarrow> (case DeletionTimestamp m of None \<Rightarrow> False | Some t \<Rightarrow> t \<noteq> 0))"

lemma IsBeingDeleted_zero [simp]: "\<not> IsBeingDeleted (Some zeroMeta)"
  by (simp add: IsBeingDeleted_def zeroMeta_def)

text \<open>
  The action is the one that makes the two agree: carrying it out on the actual object gives
  the desired one, up to zero objects standing for absent ones.
\<close>

definition applyAction :: "ReconciliationAction \<Rightarrow> 'a option \<Rightarrow> 'a option \<Rightarrow> 'a option" where
  "applyAction a actual desired = (case a of
       ReconciliationActionNothing \<Rightarrow> actual
     | ReconciliationActionCreate \<Rightarrow> desired
     | ReconciliationActionUpdate \<Rightarrow> desired
     | ReconciliationActionDelete \<Rightarrow> None)"

definition presence :: "'a \<Rightarrow> 'a option \<Rightarrow> 'a option" where
  "presence z v = (if IsZero z v then None else v)"

lemma action_reaches_desired:
  "presence z (applyAction (CalculateReconciliationAction z actual desired) actual desired) = presence z desired"
  by (simp add: CalculateReconciliationAction_def applyAction_def presence_def Let_def IsZero_def
      split: option.splits)

text \<open>
  The reconciliation action is the right one in each of the four cases: carrying it out
  reaches the desired state, it never deletes when something is desired nor creates over an
  existing object, and when both are absent it does nothing.
\<close>

theorem reconciliation_action_correct:
  "presence z (applyAction (CalculateReconciliationAction z actual desired) actual desired) = presence z desired \<and>
   (CalculateReconciliationAction z actual desired = ReconciliationActionDelete \<longleftrightarrow>
      presence z actual \<noteq> None \<and> presence z desired = None) \<and>
   (CalculateReconciliationAction z actual desired = ReconciliationActionCreate \<longleftrightarrow>
      presence z actual = None \<and> presence z desired \<noteq> None) \<and>
   (CalculateReconciliationAction z actual desired = ReconciliationActionNothing \<longleftrightarrow>
      presence z actual = None \<and> presence z desired = None)"
  using action_reaches_desired [of z actual desired]
  by (auto simp: CalculateReconciliationAction_def presence_def Let_def IsZero_def split: option.splits)

end
