(* ===== verification/Webhook.thy ===== *)
theory Webhook
  imports Controller_Util
begin

text \<open>
  The admission webhooks (\<^verbatim>\<open>operator/api/v1alpha1/actionsrunner_webhook.go\<close> and
  \<^verbatim>\<open>actionsrunnerreplicaset_webhook.go\<close>). The jq engine is a parameter: parsing, compiling and
  the first output of a program on an input.
\<close>

section \<open>The jq engine\<close>

datatype jq_out = JqBool bool | JqError goerr | JqOther string

record ('q, 'c, 'v) jq_api =
  JqParse :: "string \<Rightarrow> goerr + 'q"
  JqCompile :: "'q \<Rightarrow> goerr + 'c"
  JqFirst :: "'c \<Rightarrow> 'v \<Rightarrow> jq_out option"
  JqNil :: 'v

section \<open>Validation\<close>

definition ruleMsg :: "string \<Rightarrow> string \<Rightarrow> string" where
  "ruleMsg what rule = ''unable to '' @ what @ '' policy rule `'' @ rule @ ''`''"

definition validatePolicyRule :: "('q, 'c, 'v) jq_api \<Rightarrow> ActionsRunnerPolicyRule \<Rightarrow> unit res" where
  "validatePolicyRule jq rule = (case JqParse jq rule of
       Inl e \<Rightarrow> Err (WrapError (ruleMsg ''parse'' rule) e)
     | Inr q \<Rightarrow> (case JqCompile jq q of
           Inl e \<Rightarrow> Err (WrapError (ruleMsg ''compile'' rule) e)
         | Inr c \<Rightarrow> (case JqFirst jq c (JqNil jq) of
               None \<Rightarrow> Ok ()
             | Some (JqError e) \<Rightarrow> Err (WrapError (ruleMsg ''run'' rule) e)
             | Some _ \<Rightarrow> Ok ())))"

fun validateRules :: "('q, 'c, 'v) jq_api \<Rightarrow> ActionsRunnerPolicyRule list \<Rightarrow> unit res" where
  "validateRules jq [] = Ok ()"
| "validateRules jq (r # rs) = (case validatePolicyRule jq r of
       Ok _ \<Rightarrow> validateRules jq rs
     | Err e \<Rightarrow> Err e
     | Panic p \<Rightarrow> Panic p)"

definition validatePolicy :: "('q, 'c, 'v) jq_api \<Rightarrow> ActionsRunnerPolicy \<Rightarrow> unit res" where
  "validatePolicy jq p = (case validateRules jq (elems (Must p)) of
       Ok _ \<Rightarrow> validateRules jq (elems (MustNot p))
     | r \<Rightarrow> r)"

definition ArValidateCreate :: "('q, 'c, 'v) jq_api \<Rightarrow> ActionsRunner \<Rightarrow> unit res" where
  "ArValidateCreate jq ar = validatePolicy jq (Policy (ArSpec ar))"

text \<open>\<^verbatim>\<open>old\<close> is a \<^verbatim>\<open>runtime.Object\<close>: \<open>None\<close> when it is not an \<^verbatim>\<open>*ActionsRunner\<close>.\<close>

definition ArValidateUpdate ::
    "('q, 'c, 'v) jq_api \<Rightarrow> ActionsRunner \<Rightarrow> ActionsRunner option \<Rightarrow> unit res" where
  "ArValidateUpdate jq ar old = (case old of
       None \<Rightarrow> Err (ErrorString ''old.(*ActionsRunner) == nil'')
     | Some oldAR \<Rightarrow>
         if Repository (ArSpec ar) \<noteq> Repository (ArSpec oldAR)
         then Err (ErrorString ''.Spec.Repository is immutable'')
         else if Labels (ArSpec ar) \<noteq> Labels (ArSpec oldAR)
         then Err (ErrorString ''.Spec.Labels is immutable'')
         else validatePolicy jq (Policy (ArSpec ar)))"

definition ArValidateDelete :: "ActionsRunner \<Rightarrow> unit res" where
  "ArValidateDelete ar = Ok ()"

text \<open>The runner a replica set's template stands for, with a zero metadata.\<close>

definition templateRunner :: "ActionsRunnerReplicaSet \<Rightarrow> ActionsRunner" where
  "templateRunner arrs = zeroRunner\<lparr>ArSpec := Template (ArrsSpec arrs)\<rparr>"

definition ArrsValidateCreate :: "('q, 'c, 'v) jq_api \<Rightarrow> ActionsRunnerReplicaSet \<Rightarrow> unit res" where
  "ArrsValidateCreate jq arrs = ArValidateCreate jq (templateRunner arrs)"

definition ArrsValidateUpdate ::
    "('q, 'c, 'v) jq_api \<Rightarrow> ActionsRunnerReplicaSet \<Rightarrow> ActionsRunnerReplicaSet option \<Rightarrow> unit res" where
  "ArrsValidateUpdate jq arrs old = (case old of
       None \<Rightarrow> Err (ErrorString ''old.(*ActionsRunnerReplicaSet) == nil'')
     | Some oldARRS \<Rightarrow> ArValidateUpdate jq (templateRunner arrs) (Some (templateRunner oldARRS)))"

definition ArrsValidateDelete :: "ActionsRunnerReplicaSet \<Rightarrow> unit res" where
  "ArrsValidateDelete arrs = ArValidateDelete (templateRunner arrs)"

section \<open>Which rules are admitted\<close>

text \<open>A rule that parses, compiles and does not fail on the nil input.\<close>

definition admissible :: "('q, 'c, 'v) jq_api \<Rightarrow> ActionsRunnerPolicyRule \<Rightarrow> bool" where
  "admissible jq rule \<longleftrightarrow> (\<exists>q c. JqParse jq rule = Inr q \<and> JqCompile jq q = Inr c \<and>
     (\<forall>e. JqFirst jq c (JqNil jq) \<noteq> Some (JqError e)))"

definition policy_rules :: "ActionsRunnerPolicy \<Rightarrow> ActionsRunnerPolicyRule set" where
  "policy_rules p = set (elems (Must p)) \<union> set (elems (MustNot p))"

lemma validatePolicyRule_Ok: "validatePolicyRule jq r = Ok () \<longleftrightarrow> admissible jq r"
  by (auto simp: validatePolicyRule_def admissible_def split: sum.splits option.splits jq_out.splits)

lemma validateRules_Ok: "validateRules jq rs = Ok () \<longleftrightarrow> (\<forall>r\<in>set rs. admissible jq r)"
proof (induction rs)
  case (Cons r rs)
  then show ?case
    using validatePolicyRule_Ok [of jq r] by (cases "validatePolicyRule jq r") auto
qed simp

lemma validatePolicy_Ok: "validatePolicy jq p = Ok () \<longleftrightarrow> (\<forall>r\<in>policy_rules p. admissible jq r)"
  using validateRules_Ok [of jq "elems (Must p)"] validateRules_Ok [of jq "elems (MustNot p)"]
  by (cases "validateRules jq (elems (Must p))") (auto simp: validatePolicy_def policy_rules_def)

section \<open>The contract of a validator\<close>

text \<open>
  What a resource's webhook promises of the policy and of the identity it registered under:
  a sequence of admitted changes keeps the identity and leaves only admissible rules.
\<close>

fun admitted :: "('r \<Rightarrow> 'r \<Rightarrow> bool) \<Rightarrow> 'r \<Rightarrow> 'r list \<Rightarrow> bool" where
  "admitted u r [] = True"
| "admitted u r (r' # rs) = (u r' r \<and> admitted u r' rs)"

locale admission =
  fixes create_ok :: "'r \<Rightarrow> bool"
    and update_ok :: "'r \<Rightarrow> 'r \<Rightarrow> bool"
    and identity :: "'r \<Rightarrow> 'i"
    and good :: "'r \<Rightarrow> bool"
  assumes create_good: "create_ok r \<Longrightarrow> good r"
    and update_good: "update_ok r old \<Longrightarrow> good r"
    and update_identity: "update_ok r old \<Longrightarrow> identity r = identity old"
begin

lemma admitted_history:
  "good r \<Longrightarrow> admitted update_ok r rs \<Longrightarrow> good (last (r # rs)) \<and> identity (last (r # rs)) = identity r"
proof (induction rs arbitrary: r)
  case (Cons r' rs)
  then have "good r'" "identity r' = identity r" "admitted update_ok r' rs"
    by (auto intro: update_good update_identity)
  then show ?case using Cons.IH [of r'] by simp
qed simp

end

definition ar_identity :: "ActionsRunner \<Rightarrow> ActionsRunnerRepository \<times> string slice" where
  "ar_identity ar = (Repository (ArSpec ar), Labels (ArSpec ar))"

definition ar_good :: "('q, 'c, 'v) jq_api \<Rightarrow> ActionsRunner \<Rightarrow> bool" where
  "ar_good jq ar \<longleftrightarrow> (\<forall>r\<in>policy_rules (Policy (ArSpec ar)). admissible jq r)"

lemma ArValidateUpdate_Ok:
  "ArValidateUpdate jq ar (Some old) = Ok () \<longleftrightarrow> ar_identity ar = ar_identity old \<and> ar_good jq ar"
  by (auto simp: ArValidateUpdate_def ar_identity_def ar_good_def validatePolicy_Ok)

interpretation runners: admission
  "\<lambda>ar. ArValidateCreate jq ar = Ok ()" "\<lambda>ar old. ArValidateUpdate jq ar (Some old) = Ok ()"
  ar_identity "ar_good jq"
  for jq :: "('q, 'c, 'v) jq_api"
  by unfold_locales (auto simp: ArValidateUpdate_Ok ArValidateCreate_def validatePolicy_Ok ar_good_def)

interpretation sets: admission
  "\<lambda>rs. ArrsValidateCreate jq rs = Ok ()" "\<lambda>rs old. ArrsValidateUpdate jq rs (Some old) = Ok ()"
  "\<lambda>rs. ar_identity (templateRunner rs)" "\<lambda>rs. ar_good jq (templateRunner rs)"
  for jq :: "('q, 'c, 'v) jq_api"
  by unfold_locales
     (auto simp: ArrsValidateCreate_def ArrsValidateUpdate_def runners.create_good ArValidateUpdate_Ok)

section \<open>Properties\<close>

text \<open>
  Claim C9. What the webhooks admit stays sound over a resource's life: after an admitted creation and any
  sequence of admitted updates, every rule of the policy parses, compiles and runs without an error
  on the nil input, and the repository and the labels are those of the creation, for a runner and for
  the template of a replica set.
\<close>

theorem admitted_resources_keep_identity_and_rules:
  assumes "ArValidateCreate jq ar = Ok ()"
    and "admitted (\<lambda>new old. ArValidateUpdate jq new (Some old) = Ok ()) ar ars"
    and "ArrsValidateCreate jq rs = Ok ()"
    and "admitted (\<lambda>new old. ArrsValidateUpdate jq new (Some old) = Ok ()) rs rss"
  shows "Repository (ArSpec (last (ar # ars))) = Repository (ArSpec ar) \<and>
     Labels (ArSpec (last (ar # ars))) = Labels (ArSpec ar) \<and>
     (\<forall>r\<in>policy_rules (Policy (ArSpec (last (ar # ars)))). admissible jq r) \<and>
     Repository (Template (ArrsSpec (last (rs # rss)))) = Repository (Template (ArrsSpec rs)) \<and>
     Labels (Template (ArrsSpec (last (rs # rss)))) = Labels (Template (ArrsSpec rs)) \<and>
     (\<forall>r\<in>policy_rules (Policy (Template (ArrsSpec (last (rs # rss))))). admissible jq r)"
  using runners.admitted_history [OF runners.create_good [OF assms(1)] assms(2)]
    sets.admitted_history [OF sets.create_good [OF assms(3)] assms(4)]
  by (simp add: ar_identity_def ar_good_def templateRunner_def del: last.simps)

text \<open>An engine with two programs: one that holds and one that does not parse.\<close>

definition demo_jq :: "(string, string, string) jq_api" where
  "demo_jq = \<lparr>JqParse = (\<lambda>s. if s = ''('' then Inl (External ''unexpected token'') else Inr s),
     JqCompile = Inr, JqFirst = (\<lambda>c v. if c = ''true'' then Some (JqBool True)
       else if c = ''empty'' then None else if c = v then Some (JqBool True)
       else if c = ''error'' then Some (JqError (External ''error'')) else Some (JqOther c)),
     JqNil = ''null''\<rparr>"

definition demo_ar :: "string list \<Rightarrow> ActionsRunner" where
  "demo_ar rules = zeroRunner\<lparr>ArSpec := emptySpec\<lparr>Labels := Some [''linux''], Policy := \<lparr>Must = Some rules, MustNot = None\<rparr>\<rparr>\<rparr>"

definition demo_rs :: "string list \<Rightarrow> ActionsRunnerReplicaSet" where
  "demo_rs rules = \<lparr>ArrsMeta = zeroMeta, ArrsSpec = \<lparr>Replicas = 2, Template = ArSpec (demo_ar rules)\<rparr>,
     ArrsStatus = \<lparr>StatusReplicas = 0, Selector = []\<rparr>\<rparr>"

lemmas webhook_defs =
  ArValidateCreate_def ArValidateUpdate_def ArrsValidateCreate_def ArrsValidateUpdate_def validatePolicy_def
  validatePolicyRule_def templateRunner_def demo_jq_def demo_ar_def demo_rs_def zero_defs

theorem admitted_resources_keep_identity_and_rules_witness:
  "admissible demo_jq ''true'' \<and> admissible demo_jq ''empty'' \<and>
   ArValidateUpdate demo_jq (demo_ar [''('']) (Some (demo_ar [''true''])) \<noteq> Ok ()"
proof -
  have "\<forall>r\<in>policy_rules (Policy (ArSpec (last [demo_ar [], demo_ar [''true'', ''empty'']]))). admissible demo_jq r"
    using admitted_resources_keep_identity_and_rules
      [of demo_jq "demo_ar []" "[demo_ar [''true'', ''empty'']]" "demo_rs []" "[demo_rs [''true'']]"]
    by (simp add: webhook_defs)
  then show ?thesis by (simp add: policy_rules_def webhook_defs)
qed

text \<open>
  An update is refused for one of four reasons and otherwise admitted: the old object has
  another type, the repository or the labels differ (a nil and an empty list of labels differ too),
  or a rule of the new policy is not admissible.
\<close>

theorem update_admitted_iff:
  "ArValidateUpdate jq ar old = Ok () \<longleftrightarrow>
     (\<exists>o'. old = Some o' \<and> Repository (ArSpec ar) = Repository (ArSpec o') \<and>
        Labels (ArSpec ar) = Labels (ArSpec o')) \<and>
     (\<forall>r\<in>policy_rules (Policy (ArSpec ar)). admissible jq r)"
  by (cases old) (auto simp: ArValidateUpdate_Ok ar_identity_def ar_good_def ArValidateUpdate_def [of jq ar None])

theorem update_admitted_iff_witness:
  "ArValidateUpdate demo_jq (demo_ar [''true'']) (Some (demo_ar [''empty''])) = Ok ()"
  by (subst update_admitted_iff) (auto simp: policy_rules_def webhook_defs admissible_def)

end
