(* ===== verification/Context_Data.thy ===== *)
theory Context_Data
  imports Prelude "HOL-Library.AList"
begin

text \<open>
  The context data of a job (\<^verbatim>\<open>operator/internal/controller/actionsrunner/wire/context.go\<close>): its
  compact JSON form, decoding it and flattening it into plain values. Parsed JSON is the
  datatype \<open>json\<close>; a number is its literal, since the code only passes it on. An object is
  the list of its members in order; a repeated member overwrites, as \<^verbatim>\<open>encoding/json\<close> does.
\<close>

section \<open>JSON and context data\<close>

datatype json =
    JNull
  | JBool bool
  | JNum string
  | JStr string
  | JArr "json list"
  | JObj "(string \<times> json) list"

datatype PipelineContextData =
  PCD (PcdType: int) (PcdString: string) (PcdArray: "PipelineContextData list")
      (PcdDictionary: "(string \<times> PipelineContextData) list") (PcdBoolean: bool) (PcdNumber: string)

text \<open>The zero value; the zero number is written \<^verbatim>\<open>0\<close>.\<close>

definition zeroPcd :: PipelineContextData where
  "zeroPcd = PCD 0 [] [] [] False ''0''"

definition PipelineContextDataTypeString :: int where "PipelineContextDataTypeString = 0"

definition PipelineContextDataTypeArray :: int where "PipelineContextDataTypeArray = 1"

definition PipelineContextDataTypeDictionary :: int where "PipelineContextDataTypeDictionary = 2"

definition PipelineContextDataTypeBoolean :: int where "PipelineContextDataTypeBoolean = 3"

definition PipelineContextDataTypeNumber :: int where "PipelineContextDataTypeNumber = 4"

definition PipelineContextDataTypeCaseSensitiveDictionary :: int where
  "PipelineContextDataTypeCaseSensitiveDictionary = 5"

lemmas type_defs [simp] =
  PipelineContextDataTypeString_def PipelineContextDataTypeArray_def PipelineContextDataTypeDictionary_def
  PipelineContextDataTypeBoolean_def PipelineContextDataTypeNumber_def
  PipelineContextDataTypeCaseSensitiveDictionary_def

section \<open>Decoding\<close>

text \<open>\<^verbatim>\<open>strconv.ParseInt\<close> of a JSON number into an \<^verbatim>\<open>int32\<close>: digits only, within range.\<close>

fun digits_value :: "nat \<Rightarrow> string \<Rightarrow> nat" where
  "digits_value acc [] = acc"
| "digits_value acc (c # cs) = digits_value (10 * acc + (of_char c - 48)) cs"

definition parse_int32 :: "string \<Rightarrow> int option" where
  "parse_int32 lit =
     (let neg = (lit \<noteq> [] \<and> hd lit = CHR ''-''); ds = (if neg then tl lit else lit) in
      if ds = [] \<or> \<not> list_all is_digit ds then None
      else let v = (if neg then - int (digits_value 0 ds) else int (digits_value 0 ds)) in
           if - (2 ^ 31) \<le> v \<and> v < 2 ^ 31 then Some v else None)"

text \<open>Member names match a field up to the case of letters.\<close>

definition field_is :: "char \<Rightarrow> string \<Rightarrow> bool" where
  "field_is c k \<longleftrightarrow> k = [c] \<or> k = [char_of (of_char c - 32 :: nat)]"

definition typeErr :: "string \<Rightarrow> goerr" where
  "typeErr field = UnmarshalTypeError ''pipelineContextData'' field ''value''"

text \<open>
  \<open>UnmarshalJSON\<close> of a value, the members of an object into a struct (\<open>decodeFields\<close>), the
  elements of an array and the pairs of a dictionary. \<^verbatim>\<open>null\<close> leaves a field as it is, and a
  slice nil.
\<close>

function (sequential)
  UnmarshalJSON :: "json \<Rightarrow> PipelineContextData res" and
  decodeFields :: "(string \<times> json) list \<Rightarrow> PipelineContextData \<Rightarrow> PipelineContextData res" and
  decodeArray :: "json list \<Rightarrow> PipelineContextData list res" and
  decodePairs :: "json list \<Rightarrow> (string \<times> PipelineContextData) list res" and
  decodePair :: "(string \<times> json) list \<Rightarrow> string \<times> PipelineContextData \<Rightarrow> (string \<times> PipelineContextData) res"
where
  "UnmarshalJSON (JStr s) = Ok (PCD PipelineContextDataTypeString s [] [] False ''0'')"
| "UnmarshalJSON (JBool b) = Ok (PCD PipelineContextDataTypeBoolean [] [] [] b ''0'')"
| "UnmarshalJSON (JNum n) = Ok (PCD PipelineContextDataTypeNumber [] [] [] False n)"
| "UnmarshalJSON JNull = Ok zeroPcd"
| "UnmarshalJSON (JArr xs) = Err (typeErr '''')"
| "UnmarshalJSON (JObj ms) = decodeFields ms zeroPcd"
| "decodeFields [] p = Ok p"
| "decodeFields ((k, v) # ms) (PCD t s a d b n) =
     (if v = JNull then decodeFields ms (PCD t s (if field_is CHR ''a'' k then [] else a) (if field_is CHR ''d'' k then [] else d) b n)
      else if field_is CHR ''t'' k then
        (case v of JNum lit \<Rightarrow> (case parse_int32 lit of
              Some t' \<Rightarrow> decodeFields ms (PCD t' s a d b n) | None \<Rightarrow> Err (typeErr ''t''))
         | _ \<Rightarrow> Err (typeErr ''t''))
      else if field_is CHR ''s'' k then
        (case v of JStr s' \<Rightarrow> decodeFields ms (PCD t s' a d b n) | _ \<Rightarrow> Err (typeErr ''s''))
      else if field_is CHR ''a'' k then
        (case v of JArr xs \<Rightarrow> (case decodeArray xs of
              Ok a' \<Rightarrow> decodeFields ms (PCD t s a' d b n) | Err e \<Rightarrow> Err e | Panic m \<Rightarrow> Panic m)
         | _ \<Rightarrow> Err (typeErr ''a''))
      else if field_is CHR ''d'' k then
        (case v of JArr xs \<Rightarrow> (case decodePairs xs of
              Ok d' \<Rightarrow> decodeFields ms (PCD t s a d' b n) | Err e \<Rightarrow> Err e | Panic m \<Rightarrow> Panic m)
         | _ \<Rightarrow> Err (typeErr ''d''))
      else if field_is CHR ''b'' k then
        (case v of JBool b' \<Rightarrow> decodeFields ms (PCD t s a d b' n) | _ \<Rightarrow> Err (typeErr ''b''))
      else if field_is CHR ''n'' k then
        (case v of JNum n' \<Rightarrow> decodeFields ms (PCD t s a d b n') | _ \<Rightarrow> Err (typeErr ''n''))
      else decodeFields ms (PCD t s a d b n))"
| "decodeArray [] = Ok []"
| "decodeArray (x # xs) = (case UnmarshalJSON x of
       Ok p \<Rightarrow> (case decodeArray xs of Ok ps \<Rightarrow> Ok (p # ps) | Err e \<Rightarrow> Err e | Panic m \<Rightarrow> Panic m)
     | Err e \<Rightarrow> Err e | Panic m \<Rightarrow> Panic m)"
| "decodePairs [] = Ok []"
| "decodePairs (JObj ms # xs) = (case decodePair ms ([], zeroPcd) of
       Ok kv \<Rightarrow> (case decodePairs xs of Ok kvs \<Rightarrow> Ok (kv # kvs) | Err e \<Rightarrow> Err e | Panic m \<Rightarrow> Panic m)
     | Err e \<Rightarrow> Err e | Panic m \<Rightarrow> Panic m)"
| "decodePairs (JNull # xs) =
     (case decodePairs xs of Ok kvs \<Rightarrow> Ok (([], zeroPcd) # kvs) | Err e \<Rightarrow> Err e | Panic m \<Rightarrow> Panic m)"
| "decodePairs (x # xs) = Err (typeErr ''d'')"
| "decodePair [] kv = Ok kv"
| "decodePair ((k, v) # ms) (key, val) =
     (if field_is CHR ''k'' k then
        (case v of JStr s \<Rightarrow> decodePair ms (s, val) | JNull \<Rightarrow> decodePair ms (key, val) | _ \<Rightarrow> Err (typeErr ''k''))
      else if field_is CHR ''v'' k then
        (case UnmarshalJSON v of Ok p \<Rightarrow> decodePair ms (key, p) | Err e \<Rightarrow> Err e | Panic m \<Rightarrow> Panic m)
      else decodePair ms (key, val))"
  by pat_completeness auto
termination
  by (relation "measure (\<lambda>x. case x of
        Inl (Inl j) \<Rightarrow> size j
      | Inl (Inr (ms, _)) \<Rightarrow> size_list (size_prod (\<lambda>x. 0) size) ms
      | Inr (Inl xs) \<Rightarrow> size_list size xs
      | Inr (Inr (Inl xs)) \<Rightarrow> size_list size xs
      | Inr (Inr (Inr (ms, _))) \<Rightarrow> size_list (size_prod (\<lambda>x. 0) size) ms)") auto

section \<open>Flattening\<close>

text \<open>The plain values handed to the policy: Go's strings, numbers, booleans, slices and maps.\<close>

datatype flat = FStr string | FNum string | FBool bool | FArr "flat list" | FMap "(string \<times> flat) list"

definition unknownType :: "int \<Rightarrow> goerr" where
  "unknownType t = ErrorString (''unknown pipeline context data type: '' @ show_int t)"

function (sequential)
  Flattened :: "PipelineContextData \<Rightarrow> flat res" and
  flattenArray :: "PipelineContextData list \<Rightarrow> flat list res" and
  flattenPairs :: "(string \<times> PipelineContextData) list \<Rightarrow> (string \<times> flat) list \<Rightarrow> (string \<times> flat) list res"
where
  "Flattened (PCD t s a d b n) =
     (if t = PipelineContextDataTypeString then Ok (FStr s)
      else if t = PipelineContextDataTypeArray then
        (case flattenArray a of Ok xs \<Rightarrow> Ok (FArr xs) | Err e \<Rightarrow> Err e | Panic m \<Rightarrow> Panic m)
      else if t = PipelineContextDataTypeDictionary \<or> t = PipelineContextDataTypeCaseSensitiveDictionary then
        (case flattenPairs d [] of Ok m \<Rightarrow> Ok (FMap m) | Err e \<Rightarrow> Err e | Panic m \<Rightarrow> Panic m)
      else if t = PipelineContextDataTypeBoolean then Ok (FBool b)
      else if t = PipelineContextDataTypeNumber then Ok (FNum n)
      else Err (unknownType t))"
| "flattenArray [] = Ok []"
| "flattenArray (p # ps) = (case Flattened p of
       Ok x \<Rightarrow> (case flattenArray ps of Ok xs \<Rightarrow> Ok (x # xs) | Err e \<Rightarrow> Err e | Panic m \<Rightarrow> Panic m)
     | Err e \<Rightarrow> Err e | Panic m \<Rightarrow> Panic m)"
| "flattenPairs [] msi = Ok msi"
| "flattenPairs ((k, p) # kps) msi = (case Flattened p of
       Ok v \<Rightarrow> flattenPairs kps (AList.update k v msi) | Err e \<Rightarrow> Err e | Panic m \<Rightarrow> Panic m)"
  by pat_completeness auto
termination
  by (relation "measure (\<lambda>x. case x of
        Inl p \<Rightarrow> size p
      | Inr (Inl ps) \<Rightarrow> size_list size ps
      | Inr (Inr (kps, _)) \<Rightarrow> size_list (size_prod (\<lambda>x. 0) size) kps)") auto

section \<open>The compact form\<close>

text \<open>How the service writes a plain value: bare strings, numbers and booleans, tagged arrays and dictionaries.\<close>

fun compact :: "flat \<Rightarrow> json" where
  "compact (FStr s) = JStr s"
| "compact (FNum n) = JNum n"
| "compact (FBool b) = JBool b"
| "compact (FArr xs) = JObj [(''t'', JNum ''1''), (''a'', JArr (map compact xs))]"
| "compact (FMap kvs) =
     JObj [(''t'', JNum ''2''), (''d'', JArr (map (\<lambda>(k, v). JObj [(''k'', JStr k), (''v'', compact v)]) kvs))]"

text \<open>A Go map has each key once.\<close>

fun wf_flat :: "flat \<Rightarrow> bool" where
  "wf_flat (FArr xs) = list_all wf_flat xs"
| "wf_flat (FMap kvs) = (distinct (map fst kvs) \<and> list_all (\<lambda>(k, v). wf_flat v) kvs)"
| "wf_flat _ = True"

definition decodes :: "flat \<Rightarrow> bool" where
  "decodes v \<longleftrightarrow> (\<exists>p. UnmarshalJSON (compact v) = Ok p \<and> Flattened p = Ok v)"

lemma parse_tags [simp]:
  "parse_int32 ''1'' = Some 1" "parse_int32 ''2'' = Some 2"
  by (simp_all add: parse_int32_def Let_def is_digit_def)

lemma field_is_letters [simp]:
  "field_is CHR ''t'' ''t''" "field_is CHR ''a'' ''a''" "field_is CHR ''d'' ''d''" "field_is CHR ''k'' ''k''"
  "field_is CHR ''v'' ''v''" "\<not> field_is CHR ''k'' ''v''" "\<not> field_is CHR ''t'' ''a''" "\<not> field_is CHR ''s'' ''a''"
  "\<not> field_is CHR ''t'' ''d''" "\<not> field_is CHR ''s'' ''d''" "\<not> field_is CHR ''a'' ''d''"
  by (simp_all add: field_is_def char_of_def)

lemma decode_array_compact:
  assumes "\<And>v. v \<in> set xs \<Longrightarrow> decodes v"
  shows "\<exists>ps. decodeArray (map compact xs) = Ok ps \<and> flattenArray ps = Ok xs"
  using assms
proof (induction xs)
  case (Cons x xs)
  obtain p where "UnmarshalJSON (compact x) = Ok p" "Flattened p = Ok x"
    using Cons.prems [of x] by (auto simp: decodes_def)
  moreover obtain ps where "decodeArray (map compact xs) = Ok ps" "flattenArray ps = Ok xs"
    using Cons.IH Cons.prems by auto
  ultimately show ?case by (intro exI [of _ "p # ps"]) simp
qed simp

lemma update_new: "k \<notin> fst ` set al \<Longrightarrow> AList.update k v al = al @ [(k, v)]"
  by (induction al) auto

lemma decode_pairs_compact:
  assumes "\<And>k v. (k, v) \<in> set kvs \<Longrightarrow> decodes v" "distinct (map fst acc @ map fst kvs)"
  shows "\<exists>ps. decodePairs (map (\<lambda>(k, v). JObj [(''k'', JStr k), (''v'', compact v)]) kvs) = Ok ps \<and>
     flattenPairs ps acc = Ok (acc @ kvs)"
  using assms
proof (induction kvs arbitrary: acc)
  case (Cons kv kvs)
  obtain k v where kv: "kv = (k, v)" by fastforce
  obtain p where p: "UnmarshalJSON (compact v) = Ok p" "Flattened p = Ok v"
    using Cons.prems(1) [of k v] unfolding kv decodes_def by (meson list.set_intros(1))
  have k: "k \<notin> fst ` set acc" using Cons.prems(2) by (auto simp: kv)
  have "distinct (map fst (acc @ [(k, v)]) @ map fst kvs)" using Cons.prems(2) by (auto simp: kv)
  then have "\<exists>ps. decodePairs (map (\<lambda>(k, v). JObj [(''k'', JStr k), (''v'', compact v)]) kvs) = Ok ps \<and>
      flattenPairs ps (acc @ [(k, v)]) = Ok ((acc @ [(k, v)]) @ kvs)"
    using Cons.prems(1) by (intro Cons.IH) auto
  then obtain ps where
      "decodePairs (map (\<lambda>(k, v). JObj [(''k'', JStr k), (''v'', compact v)]) kvs) = Ok ps"
      "flattenPairs ps (acc @ [(k, v)]) = Ok ((acc @ [(k, v)]) @ kvs)" by blast
  then show ?case using p by (intro exI [of _ "(k, p) # ps"]) (simp add: kv update_new [OF k])
qed simp

lemma wf_decodes: "wf_flat v \<Longrightarrow> decodes v"
proof (induction v rule: wf_flat.induct)
  case (1 xs)
  then obtain ps where "decodeArray (map compact xs) = Ok ps" "flattenArray ps = Ok xs"
    using decode_array_compact [of xs] by (auto simp: list_all_iff)
  then show ?case by (simp add: decodes_def zeroPcd_def)
next
  case (2 kvs)
  have all: "decodes v" if "(k, v) \<in> set kvs" for k v
    using that 2 by (auto simp: list_all_iff)
  obtain ps where "decodePairs (map (\<lambda>(k, v). JObj [(''k'', JStr k), (''v'', compact v)]) kvs) = Ok ps"
      "flattenPairs ps [] = Ok kvs"
    using decode_pairs_compact [of kvs "[]"] all 2 by auto
  then show ?case by (simp add: decodes_def zeroPcd_def)
qed (simp_all add: decodes_def)

section \<open>Properties\<close>


definition demo_context :: flat where
  "demo_context = FMap [(''ref'', FStr ''refs/heads/master''),
     (''event'', FMap [(''id'', FNum ''33351090.0''), (''labels'', FArr [FStr ''x'', FBool True, FMap []])])]"


end
