(* ===== verification/Policy_Validator.thy ===== *)
theory Policy_Validator
  imports Webhook Context_Data
begin

text \<open>
  The policy check of a job (\<^verbatim>\<open>operator/internal/controller/actionsrunner/wire/validator.go\<close>): the
  rules of a policy are compiled once and cached, and run on the flattened context of the
  job request. The first output of a rule decides.
\<close>

section \<open>The validator\<close>

type_synonym ctx_data = "(string \<times> flat) list"

type_synonym 'c rule_cache = "ActionsRunnerPolicyRule \<rightharpoonup> 'c"

definition NewPolicyValidator :: "'c rule_cache" where
  "NewPolicyValidator = Map.empty"

definition compileRule ::
    "('q, 'c, ctx_data) jq_api \<Rightarrow> ActionsRunnerPolicyRule \<Rightarrow> ('c rule_cache, 'c) go" where
  "compileRule jq rule =
     andThen ask (\<lambda>cache. case cache rule of
         Some c \<Rightarrow> ret c
       | None \<Rightarrow> (case JqParse jq rule of
             Inl e \<Rightarrow> fail (WrapError (ruleMsg ''parse'' rule) e)
           | Inr q \<Rightarrow> (case JqCompile jq q of
                 Inl e \<Rightarrow> fail (WrapError (ruleMsg ''compile'' rule) e)
               | Inr c \<Rightarrow> andThen (upd (\<lambda>m. m(rule \<mapsto> c))) (\<lambda>_. ret c))))"

fun validateMust ::
    "('q, 'c, ctx_data) jq_api \<Rightarrow> ActionsRunnerPolicyRule list \<Rightarrow> ctx_data \<Rightarrow>
     ('c rule_cache, ActionsRunnerPolicyRule option) go" where
  "validateMust jq [] cd = ret None"
| "validateMust jq (rule # rules) cd =
     andThen (compileRule jq rule) (\<lambda>code. case JqFirst jq code cd of
         None \<Rightarrow> ret (Some rule)
       | Some (JqBool b) \<Rightarrow> if \<not> b then ret (Some rule) else validateMust jq rules cd
       | Some _ \<Rightarrow> ret (Some rule))"

fun validateMustNot ::
    "('q, 'c, ctx_data) jq_api \<Rightarrow> ActionsRunnerPolicyRule list \<Rightarrow> ctx_data \<Rightarrow>
     ('c rule_cache, ActionsRunnerPolicyRule option) go" where
  "validateMustNot jq [] cd = ret None"
| "validateMustNot jq (rule # rules) cd =
     andThen (compileRule jq rule) (\<lambda>code. case JqFirst jq code cd of
         None \<Rightarrow> validateMustNot jq rules cd
       | Some (JqBool b) \<Rightarrow> if b then ret (Some rule) else validateMustNot jq rules cd
       | Some _ \<Rightarrow> validateMustNot jq rules cd)"

text \<open>
  The context of the request is a Go map, here the list of its entries in the order of the
  iteration; a nil pointer is dereferenced.
\<close>

fun flattenContext :: "(string \<times> PipelineContextData) list \<Rightarrow> ctx_data \<Rightarrow> ctx_data res" where
  "flattenContext [] cd = Ok cd"
| "flattenContext ((k, v) # kvs) cd = (case Flattened v of
       Ok f \<Rightarrow> flattenContext kvs (AList.update k f cd)
     | Err e \<Rightarrow> Err e
     | Panic p \<Rightarrow> Panic p)"

definition Validate ::
    "('q, 'c, ctx_data) jq_api \<Rightarrow> ActionsRunnerPolicy \<Rightarrow> (string \<times> PipelineContextData) list option \<Rightarrow>
     ('c rule_cache, ActionsRunnerPolicyRule option) go" where
  "Validate jq policy contextData = (case contextData of
       None \<Rightarrow> panic ''nil pointer dereference''
     | Some kvs \<Rightarrow>
         andThen (lift_res (flattenContext kvs [])) (\<lambda>cd.
         andThen (validateMust jq (elems (Must policy)) cd) (\<lambda>must. case must of
             Some r \<Rightarrow> ret (Some r)
           | None \<Rightarrow> andThen (validateMustNot jq (elems (MustNot policy)) cd) (\<lambda>mustNot. case mustNot of
                 Some r \<Rightarrow> ret (Some r)
               | None \<Rightarrow> ret None))))"

section \<open>The cache is transparent\<close>

text \<open>
  A memoised computation: fetching gives what computing gives, and keeps the memo sound.
  A client that fetches many keys gets the computed results, whatever the memo holds.
\<close>

locale memo =
  fixes compute :: "'k \<Rightarrow> 'v res"
    and fetch :: "'k \<Rightarrow> ('s, 'v) go"
    and sound :: "'s \<Rightarrow> bool"
  assumes fetch_result: "sound s \<Longrightarrow> fst (fetch k s) = compute k"
    and fetch_sound: "sound s \<Longrightarrow> sound (snd (fetch k s))"
begin

lemma fetchE:
  assumes "sound s"
  obtains s' where "fetch k s = (compute k, s')" and "sound s'"
  using fetch_result [OF assms, of k] fetch_sound [OF assms, of k] by (metis prod.collapse)

text \<open>A loop that fetches key after key and stops at the first value it is looking for.\<close>

lemma fetch_find:
  assumes nil: "m [] = ret None"
    and cons: "\<And>k ks. m (k # ks) = andThen (fetch k) (\<lambda>v. if P v then ret (Some k) else m ks)"
  shows "sound s \<Longrightarrow> \<forall>k\<in>set ks. \<exists>v. compute k = Ok v \<Longrightarrow>
    \<exists>s'. sound s' \<and> m ks s = (Ok (find (\<lambda>k. \<exists>v. compute k = Ok v \<and> P v) ks), s')"
proof (induction ks arbitrary: s)
  case (Cons k ks)
  then obtain v where v: "compute k = Ok v" by auto
  from fetchE [OF Cons.prems(1), of k] obtain s1 where "fetch k s = (Ok v, s1)" "sound s1"
    by (auto simp: v)
  then show ?case using Cons.IH [of s1] Cons.prems(2) v by (auto simp: cons andThen_def ret_def)
qed (auto simp: nil ret_def)

end

definition compiled :: "('q, 'c, 'v) jq_api \<Rightarrow> ActionsRunnerPolicyRule \<Rightarrow> 'c res" where
  "compiled jq rule = (case JqParse jq rule of
       Inl e \<Rightarrow> Err (WrapError (ruleMsg ''parse'' rule) e)
     | Inr q \<Rightarrow> (case JqCompile jq q of
           Inl e \<Rightarrow> Err (WrapError (ruleMsg ''compile'' rule) e)
         | Inr c \<Rightarrow> Ok c))"

definition cache_sound :: "('q, 'c, 'v) jq_api \<Rightarrow> 'c rule_cache \<Rightarrow> bool" where
  "cache_sound jq m \<longleftrightarrow> (\<forall>r c. m r = Some c \<longrightarrow> compiled jq r = Ok c)"

interpretation rules: memo "compiled jq" "compileRule jq" "cache_sound jq"
  for jq :: "('q, 'c, ctx_data) jq_api"
  by unfold_locales
     (auto simp: compileRule_def compiled_def cache_sound_def go_simps split: option.splits sum.splits)

text \<open>The verdict without a cache.\<close>

definition holds :: "('q, 'c, 'v) jq_api \<Rightarrow> 'v \<Rightarrow> ActionsRunnerPolicyRule \<Rightarrow> bool" where
  "holds jq cd r \<longleftrightarrow> (\<exists>c. compiled jq r = Ok c \<and> JqFirst jq c cd = Some (JqBool True))"

definition all_compile :: "('q, 'c, 'v) jq_api \<Rightarrow> ActionsRunnerPolicyRule list \<Rightarrow> bool" where
  "all_compile jq rs \<longleftrightarrow> (\<forall>r\<in>set rs. \<exists>c. compiled jq r = Ok c)"

lemma validateMust_body:
  "validateMust jq (rule # rules) cd =
     andThen (compileRule jq rule) (\<lambda>code. if JqFirst jq code cd \<noteq> Some (JqBool True)
       then ret (Some rule) else validateMust jq rules cd)"
  unfolding validateMust.simps
  by (rule arg_cong [of _ _ "andThen (compileRule jq rule)"]) (auto simp: fun_eq_iff split: option.splits jq_out.splits)

lemma validateMustNot_body:
  "validateMustNot jq (rule # rules) cd =
     andThen (compileRule jq rule) (\<lambda>code. if JqFirst jq code cd = Some (JqBool True)
       then ret (Some rule) else validateMustNot jq rules cd)"
  unfolding validateMustNot.simps
  by (rule arg_cong [of _ _ "andThen (compileRule jq rule)"]) (auto simp: fun_eq_iff split: option.splits jq_out.splits)

declare validateMust.simps(2) [simp del] validateMustNot.simps(2) [simp del]

lemma validateMust_find:
  assumes "cache_sound jq s" and "all_compile jq rs"
  shows "\<exists>s'. cache_sound jq s' \<and> validateMust jq rs cd s = (Ok (find (\<lambda>r. \<not> holds jq cd r) rs), s')"
proof -
  have "find (\<lambda>r. \<exists>c. compiled jq r = Ok c \<and> JqFirst jq c cd \<noteq> Some (JqBool True)) rs =
      find (\<lambda>r. \<not> holds jq cd r) rs"
    using assms(2) by (intro find_cong) (auto simp: holds_def all_compile_def)
  then show ?thesis
    using rules.fetch_find [of "\<lambda>rs. validateMust jq rs cd" jq "\<lambda>c. JqFirst jq c cd \<noteq> Some (JqBool True)" s rs]
      assms by (simp add: validateMust_body all_compile_def)
qed

lemma validateMustNot_find:
  assumes "cache_sound jq s" and "all_compile jq rs"
  shows "\<exists>s'. cache_sound jq s' \<and> validateMustNot jq rs cd s = (Ok (find (holds jq cd) rs), s')"
proof -
  have "holds jq cd = (\<lambda>r. \<exists>c. compiled jq r = Ok c \<and> JqFirst jq c cd = Some (JqBool True))"
    by (simp add: holds_def fun_eq_iff)
  then show ?thesis
    using rules.fetch_find [of "\<lambda>rs. validateMustNot jq rs cd" jq "\<lambda>c. JqFirst jq c cd = Some (JqBool True)" s rs]
      assms by (simp add: validateMustNot_body all_compile_def)
qed

text \<open>Admission makes every rule compile.\<close>

lemma admissible_compiles: "\<forall>r\<in>policy_rules p. admissible jq r \<Longrightarrow> all_compile jq (elems (Must p)) \<and> all_compile jq (elems (MustNot p))"
proof -
  assume a: "\<forall>r\<in>policy_rules p. admissible jq r"
  have "\<exists>c. compiled jq r = Ok c" if "r \<in> policy_rules p" for r
    using a that by (auto simp: admissible_def compiled_def)
  then show ?thesis by (simp add: all_compile_def policy_rules_def)
qed

definition verdict ::
    "('q, 'c, ctx_data) jq_api \<Rightarrow> ActionsRunnerPolicy \<Rightarrow> ctx_data \<Rightarrow> ActionsRunnerPolicyRule option" where
  "verdict jq p cd = (case find (\<lambda>r. \<not> holds jq cd r) (elems (Must p)) of
       Some r \<Rightarrow> Some r
     | None \<Rightarrow> find (holds jq cd) (elems (MustNot p)))"

lemma Validate_verdict:
  assumes "cache_sound jq s" and "all_compile jq (elems (Must p))" and "all_compile jq (elems (MustNot p))"
    and "flattenContext kvs [] = Ok cd"
  shows "\<exists>s'. cache_sound jq s' \<and> Validate jq p (Some kvs) s = (Ok (verdict jq p cd), s')"
proof -
  obtain s1 where s1: "cache_sound jq s1"
      "validateMust jq (elems (Must p)) cd s = (Ok (find (\<lambda>r. \<not> holds jq cd r) (elems (Must p))), s1)"
    using validateMust_find [OF assms(1,2)] by blast
  obtain s2 where s2: "cache_sound jq s2"
      "validateMustNot jq (elems (MustNot p)) cd s1 = (Ok (find (holds jq cd) (elems (MustNot p))), s2)"
    using validateMustNot_find [OF s1(1) assms(3)] by blast
  show ?thesis
    using s1 s2 assms(4)
    by (cases "find (\<lambda>r. \<not> holds jq cd r) (elems (Must p))")
       (auto simp: Validate_def verdict_def andThen_def lift_res_def ret_def split: option.splits)
qed

lemma verdict_None:
  "verdict jq p cd = None \<longleftrightarrow>
     (\<forall>r\<in>set (elems (Must p)). holds jq cd r) \<and> (\<forall>r\<in>set (elems (MustNot p)). \<not> holds jq cd r)"
proof (cases "find (\<lambda>r. \<not> holds jq cd r) (elems (Must p))")
  case None
  then have "verdict jq p cd = find (holds jq cd) (elems (MustNot p))" by (simp add: verdict_def)
  with None show ?thesis by (auto simp: find_None_iff)
next
  case (Some r)
  then have "\<exists>r\<in>set (elems (Must p)). \<not> holds jq cd r" by (metis find_Some_iff nth_mem)
  with Some show ?thesis by (auto simp: verdict_def)
qed

section \<open>Properties\<close>

text \<open>
  Claim C3. The policy check does what the policy says, whatever was compiled before: with every rule
  admitted by the webhook and the context flattened, it raises no error, it lets the job pass
  exactly when the first output of every \<^verbatim>\<open>must\<close> rule is true and of no \<^verbatim>\<open>mustNot\<close> rule is true, and a
  rule it reports is a violated one of the policy. The cache stays sound, so the next job is judged
  the same way.
\<close>

theorem policy_check_correct:
  assumes "cache_sound jq s"
    and "\<forall>r\<in>policy_rules p. admissible jq r"
    and "flattenContext kvs [] = Ok cd"
  shows "\<exists>v s'. Validate jq p (Some kvs) s = (Ok v, s') \<and> cache_sound jq s' \<and>
     (v = None \<longleftrightarrow> (\<forall>r\<in>set (elems (Must p)). holds jq cd r) \<and> (\<forall>r\<in>set (elems (MustNot p)). \<not> holds jq cd r)) \<and>
     (\<forall>r. v = Some r \<longrightarrow> r \<in> set (elems (Must p)) \<and> \<not> holds jq cd r \<or> r \<in> set (elems (MustNot p)) \<and> holds jq cd r)"
proof -
  obtain s' where "cache_sound jq s'" "Validate jq p (Some kvs) s = (Ok (verdict jq p cd), s')"
    using Validate_verdict [OF assms(1) _ _ assms(3)] admissible_compiles [OF assms(2)] by blast
  moreover have "verdict jq p cd = Some r \<Longrightarrow>
      r \<in> set (elems (Must p)) \<and> \<not> holds jq cd r \<or> r \<in> set (elems (MustNot p)) \<and> holds jq cd r" for r
    by (auto simp: verdict_def find_Some_iff split: option.splits)
  ultimately show ?thesis using verdict_None [of jq p cd] by auto
qed

definition demo_engine :: "(string, string, ctx_data) jq_api" where
  "demo_engine = \<lparr>JqParse = (\<lambda>s. if s = ''('' then Inl (External ''unexpected token'') else Inr s),
     JqCompile = Inr,
     JqFirst = (\<lambda>c cd. if c = ''.ref'' then (case map_of cd ''ref'' of
           Some (FBool b) \<Rightarrow> Some (JqBool b) | _ \<Rightarrow> Some (JqError (External ''not a boolean'')))
         else if c = ''empty'' then None else Some (JqBool (c = ''true''))),
     JqNil = [(''ref'', FBool True)]\<rparr>"

theorem policy_check_correct_witness:
  "\<exists>s'. Validate demo_engine \<lparr>Must = Some [''true'', ''.ref''], MustNot = Some [''empty'']\<rparr>
      (Some [(''ref'', PCD 3 [] [] [] True ''0'')]) NewPolicyValidator = (Ok None, s')"
proof -
  let ?p = "\<lparr>Must = Some [''true'', ''.ref''], MustNot = Some [''empty'']\<rparr>"
  let ?cd = "[(''ref'', FBool True)]"
  have "\<exists>v s'. Validate demo_engine ?p (Some [(''ref'', PCD 3 [] [] [] True ''0'')]) NewPolicyValidator = (Ok v, s') \<and>
      cache_sound demo_engine s' \<and>
      (v = None \<longleftrightarrow> (\<forall>r\<in>set (elems (Must ?p)). holds demo_engine ?cd r) \<and> (\<forall>r\<in>set (elems (MustNot ?p)). \<not> holds demo_engine ?cd r)) \<and>
      (\<forall>r. v = Some r \<longrightarrow> r \<in> set (elems (Must ?p)) \<and> \<not> holds demo_engine ?cd r \<or> r \<in> set (elems (MustNot ?p)) \<and> holds demo_engine ?cd r)"
    by (rule policy_check_correct)
       (simp_all add: cache_sound_def NewPolicyValidator_def policy_rules_def admissible_def demo_engine_def)
  then show ?thesis by (auto simp: holds_def compiled_def demo_engine_def)
qed



end
