(* ===== verification/Dot_Files.thy ===== *)
theory Dot_Files
  imports Api_Types
begin

text \<open>
  The runner's dot files (\<^verbatim>\<open>operator/internal/controller/actionsrunner/dot\<close>): settings, credentials
  and RSA parameters, with the conversion of a key to its byte strings and back.
\<close>

section \<open>Files\<close>

record CredentialsData =
  ClientId :: string
  AuthorizationURL :: string
  OAuthEndpointURL :: string
  RequireFipsCryptography :: string

record Credentials =
  CredScheme :: string
  CredData :: CredentialsData

record DotRunner =
  AgentId :: int
  AgentName :: string
  SkipSessionRecover :: bool
  PoolId :: int
  PoolName :: string
  DisableUpdate :: bool
  Ephemeral :: bool
  ServerUrl :: string
  GitHubUrl :: string
  WorkFolder :: string
  MonitorSocketAddress :: string
  IsHostedServer :: bool

type_synonym bytes = "8 word list"

record RSAParameters =
  RsaD :: "bytes option"
  RsaDP :: "bytes option"
  RsaDQ :: "bytes option"
  RsaExponent :: "bytes option"
  RsaInverseQ :: "bytes option"
  RsaModulus :: "bytes option"
  RsaP :: "bytes option"
  RsaQ :: "bytes option"

record Files =
  FRunner :: DotRunner
  FCredentials :: Credentials
  FRSAParameters :: RSAParameters

definition zeroFiles :: Files where
  "zeroFiles = \<lparr>FRunner = \<lparr>AgentId = 0, AgentName = [], SkipSessionRecover = False, PoolId = 0, PoolName = [],
       DisableUpdate = False, Ephemeral = False, ServerUrl = [], GitHubUrl = [], WorkFolder = [],
       MonitorSocketAddress = [], IsHostedServer = False\<rparr>,
     FCredentials = \<lparr>CredScheme = [], CredData = \<lparr>ClientId = [], AuthorizationURL = [], OAuthEndpointURL = [],
       RequireFipsCryptography = []\<rparr>\<rparr>,
     FRSAParameters = \<lparr>RsaD = None, RsaDP = None, RsaDQ = None, RsaExponent = None, RsaInverseQ = None,
       RsaModulus = None, RsaP = None, RsaQ = None\<rparr>\<rparr>"

section \<open>Big integers as bytes\<close>

text \<open>\<^verbatim>\<open>big.Int.SetBytes\<close>: unsigned, big endian.\<close>

definition SetBytes :: "bytes \<Rightarrow> nat" where
  "SetBytes bs = foldl (\<lambda>acc b. 256 * acc + unat b) 0 bs"

text \<open>\<^verbatim>\<open>big.Int.Bytes\<close>: the shortest such string, empty for 0.\<close>

fun big_Bytes :: "nat \<Rightarrow> bytes" where
  "big_Bytes n = (if n = 0 then [] else big_Bytes (n div 256) @ [of_nat (n mod 256)])"

declare big_Bytes.simps [simp del]

text \<open>\<^verbatim>\<open>big.Int.Int64\<close> keeps the low 64 bits.\<close>

definition Int64 :: "nat \<Rightarrow> 64 word" where
  "Int64 n = of_nat n"

lemma SetBytes_snoc [simp]: "SetBytes (bs @ [b]) = 256 * SetBytes bs + unat b"
  by (simp add: SetBytes_def)

lemma SetBytes_Bytes: "SetBytes (big_Bytes n) = n"
proof (induction n rule: big_Bytes.induct)
  case (1 n)
  show ?case
  proof (cases "n = 0")
    case False
    have "unat (of_nat (n mod 256) :: 8 word) = n mod 256"
      by (simp add: unsigned_of_nat take_bit_nat_def)
    with 1 False show ?thesis by (simp add: big_Bytes.simps [of n])
  qed (simp add: big_Bytes.simps SetBytes_def)
qed

lemma big_Bytes_inject: "big_Bytes m = big_Bytes n \<longleftrightarrow> m = n"
  by (metis SetBytes_Bytes)

section \<open>Keys\<close>

record rsa_key =
  KeyN :: nat
  KeyE :: "64 word"
  KeyD :: nat
  KeyPrimes :: "nat list"
  KeyDp :: nat
  KeyDq :: nat
  KeyQinv :: nat

text \<open>
  \<^verbatim>\<open>NewRSAParameters\<close> of the key \<^verbatim>\<open>rsa.GenerateKey\<close> gave. The exponent is an \<^verbatim>\<open>int\<close>; \<^verbatim>\<open>Bytes\<close> is of
  its absolute value.
\<close>

definition NewRSAParameters :: "goerr + rsa_key \<Rightarrow> RSAParameters res" where
  "NewRSAParameters gen = (case gen of
       Inl e \<Rightarrow> Err e
     | Inr key \<Rightarrow> (case KeyPrimes key of
           p # q # _ \<Rightarrow> Ok \<lparr>RsaD = Some (big_Bytes (KeyD key)), RsaDP = Some (big_Bytes (KeyDp key)),
             RsaDQ = Some (big_Bytes (KeyDq key)), RsaExponent = Some (big_Bytes (nat \<bar>sint (KeyE key)\<bar>)),
             RsaInverseQ = Some (big_Bytes (KeyQinv key)), RsaModulus = Some (big_Bytes (KeyN key)),
             RsaP = Some (big_Bytes p), RsaQ = Some (big_Bytes q)\<rparr>
         | _ \<Rightarrow> Panic ''index out of range''))"

definition ToRSAPrivateKey :: "RSAParameters \<Rightarrow> rsa_key res" where
  "ToRSAPrivateKey p =
     bindRes (nonNil ''.D'' (RsaD p)) (\<lambda>d.
     bindRes (nonNil ''.DP'' (RsaDP p)) (\<lambda>dp.
     bindRes (nonNil ''.DQ'' (RsaDQ p)) (\<lambda>dq.
     bindRes (nonNil ''.Exponent'' (RsaExponent p)) (\<lambda>e.
     bindRes (nonNil ''.InverseQ'' (RsaInverseQ p)) (\<lambda>iq.
     bindRes (nonNil ''.Modulus'' (RsaModulus p)) (\<lambda>n.
     bindRes (nonNil ''.P'' (RsaP p)) (\<lambda>pp.
     bindRes (nonNil ''.Q'' (RsaQ p)) (\<lambda>q.
       Ok \<lparr>KeyN = SetBytes n, KeyE = Int64 (SetBytes e), KeyD = SetBytes d,
            KeyPrimes = [SetBytes pp, SetBytes q], KeyDp = SetBytes dp, KeyDq = SetBytes dq,
            KeyQinv = SetBytes iq\<rparr>))))))))"

section \<open>Properties\<close>

text \<open>
  A key survives its trip through the dot files: the parameters built from a key with two primes
  and a positive exponent convert back to that key, whatever its numbers are.
\<close>

theorem rsa_parameters_roundtrip:
  assumes "length (KeyPrimes key) = 2" and "0 \<le> sint (KeyE key)"
  shows "\<exists>p. NewRSAParameters (Inr key) = Ok p \<and> ToRSAPrivateKey p = Ok key"
proof -
  obtain p q where pq: "KeyPrimes key = [p, q]"
    using assms(1) by (metis (no_types, opaque_lifting) Suc_length_conv length_0_conv numeral_2_eq_2)
  have "Int64 (nat \<bar>sint (KeyE key)\<bar>) = KeyE key"
    using assms(2) by (simp add: Int64_def)
  then show ?thesis
    by (simp add: NewRSAParameters_def pq ToRSAPrivateKey_def SetBytes_Bytes)
qed

definition demo_key :: rsa_key where
  "demo_key = \<lparr>KeyN = 3233, KeyE = 17, KeyD = 2753, KeyPrimes = [61, 53], KeyDp = 53, KeyDq = 49, KeyQinv = 38\<rparr>"

theorem rsa_parameters_roundtrip_witness:
  "\<exists>p. NewRSAParameters (Inr demo_key) = Ok p \<and> ToRSAPrivateKey p = Ok demo_key"
  by (rule rsa_parameters_roundtrip) (simp_all add: demo_key_def)

end
