(* ===== verification/Wire_Util.thy ===== *)
theory Wire_Util
  imports Policy_Validator Dot_Files
begin

text \<open>
  What a wire is built on: OAuth errors (\<^verbatim>\<open>util/oauth2.go\<close>) and which errors make a wire
  unrecoverable (\<^verbatim>\<open>wire/errors.go\<close>), the endpoints of a job request (\<^verbatim>\<open>util/ado.go\<close>), properties
  (\<^verbatim>\<open>util/properties.go\<close>), and the messages (\<^verbatim>\<open>wire/message.go\<close>, \<^verbatim>\<open>pajr.go\<close>, \<^verbatim>\<open>jet.go\<close>, \<^verbatim>\<open>trt.go\<close>).
  HTTP, JWT parsing and JSON decoding are parameters.
\<close>

section \<open>OAuth\<close>

definition ErrOAuth2InvalidRequest :: goerr where "ErrOAuth2InvalidRequest = Sentinel ''invalid_request''"

definition ErrOAuth2InvalidClient :: goerr where "ErrOAuth2InvalidClient = Sentinel ''invalid_client''"

definition ErrOAuth2InvalidGrant :: goerr where "ErrOAuth2InvalidGrant = Sentinel ''invalid_grant''"

definition ErrOAuth2UnauthorizedClient :: goerr where "ErrOAuth2UnauthorizedClient = Sentinel ''unauthorized_client''"

definition ErrOAuth2UnsupportedGrantType :: goerr where
  "ErrOAuth2UnsupportedGrantType = Sentinel ''unsupported_grant_type''"

definition ErrOAuth2InvalidScope :: goerr where "ErrOAuth2InvalidScope = Sentinel ''invalid_scope''"

lemmas oauth_errors =
  ErrOAuth2InvalidRequest_def ErrOAuth2InvalidClient_def ErrOAuth2InvalidGrant_def
  ErrOAuth2UnauthorizedClient_def ErrOAuth2UnsupportedGrantType_def ErrOAuth2InvalidScope_def

record oauth_response =
  AccessTokenField :: string
  ErrorField :: string
  ErrorDescription :: string

definition responseError :: "oauth_response \<Rightarrow> goerr option" where
  "responseError er =
     (let err = ErrorField er in
      if err = '''' then None
      else if err = ''invalid_request'' then Some ErrOAuth2InvalidRequest
      else if err = ''invalid_client'' then Some ErrOAuth2InvalidClient
      else if err = ''invalid_grant'' then Some ErrOAuth2InvalidGrant
      else if err = ''unauthorized_client'' then Some ErrOAuth2UnauthorizedClient
      else if err = ''unsupported_grant_type'' then Some ErrOAuth2UnsupportedGrantType
      else if err = ''invalid_scope'' then Some ErrOAuth2InvalidScope
      else Some (ErrorString err))"

definition wrapErr :: "oauth_response \<Rightarrow> goerr option" where
  "wrapErr res = (case responseError res of
       None \<Rightarrow> None
     | Some err \<Rightarrow> if ErrorDescription res \<noteq> '''' then Some (WrapError (ErrorDescription res) err) else Some err)"

text \<open>The form of the token request, as key and value pairs.\<close>

definition tokenForm :: "string \<Rightarrow> (string \<times> string) list" where
  "tokenForm clientAssertion =
     [(''grant_type'', ''client_credentials''),
      (''client_assertion_type'', ''urn:ietf:params:oauth:client-assertion-type:jwt-bearer''),
      (''client_assertion'', clientAssertion)]"

definition AccessToken ::
    "(string \<Rightarrow> (string \<times> string) list \<Rightarrow> 'w \<Rightarrow> (goerr + oauth_response) \<times> 'w) \<Rightarrow> string \<Rightarrow> string \<Rightarrow> ('w, string) go" where
  "AccessToken post tokenEndpoint clientAssertion =
     andThen (external (post tokenEndpoint (tokenForm clientAssertion))) (\<lambda>res.
     case wrapErr res of Some e \<Rightarrow> fail e | None \<Rightarrow> ret (AccessTokenField res))"

section \<open>Unrecoverable errors\<close>

definition isErrOAuth2InvalidClient :: "goerr \<Rightarrow> bool" where
  "isErrOAuth2InvalidClient err = errors_Is err ErrOAuth2InvalidClient"

definition isTaskAgentNotFoundException :: "goerr \<Rightarrow> bool" where
  "isTaskAgentNotFoundException err = (case err of
       WrappedError typeKey \<Rightarrow> typeKey = Some ''TaskAgentNotFoundException''
     | _ \<Rightarrow> False)"

definition IsUnrecoverable :: "goerr \<Rightarrow> bool" where
  "IsUnrecoverable err \<longleftrightarrow> isErrOAuth2InvalidClient err \<or> isTaskAgentNotFoundException err"

section \<open>Endpoints and properties\<close>

record authorization =
  AuthScheme :: "string option"
  AuthParameters :: "(string \<rightharpoonup> string) option"

record ServiceEndpoint =
  SeName :: "string option"
  SeUrl :: "string option"
  SeAuthorization :: "authorization option"

definition GetSystemVssConnectionEndpoint :: "ServiceEndpoint list \<Rightarrow> ServiceEndpoint res" where
  "GetSystemVssConnectionEndpoint ses =
     nonNil ''serviceEndpoint'' (find (\<lambda>se. SeName se = Some ''SystemVssConnection'') ses)"

definition GetServiceEndpointURL :: "ServiceEndpoint option \<Rightarrow> string res" where
  "GetServiceEndpointURL se =
     bindRes (nonNil ''serviceEndpoint'' se) (\<lambda>s. nonNil ''url'' (SeUrl s))"

definition GetServiceEndpointAccessToken :: "ServiceEndpoint option \<Rightarrow> string res" where
  "GetServiceEndpointAccessToken se =
     bindRes (nonNil ''serviceEndpoint'' se) (\<lambda>s.
     bindRes (nonNil ''authorization'' (SeAuthorization s)) (\<lambda>a.
     bindRes (nonNil ''scheme'' (AuthScheme a)) (\<lambda>scheme.
     if scheme \<noteq> ''OAuth'' then Err (ErrorString (''scheme != '' @ quoted ''OAuth''))
     else bindRes (nonNil ''parameters'' (AuthParameters a)) (\<lambda>ps.
          nonNil (''parameters['' @ quoted ''AccessToken'' @ '']'') (ps ''AccessToken'')))))"

text \<open>
  Claims of a token, from the JWT library without verification: \<open>JStr\<close> claims are strings.
\<close>

definition GetOrchestrationId :: "(string \<Rightarrow> goerr + (string \<rightharpoonup> json)) \<Rightarrow> ServiceEndpoint list \<Rightarrow> string res" where
  "GetOrchestrationId claimsOf ses =
     bindRes (GetSystemVssConnectionEndpoint ses) (\<lambda>se.
     bindRes (GetServiceEndpointAccessToken (Some se)) (\<lambda>tok.
     bindRes (fromSum (claimsOf tok)) (\<lambda>claims.
     bindRes (nonNil (''claims['' @ quoted ''orchid'' @ '']'') (claims ''orchid'')) (\<lambda>orchid. case orchid of
         JStr s \<Rightarrow> Ok s
       | _ \<Rightarrow> Err (ErrorString ''orchid.(string) == nil'')))))"

definition GetPropertyValue :: "json \<Rightarrow> string \<Rightarrow> json option" where
  "GetPropertyValue properties key = (case properties of
       JObj ms \<Rightarrow> (case map_of (rev ms) key of
           Some (JObj p) \<Rightarrow> map_of (rev p) ''$value''
         | _ \<Rightarrow> None)
     | _ \<Rightarrow> None)"

section \<open>Messages\<close>

record TaskAgentMessage =
  TaMessageId :: "64 word option"
  TaMessageType :: "string option"
  TaBody :: "string option"
  TaIv :: "bytes option"

record Message =
  MsgId :: "64 word"
  MsgTypeOf :: string
  MsgBody :: string

text \<open>The body is dereferenced without a check.\<close>

definition toMessage :: "TaskAgentMessage \<Rightarrow> Message res" where
  "toMessage ta =
     bindRes (nonNil ''taMessage.MessageId'' (TaMessageId ta)) (\<lambda>mid.
     bindRes (nonNil ''taMessage.MessageType'' (TaMessageType ta)) (\<lambda>ty.
     case TaBody ta of None \<Rightarrow> Panic ''nil pointer dereference''
     | Some b \<Rightarrow> Ok \<lparr>MsgId = mid, MsgTypeOf = ty, MsgBody = b\<rparr>))"

definition MessageTypePipelineAgentJobRequest :: string where
  "MessageTypePipelineAgentJobRequest = ''PipelineAgentJobRequest''"

definition MessageTypeAgentRefresh :: string where
  "MessageTypeAgentRefresh = ''AgentRefresh''"

datatype JobEventType = JobAssigned | JobCompleted | JobStarted

definition jetString :: "JobEventType \<Rightarrow> string" where
  "jetString jet = (case jet of JobAssigned \<Rightarrow> ''JobAssigned'' | JobCompleted \<Rightarrow> ''JobCompleted'' | JobStarted \<Rightarrow> ''JobStarted'')"

datatype TimelineRecordType = JobTimelineRecordType | TaskTimelineRecordType

definition trtString :: "TimelineRecordType \<Rightarrow> string" where
  "trtString trt = (case trt of JobTimelineRecordType \<Rightarrow> ''Job'' | TaskTimelineRecordType \<Rightarrow> ''Task'')"

text \<open>What the operator reports of a job: the records and the event of the libraries, as far as it fills them.\<close>

record TimelineRecord =
  TrType :: string
  TrId :: "string option"
  TrRefName :: "string option"
  TrName :: "string option"
  TrState :: string
  TrResult :: string
  TrWorkerName :: string
  TrIssues :: "(string \<times> string) list"
  TrErrorCount :: nat
  TrWarningCount :: nat

record JobEvent =
  JeName :: string
  JeJobId :: "string option"
  JeRequestId :: "64 word option"
  JeResult :: string

text \<open>The fields of a job request the operator reads; the rest is passed by.\<close>

record TaskPlan =
  ScopeIdentifier :: "string option"
  PlanType :: "string option"
  PlanId :: "string option"

record TimelineReference =
  TimelineId :: "string option"

record PipelineAgentJobRequest =
  Plan :: "TaskPlan option"
  Timeline :: "TimelineReference option"
  JobId :: "string option"
  JobDisplayName :: "string option"
  JobName :: "string option"
  RequestId :: "64 word option"
  ReqEndpoints :: "ServiceEndpoint list option option"
  ContextData :: "(string \<times> PipelineContextData) list option"

definition toPipelineAgentJobRequest ::
    "(string \<Rightarrow> goerr + PipelineAgentJobRequest) \<Rightarrow> Message option \<Rightarrow> PipelineAgentJobRequest res" where
  "toPipelineAgentJobRequest decode message =
     bindRes (nonNil ''message'' message) (\<lambda>m. fromSum (decode (MsgBody m)))"

section \<open>Properties\<close>

lemma errors_Is_WrapError_Sentinel [simp]:
  "errors_Is (WrapError m e) (Sentinel t) = errors_Is e (Sentinel t)"
  by simp

text \<open>
  A failed token request is unrecoverable exactly when the server answers \<^verbatim>\<open>invalid_client\<close>, with
  or without a description; any other answer with an error leaves the registration alone, and an
  answer without one yields its token.
\<close>

theorem access_token_unrecoverable_iff:
  assumes "post endpoint (tokenForm assertion) w = (Inr res, w')"
  shows "(ErrorField res = '''' \<longrightarrow> AccessToken post endpoint assertion w = (Ok (AccessTokenField res), w')) \<and>
     (ErrorField res \<noteq> '''' \<longrightarrow> (\<exists>e. AccessToken post endpoint assertion w = (Err e, w') \<and>
        (IsUnrecoverable e \<longleftrightarrow> ErrorField res = ''invalid_client'')))"
proof -
  have run: "AccessToken post endpoint assertion w =
      (case wrapErr res of Some e \<Rightarrow> (Err e, w') | None \<Rightarrow> (Ok (AccessTokenField res), w'))"
    using assms by (simp add: AccessToken_def andThen_def external_def fail_def ret_def split: option.splits)
  have base: "\<exists>e. responseError res = Some e \<and> (\<forall>m. e \<noteq> WrappedError m) \<and>
      (errors_Is e ErrOAuth2InvalidClient \<longleftrightarrow> ErrorField res = ''invalid_client'')" if "ErrorField res \<noteq> ''''"
    using that by (auto simp: responseError_def oauth_errors Let_def)
  have "\<exists>e. wrapErr res = Some e \<and> (IsUnrecoverable e \<longleftrightarrow> ErrorField res = ''invalid_client'')" if ne: "ErrorField res \<noteq> ''''"
  proof -
    obtain e where e: "responseError res = Some e" "\<forall>m. e \<noteq> WrappedError m"
        "errors_Is e ErrOAuth2InvalidClient \<longleftrightarrow> ErrorField res = ''invalid_client''"
      using base [OF ne] by blast
    have "\<not> isTaskAgentNotFoundException e"
      using e(2) by (cases e) (auto simp: isTaskAgentNotFoundException_def)
    then show ?thesis
      using e(1,3) by (simp add: wrapErr_def IsUnrecoverable_def isErrOAuth2InvalidClient_def
          isTaskAgentNotFoundException_def oauth_errors)
  qed
  then show ?thesis
    using run by (auto simp: wrapErr_def responseError_def)
qed

theorem access_token_unrecoverable_iff_witness:
  "\<exists>e. AccessToken (\<lambda>ep form w. (Inr \<lparr>AccessTokenField = '''', ErrorField = ''invalid_client'', ErrorDescription = ''gone''\<rparr>, w)) ''https://t'' ''a'' ()
     = (Err e, ()) \<and> IsUnrecoverable e"
  using access_token_unrecoverable_iff [of "\<lambda>ep form w. (Inr \<lparr>AccessTokenField = '''', ErrorField = ''invalid_client'', ErrorDescription = ''gone''\<rparr>, w)" "''https://t''" "''a''" "()"]
  by simp

end
