(* ===== verification/Metrics.thy ===== *)
theory Metrics
  imports Prelude
begin

text \<open>
  The collectors of the operator (\<^verbatim>\<open>operator/metrics/metrics.go\<close>): their options, their registration and the
  functions the controllers report with. The Prometheus client is a parameter that acts on a world, in
  which a call panics by having no next world; \<open>prom_law\<close> states what it documents. A value is the integer whose
  \<^verbatim>\<open>float64\<close> the code passes, and a time is in the unit of the client's clock.
\<close>

section \<open>Collectors\<close>

datatype collector_kind = GaugeVec | CounterVec

record collector =
  VecKind :: collector_kind
  VecNamespace :: string
  Subsystem :: string
  CollectorName :: string
  Help :: string
  LabelNames :: "string list"

definition githubRateLimitCollector :: collector where
  "githubRateLimitCollector = \<lparr>VecKind = GaugeVec, VecNamespace = ''kubeactions'', Subsystem = ''github'', CollectorName = ''rate_limit'',
     Help = ''Current GitHub Rate Limit.'', LabelNames = [''client'']\<rparr>"

definition githubRateRemainingCollector :: collector where
  "githubRateRemainingCollector = \<lparr>VecKind = GaugeVec, VecNamespace = ''kubeactions'', Subsystem = ''github'', CollectorName = ''rate_remaining'',
     Help = ''Current GitHub Rate Remaining.'', LabelNames = [''client'']\<rparr>"

definition githubAPICallsCollector :: collector where
  "githubAPICallsCollector = \<lparr>VecKind = CounterVec, VecNamespace = ''kubeactions'', Subsystem = ''github'', CollectorName = ''api_calls'',
     Help = ''Number of GitHub API Calls.'', LabelNames = [''client'', ''request'', ''response'']\<rparr>"

definition githubCacheHitCollector :: collector where
  "githubCacheHitCollector = \<lparr>VecKind = CounterVec, VecNamespace = ''kubeactions'', Subsystem = ''github'', CollectorName = ''cache_hit'',
     Help = ''GitHub Cache Hits.'', LabelNames = [''cache'', ''hit'']\<rparr>"

definition githubActionsEventCounter :: collector where
  "githubActionsEventCounter = \<lparr>VecKind = CounterVec, VecNamespace = ''kubeactions'', Subsystem = ''actions'', CollectorName = ''events'',
     Help = '''', LabelNames = [''repository'', ''runner'', ''event'']\<rparr>"

definition githubActionsJobAliveGauge :: collector where
  "githubActionsJobAliveGauge = \<lparr>VecKind = GaugeVec, VecNamespace = ''kubeactions'', Subsystem = ''actions'', CollectorName = ''job_alive'',
     Help = '''', LabelNames = [''repository'', ''runner_job'']\<rparr>"

definition githubActionsJobStartedTimestampGauge :: collector where
  "githubActionsJobStartedTimestampGauge = \<lparr>VecKind = GaugeVec, VecNamespace = ''kubeactions'', Subsystem = ''actions'', CollectorName = ''job_started_timestamp_seconds'',
     Help = '''', LabelNames = [''repository'', ''runner_job'']\<rparr>"

definition githubActionsJobFinishedTimestampGauge :: collector where
  "githubActionsJobFinishedTimestampGauge = \<lparr>VecKind = GaugeVec, VecNamespace = ''kubeactions'', Subsystem = ''actions'', CollectorName = ''job_finished_timestamp_seconds'',
     Help = '''', LabelNames = [''repository'', ''runner_job'']\<rparr>"

section \<open>The client library\<close>

text \<open>\<open>WithLabelValues\<close> followed by the call on the child it returns, and \<open>MustRegister\<close>.\<close>

record 'x prom =
  mustRegister :: "collector list \<Rightarrow> 'x \<Rightarrow> 'x option"
  gaugeSet :: "collector \<Rightarrow> string list \<Rightarrow> int \<Rightarrow> 'x \<Rightarrow> 'x option"
  gaugeSetToCurrentTime :: "collector \<Rightarrow> string list \<Rightarrow> 'x \<Rightarrow> 'x option"
  counterInc :: "collector \<Rightarrow> string list \<Rightarrow> 'x \<Rightarrow> 'x option"

definition metricsInit :: "'x prom \<Rightarrow> 'x \<Rightarrow> 'x option" where
  "metricsInit p = mustRegister p [githubRateLimitCollector, githubRateRemainingCollector, githubAPICallsCollector,
     githubCacheHitCollector, githubActionsEventCounter, githubActionsJobAliveGauge, githubActionsJobStartedTimestampGauge,
     githubActionsJobFinishedTimestampGauge]"

definition reporting :: "('x \<Rightarrow> 'x option) \<Rightarrow> ('x, unit) go" where
  "reporting f x = (case f x of None \<Rightarrow> (Panic ''inconsistent label cardinality'', x) | Some y \<Rightarrow> (Ok (), y))"

section \<open>Observers\<close>

record 'x observer =
  obStart :: int
  obObserve :: "int \<Rightarrow> 'x \<Rightarrow> 'x"

definition newObserver :: "int \<Rightarrow> (int \<Rightarrow> 'x \<Rightarrow> 'x) \<Rightarrow> 'x observer" where
  "newObserver now f = \<lparr>obStart = now, obObserve = f\<rparr>"

definition ObserveDeffered :: "int \<Rightarrow> 'x observer \<Rightarrow> 'x \<Rightarrow> 'x" where
  "ObserveDeffered now ob = obObserve ob (now - obStart ob)"

section \<open>Reports\<close>

definition SetGitHubRateLimitCollector :: "'x prom \<Rightarrow> string \<Rightarrow> int \<Rightarrow> 'x \<Rightarrow> 'x option" where
  "SetGitHubRateLimitCollector p clientName limit = gaugeSet p githubRateLimitCollector [clientName] limit"

definition SetGitHubRateRemainingCollector :: "'x prom \<Rightarrow> string \<Rightarrow> int \<Rightarrow> 'x \<Rightarrow> 'x option" where
  "SetGitHubRateRemainingCollector p clientName left = gaugeSet p githubRateRemainingCollector [clientName] left"

definition IncGitHubAPICallsCollector :: "'x prom \<Rightarrow> string \<Rightarrow> string \<Rightarrow> string \<Rightarrow> 'x \<Rightarrow> 'x option" where
  "IncGitHubAPICallsCollector p clientName request response = counterInc p githubAPICallsCollector [clientName, request, response]"

definition FormatBool :: "bool \<Rightarrow> string" where
  "FormatBool b = (if b then ''true'' else ''false'')"

definition IncGitHubCacheHitCollector :: "'x prom \<Rightarrow> string \<Rightarrow> bool \<Rightarrow> 'x \<Rightarrow> 'x option" where
  "IncGitHubCacheHitCollector p cacheName hit = counterInc p githubCacheHitCollector [cacheName, FormatBool hit]"

definition IncGitHubActionsEventCounter :: "'x prom \<Rightarrow> string \<Rightarrow> string \<Rightarrow> string \<Rightarrow> 'x \<Rightarrow> 'x option" where
  "IncGitHubActionsEventCounter p repository runner event = counterInc p githubActionsEventCounter [repository, runner, event]"

definition SetGitHubActionsJobAlive :: "'x prom \<Rightarrow> string \<Rightarrow> string \<Rightarrow> 'x \<Rightarrow> 'x option" where
  "SetGitHubActionsJobAlive p repository job x =
     Option.bind (gaugeSet p githubActionsJobAliveGauge [repository, job] 1 x)
       (gaugeSetToCurrentTime p githubActionsJobStartedTimestampGauge [repository, job])"

definition SetGitHubActionsJobDone :: "'x prom \<Rightarrow> string \<Rightarrow> string \<Rightarrow> 'x \<Rightarrow> 'x option" where
  "SetGitHubActionsJobDone p repository job x =
     Option.bind (gaugeSet p githubActionsJobAliveGauge [repository, job] 0 x)
       (gaugeSetToCurrentTime p githubActionsJobFinishedTimestampGauge [repository, job])"

lemmas report_defs = SetGitHubRateLimitCollector_def SetGitHubRateRemainingCollector_def IncGitHubAPICallsCollector_def
  IncGitHubCacheHitCollector_def IncGitHubActionsEventCounter_def SetGitHubActionsJobAlive_def SetGitHubActionsJobDone_def

lemmas collector_defs = githubRateLimitCollector_def githubRateRemainingCollector_def githubAPICallsCollector_def
  githubCacheHitCollector_def githubActionsEventCounter_def githubActionsJobAliveGauge_def githubActionsJobStartedTimestampGauge_def
  githubActionsJobFinishedTimestampGauge_def

text \<open>A view of the world that no report changes.\<close>

definition unmetered :: "'x prom \<Rightarrow> ('x \<Rightarrow> 'a) \<Rightarrow> bool" where
  "unmetered p f \<longleftrightarrow> (\<forall>c ls v x y. gaugeSet p c ls v x = Some y \<longrightarrow> f y = f x) \<and>
     (\<forall>c ls x y. gaugeSetToCurrentTime p c ls x = Some y \<longrightarrow> f y = f x) \<and> (\<forall>c ls x y. counterInc p c ls x = Some y \<longrightarrow> f y = f x)"

lemma unmetered_reports:
  assumes "unmetered p f"
  shows "SetGitHubRateLimitCollector p n v x = Some y \<Longrightarrow> f y = f x" "SetGitHubRateRemainingCollector p n v x = Some y \<Longrightarrow> f y = f x"
    "IncGitHubAPICallsCollector p n q r x = Some y \<Longrightarrow> f y = f x" "IncGitHubCacheHitCollector p n h x = Some y \<Longrightarrow> f y = f x"
    "IncGitHubActionsEventCounter p n q r x = Some y \<Longrightarrow> f y = f x"
    "SetGitHubActionsJobAlive p n j x = Some y \<Longrightarrow> f y = f x" "SetGitHubActionsJobDone p n j x = Some y \<Longrightarrow> f y = f x"
  using assms by (auto simp: report_defs unmetered_def bind_eq_Some_conv)

lemma keeps_reporting: "(\<And>x y. f x = Some y \<Longrightarrow> g y = g x) \<Longrightarrow> keeps g (reporting f)"
  by (rule keepsI) (simp add: reporting_def split: option.splits)

section \<open>What the client documents\<close>

text \<open>
  \<open>val\<close> reads the series. Collectors of different names register together; a child is found when there is a value for
  every label, and the call changes its series and no other.
\<close>

definition prom_law :: "'x prom \<Rightarrow> ('x \<Rightarrow> collector \<times> string list \<rightharpoonup> int) \<Rightarrow> ('x \<Rightarrow> int) \<Rightarrow> bool" where
  "prom_law p val now \<longleftrightarrow>
     (\<forall>c ls v x. length ls = length (LabelNames c) \<longrightarrow> (\<exists>y. gaugeSet p c ls v x = Some y \<and> val y = (val x)((c, ls) \<mapsto> v) \<and> now x \<le> now y)) \<and>
     (\<forall>c ls x. length ls = length (LabelNames c) \<longrightarrow> (\<exists>y. gaugeSetToCurrentTime p c ls x = Some y \<and>
        (\<exists>t. val y = (val x)((c, ls) \<mapsto> t) \<and> now x \<le> t \<and> t \<le> now y))) \<and>
     (\<forall>c ls x. length ls = length (LabelNames c) \<longrightarrow> (\<exists>y. counterInc p c ls x = Some y \<and>
        val y = (val x)((c, ls) \<mapsto> 1 + (case val x (c, ls) of None \<Rightarrow> 0 | Some n \<Rightarrow> n)) \<and> now x \<le> now y))"

lemma prom_lawD:
  assumes "prom_law p val now" and "length ls = length (LabelNames c)"
  shows "\<exists>y. gaugeSet p c ls v x = Some y \<and> val y = (val x)((c, ls) \<mapsto> v) \<and> now x \<le> now y"
    and "\<exists>y t. gaugeSetToCurrentTime p c ls x = Some y \<and> val y = (val x)((c, ls) \<mapsto> t) \<and> now x \<le> t \<and> t \<le> now y"
    and "\<exists>y. counterInc p c ls x = Some y \<and> val y = (val x)((c, ls) \<mapsto> 1 + (case val x (c, ls) of None \<Rightarrow> 0 | Some n \<Rightarrow> n)) \<and> now x \<le> now y"
  using assms unfolding prom_law_def by blast+

text \<open>Collectors whose full names differ, from each other and from the registered ones, are registered.\<close>

definition fqName :: "collector \<Rightarrow> string" where
  "fqName c = VecNamespace c @ ''_'' @ Subsystem c @ ''_'' @ CollectorName c"

definition register_law :: "'x prom \<Rightarrow> ('x \<Rightarrow> string set) \<Rightarrow> bool" where
  "register_law p names \<longleftrightarrow> (\<forall>cs x. distinct (map fqName cs) \<and> fqName ` set cs \<inter> names x = {} \<longrightarrow>
     (\<exists>y. mustRegister p cs x = Some y \<and> names y = names x \<union> fqName ` set cs))"

lemma metrics_registered:
  assumes "register_law p names" and "\<forall>n\<in>names x. take 12 n \<noteq> ''kubeactions_''"
  shows "\<exists>y. metricsInit p x = Some y \<and> card (names y - names x) = 8"
proof -
  let ?cs = "[githubRateLimitCollector, githubRateRemainingCollector, githubAPICallsCollector,
     githubCacheHitCollector, githubActionsEventCounter, githubActionsJobAliveGauge, githubActionsJobStartedTimestampGauge,
     githubActionsJobFinishedTimestampGauge]"
  have d: "distinct (map fqName ?cs)" by (simp add: collector_defs fqName_def)
  have "take 12 n = ''kubeactions_''" if "n \<in> fqName ` set ?cs" for n
    using that by (auto simp: collector_defs fqName_def)
  then have i: "fqName ` set ?cs \<inter> names x = {}" using assms(2) by blast
  then obtain y where y: "mustRegister p ?cs x = Some y" "names y = names x \<union> fqName ` set ?cs"
    using assms(1) d unfolding register_law_def by blast
  have "names y - names x = fqName ` set ?cs" using y(2) i by blast
  also have "card (fqName ` set ?cs) = 8" using distinct_card [OF d] by simp
  finally show ?thesis using y(1) by (simp add: metricsInit_def)
qed

text \<open>The gauges of a job after it is reported alive and done.\<close>

definition job_series :: "('x \<Rightarrow> collector \<times> string list \<rightharpoonup> int) \<Rightarrow> string \<Rightarrow> string \<Rightarrow> 'x \<Rightarrow> int option \<times> int option \<times> int option" where
  "job_series val repository job x = (val x (githubActionsJobAliveGauge, [repository, job]),
     val x (githubActionsJobStartedTimestampGauge, [repository, job]), val x (githubActionsJobFinishedTimestampGauge, [repository, job]))"

lemma gauges_differ [simp]:
  "githubActionsJobAliveGauge \<noteq> githubActionsJobStartedTimestampGauge" "githubActionsJobStartedTimestampGauge \<noteq> githubActionsJobAliveGauge"
  "githubActionsJobAliveGauge \<noteq> githubActionsJobFinishedTimestampGauge" "githubActionsJobFinishedTimestampGauge \<noteq> githubActionsJobAliveGauge"
  "githubActionsJobStartedTimestampGauge \<noteq> githubActionsJobFinishedTimestampGauge"
  "githubActionsJobFinishedTimestampGauge \<noteq> githubActionsJobStartedTimestampGauge"
  by (simp_all add: collector_defs)

lemma labels_of_job [simp]:
  "length (LabelNames githubActionsJobAliveGauge) = 2" "length (LabelNames githubActionsJobStartedTimestampGauge) = 2"
  "length (LabelNames githubActionsJobFinishedTimestampGauge) = 2"
  by (simp_all add: collector_defs)

lemma job_alive_series:
  assumes "prom_law p val now"
  shows "\<exists>y t. SetGitHubActionsJobAlive p repository job x = Some y \<and> now x \<le> t \<and> t \<le> now y \<and>
     job_series val repository job y = (Some 1, Some t, snd (snd (job_series val repository job x)))"
proof -
  obtain z where z: "gaugeSet p githubActionsJobAliveGauge [repository, job] 1 x = Some z"
      "val z = (val x)((githubActionsJobAliveGauge, [repository, job]) \<mapsto> 1)" "now x \<le> now z"
    using prom_lawD(1) [OF assms, of "[repository, job]" githubActionsJobAliveGauge 1 x] by auto
  obtain y t where "gaugeSetToCurrentTime p githubActionsJobStartedTimestampGauge [repository, job] z = Some y"
      "val y = (val z)((githubActionsJobStartedTimestampGauge, [repository, job]) \<mapsto> t)" "now z \<le> t" "t \<le> now y"
    using prom_lawD(2) [OF assms, of "[repository, job]" githubActionsJobStartedTimestampGauge z] by auto
  with z show ?thesis by (intro exI [of _ y] exI [of _ t]) (simp add: SetGitHubActionsJobAlive_def job_series_def)
qed

lemma job_done_series:
  assumes "prom_law p val now"
  shows "\<exists>y t. SetGitHubActionsJobDone p repository job x = Some y \<and> now x \<le> t \<and> t \<le> now y \<and>
     job_series val repository job y = (Some 0, fst (snd (job_series val repository job x)), Some t)"
proof -
  obtain z where z: "gaugeSet p githubActionsJobAliveGauge [repository, job] 0 x = Some z"
      "val z = (val x)((githubActionsJobAliveGauge, [repository, job]) \<mapsto> 0)" "now x \<le> now z"
    using prom_lawD(1) [OF assms, of "[repository, job]" githubActionsJobAliveGauge 0 x] by auto
  obtain y t where "gaugeSetToCurrentTime p githubActionsJobFinishedTimestampGauge [repository, job] z = Some y"
      "val y = (val z)((githubActionsJobFinishedTimestampGauge, [repository, job]) \<mapsto> t)" "now z \<le> t" "t \<le> now y"
    using prom_lawD(2) [OF assms, of "[repository, job]" githubActionsJobFinishedTimestampGauge z] by auto
  with z show ?thesis by (intro exI [of _ y] exI [of _ t]) (simp add: SetGitHubActionsJobDone_def job_series_def)
qed

section \<open>A client to run on\<close>

text \<open>A client whose world is the series it keeps; its clock stands at 7.\<close>

definition demo_prom :: "(collector \<times> string list \<rightharpoonup> int) prom" where
  "demo_prom = \<lparr>mustRegister = (\<lambda>cs x. Some x), gaugeSet = (\<lambda>c ls v x. Some (x((c, ls) \<mapsto> v))),
     gaugeSetToCurrentTime = (\<lambda>c ls x. Some (x((c, ls) \<mapsto> 7))),
     counterInc = (\<lambda>c ls x. Some (x((c, ls) \<mapsto> 1 + (case x (c, ls) of None \<Rightarrow> 0 | Some n \<Rightarrow> n))))\<rparr>"

lemma demo_prom_law: "prom_law demo_prom (\<lambda>x. x) (\<lambda>x. 7)"
  by (auto simp: prom_law_def demo_prom_def)

end
