(* ===== verification/Github_Facade.thy ===== *)
theory Github_Facade
  imports Wire_Util Metrics
begin

text \<open>
  The GitHub facade (\<^verbatim>\<open>operator/internal/controller/actionsrunner/facades/gh.go\<close>): the shared client, the
  caches of repositories, tokens and tenant credentials, and the owner and visibility checks. The
  GitHub, OAuth and JOSE libraries, the clock and the world they act on are parameters; a cache keeps what was
  set last, and the library may have dropped it at any time (\<open>evicted\<close>). Times are nanoseconds, with 0 for
  the zero time.
\<close>

section \<open>Values\<close>

type_synonym RunnerEvent = string

definition RunnerEventRegister :: RunnerEvent where "RunnerEventRegister = ''register''"

definition RunnerEventRemove :: RunnerEvent where "RunnerEventRemove = ''remove''"

record GhRepository =
  RepoLogin :: string
  RepoNameOf :: string
  RepoPrivate :: bool
  RepoHTMLURL :: string
  RepoGitCommitsURL :: string

record GhToken =
  TokText :: string
  TokExpiresAt :: int

record tokenContainer =
  ConToken :: GhToken
  Rate :: "64 word"

record TenantCredential =
  CredToken :: string
  CredURL :: string

record oauth_token =
  TkAccess :: string
  TkType :: string
  TkExpiry :: int

record app_claims =
  ClIssuer :: string
  ClExpiry :: int
  ClIssuedAt :: int

definition minute :: int where "minute = 60 * 10 ^ 9"

definition expJWT :: int where "expJWT = 10 * minute"

text \<open>
  A reply of the GitHub library: the value or an error, and the response, which may be missing; a response
  has its request, as method and URL, or none.
\<close>

record GhResponse =
  RespCode :: nat
  RespStatus :: string
  RespRequest :: "(string \<times> string) option"

type_synonym 'a reply = "(goerr + 'a) \<times> GhResponse option"

record ('k, 'x) gh_api =
  timeNow :: "'x \<Rightarrow> int"
  ghProm :: "'x prom"
  evicted :: "string \<Rightarrow> string \<Rightarrow> 'x \<Rightarrow> bool"
  newClient :: "oauth_token \<Rightarrow> 'k"
  b64Decode :: "string \<Rightarrow> goerr + bytes"
  parsePKCS1 :: "bytes \<Rightarrow> goerr + rsa_key"
  signRS256 :: "rsa_key \<Rightarrow> app_claims \<Rightarrow> goerr + string"
  tokenExpiry :: "string \<Rightarrow> goerr + int"
  apiRateLimits :: "'k \<Rightarrow> 'x \<Rightarrow> (int \<times> int) option reply \<times> 'x"
  apiListInstallations :: "'k \<Rightarrow> 'x \<Rightarrow> int list reply \<times> 'x"
  apiCreateInstallationToken :: "'k \<Rightarrow> int \<Rightarrow> 'x \<Rightarrow> GhToken reply \<times> 'x"
  apiGetRepository :: "'k \<Rightarrow> string \<Rightarrow> string \<Rightarrow> 'x \<Rightarrow> GhRepository reply \<times> 'x"
  apiCreateRegistrationToken :: "'k \<Rightarrow> string \<Rightarrow> string \<Rightarrow> 'x \<Rightarrow> GhToken reply \<times> 'x"
  apiCreateRemoveToken :: "'k \<Rightarrow> string \<Rightarrow> string \<Rightarrow> 'x \<Rightarrow> GhToken reply \<times> 'x"
  apiCreateTenantCredential :: "'k \<Rightarrow> string \<Rightarrow> string \<Rightarrow> 'x \<Rightarrow> TenantCredential reply \<times> 'x"

text \<open>The package variables, and the world of the libraries.\<close>

record ('k, 'x) gh =
  githubClient :: "'k option"
  githubClientExpiry :: int
  githubRepositories :: "string \<rightharpoonup> GhRepository"
  githubRegistrationTokens :: "string \<rightharpoonup> tokenContainer"
  githubRemoveTokens :: "string \<rightharpoonup> tokenContainer"
  githubTenantCredentials :: "string \<rightharpoonup> TenantCredential"
  net :: 'x

section \<open>Configuration\<close>

record gh_env =
  githubPAT :: string
  githubAppId :: string
  githubAppPK :: string
  githubInstlId :: string
  envOwners :: string
  envVisibilities :: string

definition githubOwners :: "gh_env \<Rightarrow> string set" where
  "githubOwners env = set (split_on CHR '','' (envOwners env))"

definition repoPublic :: "8 word" where "repoPublic = 1"

definition repoPrivate :: "8 word" where "repoPrivate = 2"

definition addVisibility :: "string \<Rightarrow> 8 word \<Rightarrow> 8 word" where
  "addVisibility v allowed =
     (if v = ''pub'' \<or> v = ''public'' then or allowed repoPublic
      else if v = ''priv'' \<or> v = ''private'' then or allowed repoPrivate
      else allowed)"

definition githubVisibilities :: "gh_env \<Rightarrow> 8 word" where
  "githubVisibilities env = fold addVisibility (split_on CHR '','' (envVisibilities env)) 0"

text \<open>
  \<^verbatim>\<open>pem2base64\<close> deletes the matches of \<^verbatim>\<open>(-----.+?-----)|[\n ]\<close>: \<open>pemClose\<close> finds the shortest end of a
  header on its line, after at least one character.
\<close>

definition dashes :: string where "dashes = ''-----''"

fun pemClose :: "bool \<Rightarrow> string \<Rightarrow> string option" where
  "pemClose started [] = None"
| "pemClose started (c # cs) =
     (if started \<and> take 5 (c # cs) = dashes then Some (drop 5 (c # cs))
      else if c = CHR 0x0A then None
      else pemClose True cs)"

lemma pemClose_length: "pemClose b s = Some r \<Longrightarrow> length r \<le> length s"
  by (induction b s rule: pemClose.induct) (auto split: if_splits)

definition pemHeader :: "string \<Rightarrow> string option" where
  "pemHeader s = (if take 5 s = dashes then pemClose False (drop 5 s) else None)"

lemma pemHeader_length: "pemHeader s = Some r \<Longrightarrow> length r < length s"
  using pemClose_length [of False "drop 5 s" r] by (cases s) (auto simp: pemHeader_def dashes_def split: if_splits)

function pem2base64 :: "string \<Rightarrow> string" where
  "pem2base64 [] = []"
| "pem2base64 (c # cs) = (case pemHeader (c # cs) of
       Some rest \<Rightarrow> pem2base64 rest
     | None \<Rightarrow> if c = CHR 0x0A \<or> c = CHR '' '' then pem2base64 cs else c # pem2base64 cs)"
  by pat_completeness auto
termination
  by (relation "measure length") (use pemHeader_length in \<open>force+\<close>)

section \<open>Calls and their metrics\<close>

definition onNet :: "('x \<Rightarrow> 'a \<times> 'x) \<Rightarrow> (('k, 'x) gh, 'a) go" where
  "onNet f s = (case f (net s) of (r, x) \<Rightarrow> (Ok r, s\<lparr>net := x\<rparr>))"

definition statusOk :: "nat \<Rightarrow> bool" where
  "statusOk code \<longleftrightarrow> 200 \<le> code \<and> code < 300"

definition meter :: "('x \<Rightarrow> 'x option) \<Rightarrow> (('k, 'x) gh, unit) go" where
  "meter f = zoom net (\<lambda>x s. s\<lparr>net := x\<rparr>) (reporting f)"

definition responded :: "GhResponse option \<Rightarrow> GhResponse res" where
  "responded resp = (case resp of None \<Rightarrow> Panic ''nil pointer dereference'' | Some q \<Rightarrow> Ok q)"

definition collectGitHubRateLimitMetrics :: "('k, 'x) gh_api \<Rightarrow> 'k option \<Rightarrow> string \<Rightarrow> (('k, 'x) gh, unit) go" where
  "collectGitHubRateLimitMetrics api client clientName =
     andThen (lift_res (nonNil ''client'' client)) (\<lambda>c.
     andThen (onNet (apiRateLimits api c)) (\<lambda>(r, resp).
     andThen (lift_res (fromSum r)) (\<lambda>rateLimits.
     andThen (lift_res (responded resp)) (\<lambda>q.
     if \<not> statusOk (RespCode q) then fail (ErrorString (RespStatus q)) else
     andThen (lift_res (nonNil ''core'' rateLimits)) (\<lambda>core.
     andThen (meter (SetGitHubRateLimitCollector (ghProm api) clientName (fst core))) (\<lambda>_.
     meter (SetGitHubRateRemainingCollector (ghProm api) clientName (snd core))))))))"

definition tryCollectGitHubRateLimitMetrics :: "('k, 'x) gh_api \<Rightarrow> 'k option \<Rightarrow> string \<Rightarrow> (('k, 'x) gh, unit) go" where
  "tryCollectGitHubRateLimitMetrics api client clientName =
     attempt (collectGitHubRateLimitMetrics api client clientName) (\<lambda>_. ret ())"

definition collectGitHubAPICallMetrics :: "('k, 'x) gh_api \<Rightarrow> 'k option \<Rightarrow> string \<Rightarrow> GhResponse option \<Rightarrow> (('k, 'x) gh, unit) go" where
  "collectGitHubAPICallMetrics api client clientName response =
     andThen (tryCollectGitHubRateLimitMetrics api client clientName) (\<lambda>_.
     andThen (lift_res (nonNil ''response'' response)) (\<lambda>q.
     andThen (lift_res (nonNil ''request'' (RespRequest q))) (\<lambda>(verb, url).
     meter (IncGitHubAPICallsCollector (ghProm api) clientName (verb @ '' '' @ url) (RespStatus q)))))"

definition tryCollectGitHubAPICallMetrics :: "('k, 'x) gh_api \<Rightarrow> 'k option \<Rightarrow> string \<Rightarrow> GhResponse option \<Rightarrow> (('k, 'x) gh, unit) go" where
  "tryCollectGitHubAPICallMetrics api client clientName response =
     attempt (collectGitHubAPICallMetrics api client clientName response) (\<lambda>_. ret ())"

definition handleGitHubResponse :: "('k, 'x) gh_api \<Rightarrow> 'k option \<Rightarrow> string \<Rightarrow> 'a reply \<Rightarrow> (('k, 'x) gh, 'a) go" where
  "handleGitHubResponse api client clientName reply =
     andThen (tryCollectGitHubAPICallMetrics api client clientName (snd reply)) (\<lambda>_.
     andThen (lift_res (fromSum (fst reply))) (\<lambda>v.
     andThen (lift_res (responded (snd reply))) (\<lambda>q.
     if \<not> statusOk (RespCode q) then fail (ErrorString (''Error response from GitHub: '' @ RespStatus q)) else ret v)))"

definition cacheHit :: "('k, 'x) gh_api \<Rightarrow> string \<Rightarrow> bool \<Rightarrow> 'a \<Rightarrow> (('k, 'x) gh, 'a) go" where
  "cacheHit api cacheName hit v = andThen (meter (IncGitHubCacheHitCollector (ghProm api) cacheName hit)) (\<lambda>_. ret v)"

section \<open>The shared client\<close>

definition getGitHubAppToken :: "('k, 'x) gh_api \<Rightarrow> gh_env \<Rightarrow> (('k, 'x) gh, string) go" where
  "getGitHubAppToken api env =
     (if githubAppId env = '''' then fail (ErrorString (''githubAppId == '' @ quoted ''''))
      else if githubAppPK env = '''' then fail (ErrorString (''githubAppPK == '' @ quoted ''''))
      else andThen (lift_res (fromSum (b64Decode api (pem2base64 (githubAppPK env))))) (\<lambda>der.
           andThen (lift_res (fromSum (parsePKCS1 api der))) (\<lambda>privateKey.
           andThen ask (\<lambda>s. let now = timeNow api (net s) in
           lift_res (fromSum (signRS256 api privateKey
             \<lparr>ClIssuer = githubAppId env, ClExpiry = now + expJWT, ClIssuedAt = now\<rparr>))))))"

definition newGitHubAppClient :: "('k, 'x) gh_api \<Rightarrow> gh_env \<Rightarrow> (('k, 'x) gh, 'k) go" where
  "newGitHubAppClient api env =
     andThen (getGitHubAppToken api env) (\<lambda>token.
     ret (newClient api \<lparr>TkAccess = token, TkType = '''', TkExpiry = 0\<rparr>))"

definition getGitHubInstallationToken :: "('k, 'x) gh_api \<Rightarrow> gh_env \<Rightarrow> 'k option \<Rightarrow> (('k, 'x) gh, GhToken) go" where
  "getGitHubInstallationToken api env appClient =
     andThen (lift_res (nonNil ''appClient'' appClient)) (\<lambda>c.
     andThen (if githubInstlId env \<noteq> '''' then lift_res (ParseInt (githubInstlId env))
       else andThen (onNet (apiListInstallations api c)) (\<lambda>r.
            andThen (handleGitHubResponse api appClient ''app'' r) (\<lambda>installations. case installations of
                [i] \<Rightarrow> ret i
              | _ \<Rightarrow> fail (ErrorString ''len(installations) != 1'')))) (\<lambda>installationId.
     andThen (onNet (apiCreateInstallationToken api c installationId)) (handleGitHubResponse api appClient ''app'')))"

definition initGitHubClient :: "('k, 'x) gh_api \<Rightarrow> gh_env \<Rightarrow> (('k, 'x) gh, unit) go" where
  "initGitHubClient api env =
     andThen ask (\<lambda>s.
     if githubClient s \<noteq> None \<and> (githubClientExpiry s = 0 \<or> githubClientExpiry s > timeNow api (net s) + minute) then ret ()
     else
       andThen (if githubPAT env = ''''
         then andThen (newGitHubAppClient api env) (\<lambda>appClient.
              andThen (getGitHubInstallationToken api env (Some appClient)) (\<lambda>iat.
              ret \<lparr>TkAccess = TokText iat, TkType = '''', TkExpiry = TokExpiresAt iat\<rparr>))
         else ret \<lparr>TkAccess = githubPAT env, TkType = '''', TkExpiry = 0\<rparr>) (\<lambda>token.
       andThen (collectGitHubRateLimitMetrics api (Some (newClient api token)) '''') (\<lambda>_.
       upd (\<lambda>s. s\<lparr>githubClient := Some (newClient api token), githubClientExpiry := TkExpiry token\<rparr>))))"

section \<open>Repositories\<close>

definition cacheGet :: "('k, 'x) gh_api \<Rightarrow> string \<Rightarrow> (('k, 'x) gh \<Rightarrow> (string \<rightharpoonup> 'v)) \<Rightarrow> string \<Rightarrow> ('k, 'x) gh \<Rightarrow> 'v option" where
  "cacheGet api name cache key s = (if evicted api name key (net s) then None else cache s key)"

definition repositoryAllowed :: "gh_env \<Rightarrow> GhRepository \<Rightarrow> (('k, 'x) gh, unit) go" where
  "repositoryAllowed env repository =
     (if RepoLogin repository \<notin> githubOwners env then fail (ErrorString ''not in githubOwners'')
      else if RepoPrivate repository \<and> and (githubVisibilities env) repoPrivate = 0 \<or>
              \<not> RepoPrivate repository \<and> and (githubVisibilities env) repoPublic = 0
      then fail (ErrorString ''not in githubVisibilities'')
      else ret ())"

text \<open>The second look into the cache, under the lock, finds what the first did.\<close>

definition getGitHubRepository :: "('k, 'x) gh_api \<Rightarrow> gh_env \<Rightarrow> string \<Rightarrow> string \<Rightarrow> (('k, 'x) gh, GhRepository) go" where
  "getGitHubRepository api env owner name =
     (let key = owner @ ''/'' @ name in
      andThen ask (\<lambda>s. case cacheGet api ''repositories'' githubRepositories key s of
          Some repository \<Rightarrow> cacheHit api ''repository'' True repository
        | None \<Rightarrow> (case cacheGet api ''repositories'' githubRepositories key s of
            Some repository \<Rightarrow> cacheHit api ''repository'' True repository
          | None \<Rightarrow>
              andThen (cacheHit api ''repository'' False ()) (\<lambda>_.
              andThen (lift_res (nonNil ''githubClient'' (githubClient s))) (\<lambda>c.
              andThen (onNet (apiGetRepository api c owner name)) (\<lambda>r.
              andThen (handleGitHubResponse api (Some c) ''entry'' r) (\<lambda>repository.
              andThen (repositoryAllowed env repository) (\<lambda>_.
              andThen (upd (\<lambda>s. s\<lparr>githubRepositories := (githubRepositories s)(key \<mapsto> repository)\<rparr>)) (\<lambda>_.
              ret repository)))))))))"

section \<open>Tokens\<close>

definition repoKey :: "GhRepository \<Rightarrow> string" where
  "repoKey r = RepoLogin r @ ''/'' @ RepoNameOf r"

definition bumped :: "tokenContainer \<Rightarrow> tokenContainer" where
  "bumped c = c\<lparr>Rate := Rate c + 1\<rparr>"

definition tokenSpent :: "('k, 'x) gh_api \<Rightarrow> tokenContainer \<Rightarrow> ('k, 'x) gh \<Rightarrow> bool" where
  "tokenSpent api c s \<longleftrightarrow> 60 \<le> Rate c \<or> \<not> TokExpiresAt (ConToken c) > timeNow api (net s) + minute"

definition tryGetGitHubRegistrationToken :: "('k, 'x) gh_api \<Rightarrow> string \<Rightarrow> (('k, 'x) gh, GhToken) go" where
  "tryGetGitHubRegistrationToken api key s =
     (case cacheGet api ''registrationTokens'' githubRegistrationTokens key s of
        None \<Rightarrow> (Err (ErrorString ''githubRegistrationTokens.Load(key) !ok''), s)
      | Some c \<Rightarrow>
          let s' = s\<lparr>githubRegistrationTokens := (githubRegistrationTokens s)(key \<mapsto> bumped c)\<rparr> in
          if tokenSpent api (bumped c) s'
          then (Err (ErrorString ''rate >= 60 || !container.Token.GetExpiresAt().After(time.Now().Add(time.Minute))''), s')
          else (Ok (ConToken c), s'))"

definition createRegistrationToken :: "('k, 'x) gh_api \<Rightarrow> GhRepository \<Rightarrow> (('k, 'x) gh, GhToken) go" where
  "createRegistrationToken api rep =
     andThen ask (\<lambda>s.
     andThen (lift_res (nonNil ''githubClient'' (githubClient s))) (\<lambda>c.
     andThen (onNet (apiCreateRegistrationToken api c (RepoLogin rep) (RepoNameOf rep))) (\<lambda>r.
     andThen (handleGitHubResponse api (Some c) ''entry'' r) (\<lambda>t.
     andThen (upd (\<lambda>s. s\<lparr>githubRegistrationTokens := (githubRegistrationTokens s)(repoKey rep \<mapsto> \<lparr>ConToken = t, Rate = 0\<rparr>)\<rparr>)) (\<lambda>_.
     ret t)))))"

definition getGitHubRegistrationToken :: "('k, 'x) gh_api \<Rightarrow> GhRepository option \<Rightarrow> (('k, 'x) gh, GhToken) go" where
  "getGitHubRegistrationToken api repository =
     andThen (lift_res (nonNil ''repository'' repository)) (\<lambda>rep.
     attempt (tryGetGitHubRegistrationToken api (repoKey rep)) (\<lambda>r1. case r1 of Inr t \<Rightarrow> cacheHit api ''registrationToken'' True t | Inl _ \<Rightarrow>
     attempt (tryGetGitHubRegistrationToken api (repoKey rep)) (\<lambda>r2. case r2 of Inr t \<Rightarrow> cacheHit api ''registrationToken'' True t | Inl _ \<Rightarrow>
     andThen (cacheHit api ''registrationToken'' False ()) (\<lambda>_. createRegistrationToken api rep))))"

definition newGitHubBridgeClientWithRegistrationToken ::
    "('k, 'x) gh_api \<Rightarrow> GhRepository option \<Rightarrow> (('k, 'x) gh, 'k) go" where
  "newGitHubBridgeClientWithRegistrationToken api repository =
     andThen (lift_res (nonNil ''repository'' repository)) (\<lambda>_.
     andThen (getGitHubRegistrationToken api repository) (\<lambda>t.
     let bridgeClient = newClient api \<lparr>TkAccess = TokText t, TkType = ''RemoteAuth'', TkExpiry = 0\<rparr> in
     andThen (collectGitHubRateLimitMetrics api (Some bridgeClient) ''bridge'') (\<lambda>_. ret bridgeClient)))"

definition tryGetGitHubRemoveToken :: "('k, 'x) gh_api \<Rightarrow> string \<Rightarrow> (('k, 'x) gh, GhToken) go" where
  "tryGetGitHubRemoveToken api key s =
     (case cacheGet api ''removeTokens'' githubRemoveTokens key s of
        None \<Rightarrow> (Err (ErrorString ''githubRemoveTokens.Get(key) !ok''), s)
      | Some c \<Rightarrow>
          let s' = s\<lparr>githubRemoveTokens := (githubRemoveTokens s)(key \<mapsto> bumped c)\<rparr> in
          if tokenSpent api (bumped c) s'
          then (Err (ErrorString ''rate >= 60 || !container.Token.GetExpiresAt().After(time.Now().Add(time.Minute))''), s')
          else (Ok (ConToken c), s'))"

definition createRemoveToken :: "('k, 'x) gh_api \<Rightarrow> GhRepository \<Rightarrow> (('k, 'x) gh, GhToken) go" where
  "createRemoveToken api rep =
     andThen ask (\<lambda>s.
     andThen (lift_res (nonNil ''githubClient'' (githubClient s))) (\<lambda>c.
     andThen (onNet (apiCreateRemoveToken api c (RepoLogin rep) (RepoNameOf rep))) (\<lambda>r.
     andThen (handleGitHubResponse api (Some c) ''entry'' r) (\<lambda>t.
     andThen (upd (\<lambda>s. s\<lparr>githubRemoveTokens := (githubRemoveTokens s)(repoKey rep \<mapsto> \<lparr>ConToken = t, Rate = 0\<rparr>)\<rparr>)) (\<lambda>_.
     ret t)))))"

definition getGitHubRemoveToken :: "('k, 'x) gh_api \<Rightarrow> GhRepository option \<Rightarrow> (('k, 'x) gh, GhToken) go" where
  "getGitHubRemoveToken api repository =
     andThen (lift_res (nonNil ''repository'' repository)) (\<lambda>rep.
     attempt (tryGetGitHubRemoveToken api (repoKey rep)) (\<lambda>r1. case r1 of Inr t \<Rightarrow> cacheHit api ''removeToken'' True t | Inl _ \<Rightarrow>
     attempt (tryGetGitHubRemoveToken api (repoKey rep)) (\<lambda>r2. case r2 of Inr t \<Rightarrow> cacheHit api ''removeToken'' True t | Inl _ \<Rightarrow>
     andThen (cacheHit api ''removeToken'' False ()) (\<lambda>_. createRemoveToken api rep))))"

definition newGitHubBridgeClientWithRemoveToken ::
    "('k, 'x) gh_api \<Rightarrow> GhRepository option \<Rightarrow> (('k, 'x) gh, 'k) go" where
  "newGitHubBridgeClientWithRemoveToken api repository =
     andThen (lift_res (nonNil ''repository'' repository)) (\<lambda>_.
     andThen (getGitHubRemoveToken api repository) (\<lambda>t.
     let bridgeClient = newClient api \<lparr>TkAccess = TokText t, TkType = ''RemoteAuth'', TkExpiry = 0\<rparr> in
     andThen (collectGitHubRateLimitMetrics api (Some bridgeClient) ''bridge'') (\<lambda>_. ret bridgeClient)))"

section \<open>Tenant credentials\<close>

definition tryGetGitHubTenantCredential :: "('k, 'x) gh_api \<Rightarrow> string \<Rightarrow> (('k, 'x) gh, TenantCredential) go" where
  "tryGetGitHubTenantCredential api key =
     andThen ask (\<lambda>s. case cacheGet api ''tenantCredentials'' githubTenantCredentials key s of
         None \<Rightarrow> fail (ErrorString ''githubTenantCredentials.Load(key) !ok'')
       | Some cred \<Rightarrow>
           andThen (lift_res (fromSum (tokenExpiry api (CredToken cred)))) (\<lambda>expiry.
           if \<not> expiry > timeNow api (net s) + minute
           then fail (ErrorString ''!claims.Expiry.Time().After(time.Now().Add(time.Minute))'')
           else ret cred))"

definition getTenantCredential ::
    "('k, 'x) gh_api \<Rightarrow> GhRepository option \<Rightarrow> RunnerEvent \<Rightarrow> (('k, 'x) gh, TenantCredential) go" where
  "getTenantCredential api repository runnerEvent =
     andThen (lift_res (nonNil ''repository'' repository)) (\<lambda>rep.
     let key = runnerEvent @ ''@'' @ repoKey rep in
     attempt (tryGetGitHubTenantCredential api key) (\<lambda>r1. case r1 of Inr c \<Rightarrow> cacheHit api ''tenantCredential'' True c | Inl _ \<Rightarrow>
     attempt (tryGetGitHubTenantCredential api key) (\<lambda>r2. case r2 of Inr c \<Rightarrow> cacheHit api ''tenantCredential'' True c | Inl _ \<Rightarrow>
     andThen (cacheHit api ''tenantCredential'' False ()) (\<lambda>_.
     andThen (if runnerEvent = RunnerEventRegister then newGitHubBridgeClientWithRegistrationToken api repository
       else if runnerEvent = RunnerEventRemove then newGitHubBridgeClientWithRemoveToken api repository
       else fail (ErrorString (''unknown runnerEvent: '' @ runnerEvent))) (\<lambda>bridgeClient.
     andThen (onNet (apiCreateTenantCredential api bridgeClient runnerEvent (RepoHTMLURL rep))) (\<lambda>r.
     andThen (handleGitHubResponse api (Some bridgeClient) (''bridge-'' @ key) r) (\<lambda>cred.
     andThen (upd (\<lambda>s. s\<lparr>githubTenantCredentials := (githubTenantCredentials s)(key \<mapsto> cred)\<rparr>)) (\<lambda>_.
     ret cred))))))))"

section \<open>The facade\<close>

text \<open>\<^verbatim>\<open>GitHub.Init\<close>: the repository the facade then has.\<close>

definition ghInit :: "('k, 'x) gh_api \<Rightarrow> gh_env \<Rightarrow> string \<Rightarrow> string \<Rightarrow> (('k, 'x) gh, GhRepository) go" where
  "ghInit api env repoOwner repoName =
     andThen (initGitHubClient api env) (\<lambda>_. getGitHubRepository api env repoOwner repoName)"

text \<open>The reports that follow a call.\<close>

definition gh_reports :: "'x prom \<Rightarrow> ('x \<Rightarrow> 'x option) set" where
  "gh_reports p = {g. (\<exists>n v. g = SetGitHubRateLimitCollector p n v) \<or> (\<exists>n v. g = SetGitHubRateRemainingCollector p n v) \<or>
     (\<exists>n q r. g = IncGitHubAPICallsCollector p n q r) \<or> (\<exists>n h. g = IncGitHubCacheHitCollector p n h)}"

section \<open>Owners and visibilities\<close>

lemma fold_addVisibility:
  "(and (fold addVisibility vs a) repoPublic \<noteq> 0 \<longleftrightarrow> and a repoPublic \<noteq> 0 \<or> set vs \<inter> {''pub'', ''public''} \<noteq> {}) \<and>
   (and (fold addVisibility vs a) repoPrivate \<noteq> 0 \<longleftrightarrow> and a repoPrivate \<noteq> 0 \<or> set vs \<inter> {''priv'', ''private''} \<noteq> {})"
proof (induction vs arbitrary: a)
  case (Cons v vs)
  have b: "and a repoPublic \<noteq> 0 \<longleftrightarrow> bit a 0" "and a repoPrivate \<noteq> 0 \<longleftrightarrow> bit a 1" for a :: "8 word"
    using bit_iff_and_push_bit_not_eq_0 [of a 0] bit_iff_and_push_bit_not_eq_0 [of a 1]
    by (simp_all add: repoPublic_def repoPrivate_def)
  show ?case
    using Cons [of "addVisibility v a"] unfolding b
    by (auto simp: addVisibility_def bit_simps repoPublic_def repoPrivate_def split: if_splits)
qed simp

text \<open>What the configuration allows, read from the two environment variables.\<close>

definition configured :: "gh_env \<Rightarrow> GhRepository \<Rightarrow> bool" where
  "configured env r \<longleftrightarrow> RepoLogin r \<in> set (split_on CHR '','' (envOwners env)) \<and>
     (\<exists>v \<in> (if RepoPrivate r then {''priv'', ''private''} else {''pub'', ''public''}).
        v \<in> set (split_on CHR '','' (envVisibilities env)))"

lemma repositoryAllowed_iff: "repositoryAllowed env r s = (Ok (), s') \<longleftrightarrow> configured env r \<and> s' = s"
proof -
  have z: "and (0 :: 8 word) repoPublic = 0" "and (0 :: 8 word) repoPrivate = 0" by simp_all
  show ?thesis
    using fold_addVisibility [of "split_on CHR '','' (envVisibilities env)" 0] z
    by (auto simp: repositoryAllowed_def configured_def githubOwners_def githubVisibilities_def ret_def fail_def)
qed

lemma keeps_onNet [intro]: "(\<And>s x. f (s\<lparr>net := x\<rparr>) = f s) \<Longrightarrow> keeps f (onNet g)"
  by (rule keepsI) (simp add: onNet_def split: prod.splits)

lemma keeps_meter [intro]: "(\<And>s x. f (s\<lparr>net := x\<rparr>) = f s) \<Longrightarrow> keeps f (meter g)"
  by (rule keepsI) (simp add: meter_def zoom_def split: prod.splits)

lemma keeps_hit [intro]: "(\<And>s x. f (s\<lparr>net := x\<rparr>) = f s) \<Longrightarrow> keeps f (cacheHit api n h v)"
  unfolding cacheHit_def by (intro keeps_andThen keeps_meter keeps_basic)

text \<open>What asking for the rate limits and metering keep, a handled response keeps.\<close>

lemma keeps_calls:
  assumes "\<And>k. keeps f (onNet (apiRateLimits api k))" and "\<And>g. g \<in> gh_reports (ghProm api) \<Longrightarrow> keeps f (meter g)"
  shows "keeps f (collectGitHubRateLimitMetrics api c n)" and "keeps f (handleGitHubResponse api c n r)"
proof -
  note k = assms(1) assms(2) [unfolded gh_reports_def]
  show l: "keeps f (collectGitHubRateLimitMetrics api c n)" for c n
    unfolding collectGitHubRateLimitMetrics_def
    by (intro keeps_andThen keeps_branch keeps_basic k) (auto intro!: keeps_andThen keeps_branch keeps_basic k)
  show "keeps f (handleGitHubResponse api c n r)"
    unfolding handleGitHubResponse_def tryCollectGitHubAPICallMetrics_def collectGitHubAPICallMetrics_def tryCollectGitHubRateLimitMetrics_def
    by (intro keeps_andThen keeps_attempt keeps_branch keeps_basic l) (auto intro!: keeps_andThen keeps_branch keeps_basic k)
qed

lemma keeps_collect [intro]: "(\<And>s x. f (s\<lparr>net := x\<rparr>) = f s) \<Longrightarrow> keeps f (collectGitHubRateLimitMetrics api c n)"
  by (rule keeps_calls) (simp_all add: keeps_onNet keeps_meter)

lemma keeps_handle [intro]: "(\<And>s x. f (s\<lparr>net := x\<rparr>) = f s) \<Longrightarrow> keeps f (handleGitHubResponse api c n r)"
  by (rule keeps_calls) (simp_all add: keeps_onNet keeps_meter)

lemma initGitHubClient_keeps: "keeps githubRepositories (initGitHubClient api env)"
proof -
  have a: "keeps githubRepositories (getGitHubAppToken api env)"
    unfolding getGitHubAppToken_def Let_def by (intro keeps_branch keeps_andThen keeps_basic)
  have i: "keeps githubRepositories (getGitHubInstallationToken api env c)" for c
    unfolding getGitHubInstallationToken_def
    by (intro keeps_andThen keeps_branch keeps_onNet keeps_handle keeps_basic) (auto split: list.splits)
  have "keeps githubRepositories (newGitHubAppClient api env)"
    unfolding newGitHubAppClient_def by (intro keeps_andThen a keeps_basic)
  then show ?thesis
    unfolding initGitHubClient_def
    by (intro keeps_andThen keeps_branch keeps_collect keeps_basic i) (auto intro!: keepsI simp: upd_def)
qed

lemma tryToken_keeps:
  "keeps githubRepositories (tryGetGitHubRegistrationToken api key)" "keeps githubRepositories (tryGetGitHubRemoveToken api key)"
  "keeps githubRepositories (tryGetGitHubTenantCredential api key)"
proof -
  show "keeps githubRepositories (tryGetGitHubTenantCredential api key)"
    unfolding tryGetGitHubTenantCredential_def
    by (intro keeps_andThen keeps_basic) (auto intro!: keeps_andThen split: option.splits)
qed (auto intro!: keepsI simp: tryGetGitHubRegistrationToken_def tryGetGitHubRemoveToken_def Let_def split: option.splits)

lemma getToken_keeps:
  "keeps githubRepositories (getGitHubRegistrationToken api r)" "keeps githubRepositories (getGitHubRemoveToken api r)"
proof -
  show "keeps githubRepositories (getGitHubRegistrationToken api r)" "keeps githubRepositories (getGitHubRemoveToken api r)"
    unfolding getGitHubRegistrationToken_def getGitHubRemoveToken_def createRegistrationToken_def createRemoveToken_def
    by (intro keeps_andThen keeps_attempt keeps_branch tryToken_keeps keeps_onNet keeps_handle keeps_hit keeps_upd keeps_basic; simp)+
qed

lemma getTenantCredential_keeps: "keeps githubRepositories (getTenantCredential api r ev)"
proof -
  have "keeps githubRepositories (newGitHubBridgeClientWithRegistrationToken api r)"
    "keeps githubRepositories (newGitHubBridgeClientWithRemoveToken api r)"
    unfolding newGitHubBridgeClientWithRegistrationToken_def newGitHubBridgeClientWithRemoveToken_def Let_def
    by (intro keeps_andThen getToken_keeps keeps_collect keeps_basic; simp)+
  then show ?thesis
    unfolding getTenantCredential_def Let_def
    by (intro keeps_andThen keeps_attempt keeps_branch tryToken_keeps keeps_onNet keeps_handle keeps_hit keeps_upd keeps_basic; simp)
qed

text \<open>The invariant of the repository cache.\<close>

definition only_configured :: "gh_env \<Rightarrow> ('k, 'x) gh \<Rightarrow> bool" where
  "only_configured env s \<longleftrightarrow> (\<forall>r\<in>ran (githubRepositories s). configured env r)"

lemma only_configured_upd:
  "only_configured env s \<Longrightarrow> configured env rep \<Longrightarrow>
   only_configured env (s\<lparr>githubRepositories := (githubRepositories s)(k \<mapsto> rep)\<rparr>)"
  by (auto simp: only_configured_def ran_def split: if_splits)

lemma cacheHit_value: "cacheHit api n h v s = (r, s') \<Longrightarrow> r = Ok x \<Longrightarrow> x = v"
  by (auto simp: cacheHit_def andThen_def ret_def split: prod.splits res.splits)

lemma getGitHubRepository_configured:
  assumes inv: "only_configured env s" and run: "getGitHubRepository api env owner name s = (r, s')"
  shows "only_configured env s' \<and> (\<forall>rep. r = Ok rep \<longrightarrow> configured env rep)"
proof (cases "cacheGet api ''repositories'' githubRepositories (owner @ ''/'' @ name) s")
  case (Some rep)
  then have h: "cacheHit api ''repository'' True rep s = (r, s')"
    using run by (simp add: getGitHubRepository_def Let_def andThen_def ask_def)
  have "githubRepositories s' = githubRepositories s" by (rule keepsD [OF keeps_hit h]) simp
  then show ?thesis
    using Some inv cacheHit_value [OF h] by (auto simp: cacheGet_def only_configured_def ran_def split: if_splits)
next
  case None
  let ?fetch = "andThen (cacheHit api ''repository'' False ()) (\<lambda>_. andThen (lift_res (nonNil ''githubClient'' (githubClient s))) (\<lambda>c.
    andThen (onNet (apiGetRepository api c owner name)) (handleGitHubResponse api (Some c) ''entry'')))"
  obtain f s1 where f: "?fetch s = (f, s1)" by fastforce
  have "keeps githubRepositories ?fetch" by (intro keeps_andThen keeps_hit keeps_onNet keeps_handle keeps_basic; simp)
  from keepsD [OF this f] have s1: "githubRepositories s1 = githubRepositories s" .
  have run': "andThen ?fetch (\<lambda>repository. andThen (repositoryAllowed env repository) (\<lambda>_.
      andThen (upd (\<lambda>s. s\<lparr>githubRepositories := (githubRepositories s)((owner @ ''/'' @ name) \<mapsto> repository)\<rparr>)) (\<lambda>_.
      ret repository))) s = (r, s')"
    using run None by (simp add: getGitHubRepository_def Let_def andThen_assoc andThen_def [of ask] ask_def)
  show ?thesis
  proof (cases f)
    case (Ok rep)
    obtain a s2 where a: "repositoryAllowed env rep s1 = (a, s2)" by fastforce
    have "s2 = s1" using a by (auto simp: repositoryAllowed_def ret_def fail_def split: if_splits)
    moreover have "a = Ok () \<longrightarrow> configured env rep" using a repositoryAllowed_iff by blast
    moreover have "only_configured env s1" using inv s1 by (simp add: only_configured_def)
    ultimately show ?thesis
      using run' f Ok a only_configured_upd [of env s1 rep "owner @ ''/'' @ name"]
      by (cases a) (auto simp: andThen_def [of ?fetch] andThen_def [of "repositoryAllowed env rep"] andThen_def [of "upd _"] upd_def ret_def)
  qed (use run' f s1 inv in \<open>auto simp: andThen_def [of ?fetch] only_configured_def\<close>)
qed

lemma ghInit_configured:
  assumes "only_configured env s" and "ghInit api env owner name s = (r, s')"
  shows "only_configured env s' \<and> (\<forall>rep. r = Ok rep \<longrightarrow> configured env rep)"
proof -
  obtain i s1 where i: "initGitHubClient api env s = (i, s1)" by fastforce
  have "only_configured env s1" using keepsD [OF initGitHubClient_keeps i] assms(1) by (simp add: only_configured_def)
  then show ?thesis
    using assms(2) i getGitHubRepository_configured [of env s1 api owner name r s']
    by (cases i) (auto simp: ghInit_def andThen_def)
qed

text \<open>Any sequence of calls of the facade.\<close>

datatype gh_call = CallInit string string | CallCredential "GhRepository option" RunnerEvent

fun gh_calls :: "('k, 'x) gh_api \<Rightarrow> gh_env \<Rightarrow> gh_call list \<Rightarrow> ('k, 'x) gh \<Rightarrow> ('k, 'x) gh" where
  "gh_calls api env [] s = s"
| "gh_calls api env (CallInit owner name # cs) s = gh_calls api env cs (snd (ghInit api env owner name s))"
| "gh_calls api env (CallCredential r ev # cs) s = gh_calls api env cs (snd (getTenantCredential api r ev s))"

lemma gh_calls_configured: "only_configured env s \<Longrightarrow> only_configured env (gh_calls api env cs s)"
proof (induction api env cs s rule: gh_calls.induct)
  case (2 api env owner name cs s)
  then show ?case using ghInit_configured [OF 2(2), of api owner name] by (metis gh_calls.simps(2) prod.collapse)
next
  case (3 api env r ev cs s)
  then show ?case using getTenantCredential_keeps [of api r ev] by (simp add: only_configured_def keeps_def)
qed simp

section \<open>The budget of a token\<close>

text \<open>What a container still allows: 59 calls after its creation, none at a rate of 59 or more.\<close>

definition remaining :: "tokenContainer option \<Rightarrow> nat" where
  "remaining c = (case c of None \<Rightarrow> 0 | Some c \<Rightarrow> 59 - unat (Rate c))"

text \<open>The counter has not come near its wrap-around.\<close>

definition rate_below :: "nat \<Rightarrow> tokenContainer option \<Rightarrow> bool" where
  "rate_below b c \<longleftrightarrow> (case c of None \<Rightarrow> True | Some c \<Rightarrow> unat (Rate c) \<le> b)"

definition succeeded :: "'a res \<Rightarrow> nat" where
  "succeeded r = (case r of Ok _ \<Rightarrow> 1 | _ \<Rightarrow> 0)"

text \<open>Results of successive calls.\<close>

fun repeatedly :: "nat \<Rightarrow> ('s, 'a) go \<Rightarrow> 's \<Rightarrow> 'a res list \<times> 's" where
  "repeatedly 0 m s = ([], s)"
| "repeatedly (Suc n) m s = (case m s of (r, s1) \<Rightarrow> (case repeatedly n m s1 of (rs, s2) \<Rightarrow> (r # rs, s2)))"

text \<open>
  A cache of tokens with a rate: a call serves from the container and lowers what is left of it, or
  has a new token made.
\<close>

locale token_cache =
  fixes container :: "'s \<Rightarrow> tokenContainer option"
    and get :: "('s, GhToken) go"
    and made :: "'s \<Rightarrow> nat"
    and lawful :: bool
  assumes served: "lawful \<Longrightarrow> get s = (r, s') \<Longrightarrow> rate_below b (container s) \<Longrightarrow> b + 2 < 2 ^ 64 \<Longrightarrow>
      made s \<le> made s' \<and> succeeded r + remaining (container s') \<le> remaining (container s) + 60 * (made s' - made s) \<and>
      rate_below (b + 2) (container s')"
begin

lemma budget:
  assumes lawful
  shows "repeatedly n get s = (rs, s') \<Longrightarrow> rate_below b (container s) \<Longrightarrow> b + 2 * n < 2 ^ 64 \<Longrightarrow>
    made s \<le> made s' \<and> sum_list (map succeeded rs) + remaining (container s') \<le> remaining (container s) + 60 * (made s' - made s)"
proof (induction n arbitrary: s rs b)
  case (Suc n)
  obtain r s1 rs' where g: "get s = (r, s1)" "repeatedly n get s1 = (rs', s')" "rs = r # rs'"
    using Suc.prems(1) by (auto split: prod.splits)
  have "b + 2 < 2 ^ 64" using Suc.prems(3) by simp
  note 1 = served [OF assms g(1) Suc.prems(2) this]
  have "made s1 \<le> made s' \<and> sum_list (map succeeded rs') + remaining (container s') \<le> remaining (container s1) + 60 * (made s' - made s1)"
    by (rule Suc.IH [OF g(2), of "b + 2"]) (use 1 Suc.prems(3) in \<open>simp_all add: algebra_simps\<close>)
  then show ?case using 1 g(3) by auto
qed simp

end

lemma unat_bump: "unat (w :: 64 word) + 1 < 2 ^ 64 \<Longrightarrow> unat (w + 1) = unat w + 1"
  by (simp add: unat_plus_if')

lemma bump_left:
  assumes "rate_below b (Some c)" and "b + 1 < 2 ^ 64"
  shows "remaining (Some (bumped c)) \<le> remaining (Some c)" and "rate_below (b + 1) (Some (bumped c))"
    and "\<not> 60 \<le> Rate (bumped c) \<Longrightarrow> 1 + remaining (Some (bumped c)) \<le> remaining (Some c)"
proof -
  have u: "unat (Rate c + 1) = unat (Rate c) + 1"
    using assms by (intro unat_bump) (simp add: rate_below_def)
  show "remaining (Some (bumped c)) \<le> remaining (Some c)" and "rate_below (b + 1) (Some (bumped c))"
    using u assms(1) by (simp_all add: remaining_def bumped_def rate_below_def)
  assume "\<not> 60 \<le> Rate (bumped c)"
  then have "unat (Rate c) + 1 < 60" using u by (simp add: bumped_def word_le_nat_alt)
  then show "1 + remaining (Some (bumped c)) \<le> remaining (Some c)" using u by (simp add: remaining_def bumped_def)
qed

text \<open>The double-checked access that both kinds of token share.\<close>

definition tokenGet :: "('s, GhToken) go \<Rightarrow> (GhToken \<Rightarrow> ('s, GhToken) go) \<Rightarrow> ('s, GhToken) go \<Rightarrow> ('s, GhToken) go" where
  "tokenGet look hit build = attempt look (\<lambda>r1. case r1 of Inr t \<Rightarrow> hit t | Inl _ \<Rightarrow>
     attempt look (\<lambda>r2. case r2 of Inr t \<Rightarrow> hit t | Inl _ \<Rightarrow> build))"

definition tried :: "tokenContainer option \<Rightarrow> GhToken res \<Rightarrow> tokenContainer option \<Rightarrow> bool" where
  "tried c r c' \<longleftrightarrow> (\<exists>x. c = Some x \<and> c' = Some (bumped x) \<and> (succeeded r = 1 \<longrightarrow> \<not> 60 \<le> Rate (bumped x))) \<or> c' = c \<and> succeeded r = 0"

lemma tried_left:
  assumes "tried c r c'" and "rate_below b c" and "b + 1 < 2 ^ 64"
  shows "succeeded r + remaining c' \<le> remaining c" and "rate_below (b + 1) c'"
proof -
  have s: "succeeded r = 0 \<or> succeeded r = 1" by (simp add: succeeded_def split: res.splits)
  show "succeeded r + remaining c' \<le> remaining c" using assms s bump_left [OF _ assms(3)] by (auto simp: tried_def)
  show "rate_below (b + 1) c'" using assms bump_left(2) [OF _ assms(3)] by (auto simp: tried_def rate_below_def split: option.splits)
qed

locale token_source =
  fixes container :: "'s \<Rightarrow> tokenContainer option"
    and look :: "('s, GhToken) go"
    and hit :: "GhToken \<Rightarrow> ('s, GhToken) go"
    and build :: "('s, GhToken) go"
    and made :: "'s \<Rightarrow> nat"
    and lawful :: bool
  assumes tries: "look s = (r, s') \<Longrightarrow> made s' = made s \<and> tried (container s) r (container s')"
    and hits: "lawful \<Longrightarrow> hit t s = (r, s') \<Longrightarrow> made s' = made s \<and> container s' = container s"
    and makes: "lawful \<Longrightarrow> build s = (r, s') \<Longrightarrow> made s \<le> made s' \<and>
      (case r of Ok t \<Rightarrow> made s' = made s + 1 \<and> container s' = Some \<lparr>ConToken = t, Rate = 0\<rparr> | _ \<Rightarrow> container s' = container s)"

sublocale token_source \<subseteq> token_cache container "tokenGet look hit build" made lawful
proof
  fix s r s' b
  assume l: lawful and run: "tokenGet look hit build s = (r, s')" and b: "rate_below b (container s)" "b + 2 < 2 ^ 64"
  obtain r1 s1 where 1: "look s = (r1, s1)" by fastforce
  obtain r2 s2 where 2: "look s1 = (r2, s2)" by fastforce
  have b1: "b + 1 < 2 ^ 64" and b2: "(b + 1) + 1 < 2 ^ 64" using b(2) by simp_all
  note t1 = tries [OF 1] and t2 = tries [OF 2]
  note l1 = tried_left [OF conjunct2 [OF t1] b(1) b1]
  note l2 = tried_left [OF conjunct2 [OF t2] l1(2) b2]
  have mono: "rate_below m c \<Longrightarrow> m \<le> n \<Longrightarrow> rate_below n c" for m n c by (auto simp: rate_below_def split: option.splits)
  have served: "made s' = made s0 \<and> container s' = container s0 \<and> succeeded r \<le> 1" if "hit t s0 = (r, s')" for t s0
    using hits [OF l that] by (simp add: succeeded_def split: res.splits)
  consider "made s' = made s1" "container s' = container s1" "succeeded r \<le> succeeded r1"
    | "made s' = made s2" "container s' = container s2" "succeeded r \<le> succeeded r2"
    | "build s2 = (r, s')" "succeeded r2 = 0"
    using run 1 2 served by (auto simp: tokenGet_def attempt_def succeeded_def split: res.splits)
  then show "made s \<le> made s' \<and> succeeded r + remaining (container s') \<le> remaining (container s) + 60 * (made s' - made s) \<and>
      rate_below (b + 2) (container s')"
  proof cases
    case 1
    then show ?thesis using t1 l1 mono [of "b + 1" _ "b + 2"] by simp
  next
    case 2
    then show ?thesis using t1 t2 l1 l2 mono [of "b + 1 + 1" _ "b + 2"] by simp
  next
    case 3
    note m = makes [OF l 3(1)]
    show ?thesis
    proof (cases r)
      case (Ok t)
      then show ?thesis using m t1 t2 by (simp add: succeeded_def remaining_def rate_below_def)
    qed (use m t1 t2 l1 l2 mono [of "b + 1 + 1" _ "b + 2"] in \<open>simp_all add: succeeded_def\<close>)
  qed
qed

text \<open>The world counts the tokens it has made; asking for the rate limits makes none.\<close>

definition counts_registrations :: "('k, 'x) gh_api \<Rightarrow> ('x \<Rightarrow> nat) \<Rightarrow> bool" where
  "counts_registrations api n \<longleftrightarrow> (\<forall>k x. n (snd (apiRateLimits api k x)) = n x) \<and>
     (\<forall>k o' r x. n (snd (apiCreateRegistrationToken api k o' r x)) = n x + 1) \<and> unmetered (ghProm api) n"

definition counts_removals :: "('k, 'x) gh_api \<Rightarrow> ('x \<Rightarrow> nat) \<Rightarrow> bool" where
  "counts_removals api n \<longleftrightarrow> (\<forall>k x. n (snd (apiRateLimits api k x)) = n x) \<and>
     (\<forall>k o' r x. n (snd (apiCreateRemoveToken api k o' r x)) = n x + 1) \<and> unmetered (ghProm api) n"

lemma keeps_count:
  assumes "\<And>k x. n (snd (apiRateLimits api k x)) = n x" and "unmetered (ghProm api) n"
  shows "keeps (\<lambda>s. n (net s)) (handleGitHubResponse api c cn r)" and "keeps (\<lambda>s. n (net s)) (cacheHit api cache h v)"
proof -
  have m: "keeps (\<lambda>s. n (net s)) (meter g)" if "g \<in> gh_reports (ghProm api)" for g
    using that unmetered_reports [OF assms(2)]
    by (intro keepsI) (auto simp: meter_def zoom_def reporting_def gh_reports_def split: option.splits)
  have "keeps (\<lambda>s. n (net s)) (onNet (apiRateLimits api k))" for k
    by (rule keepsI) (use assms in \<open>simp add: onNet_def split: prod.splits\<close>, metis snd_conv)
  then show "keeps (\<lambda>s. n (net s)) (handleGitHubResponse api c cn r)" by (intro keeps_calls m)
  show "keeps (\<lambda>s. n (net s)) (cacheHit api cache h v)"
    unfolding cacheHit_def by (intro keeps_andThen keeps_basic m) (auto simp: gh_reports_def)
qed

lemma cacheHit_frame:
  fixes s s' :: "('k, 'x) gh"
  assumes "\<And>k x. n (snd (apiRateLimits api k x)) = n x" and "unmetered (ghProm api) n" and "\<And>s x. f (s\<lparr>net := x\<rparr>) = f s"
    and "cacheHit api cache h v s = (r, s')"
  shows "n (net s') = n (net s) \<and> f s' k = f s k"
  using keepsD [OF keeps_count(2) [OF assms(1,2)] assms(4)] keepsD [OF keeps_hit [OF assms(3)] assms(4)] by simp

lemma createRegistrationToken_makes:
  fixes s s' :: "('k, 'x) gh"
  assumes l: "counts_registrations api n" and run: "createRegistrationToken api rep s = (r, s')"
  shows "n (net s) \<le> n (net s') \<and> (case r of Ok t \<Rightarrow> n (net s') = n (net s) + 1 \<and>
      githubRegistrationTokens s' (repoKey rep) = Some \<lparr>ConToken = t, Rate = 0\<rparr>
    | _ \<Rightarrow> githubRegistrationTokens s' (repoKey rep) = githubRegistrationTokens s (repoKey rep))"
proof (cases "githubClient s")
  case (Some c)
  obtain v x where v: "apiCreateRegistrationToken api c (RepoLogin rep) (RepoNameOf rep) (net s) = (v, x)" by fastforce
  have x: "n x = n (net s) + 1" using l v by (metis counts_registrations_def snd_conv)
  obtain h s1 where h: "handleGitHubResponse api (Some c) ''entry'' v (s\<lparr>net := x\<rparr>) = (h, s1)" by fastforce
  have "keeps (\<lambda>s. n (net s)) (handleGitHubResponse api (Some c) ''entry'' v)"
    using l by (intro keeps_count) (simp_all add: counts_registrations_def)
  from keepsD [OF this h] have "n (net s1) = n x" by simp
  moreover have "githubRegistrationTokens s1 = githubRegistrationTokens s"
    using keepsD [OF keeps_handle h, where f = githubRegistrationTokens] by simp
  ultimately show ?thesis
    using run Some v h x
    by (cases h) (auto simp: createRegistrationToken_def andThen_def ask_def lift_res_def onNet_def upd_def ret_def)
qed (use run in \<open>auto simp: createRegistrationToken_def go_simps\<close>)

interpretation registrations: token_source "\<lambda>s. githubRegistrationTokens s (repoKey rep)"
    "tryGetGitHubRegistrationToken api (repoKey rep)" "cacheHit api ''registrationToken'' True"
    "andThen (cacheHit api ''registrationToken'' False ()) (\<lambda>_. createRegistrationToken api rep)" "\<lambda>s. n (net s)" "counts_registrations api n"
  for api :: "('k, 'x) gh_api" and rep n
proof
  fix s s' :: "('k, 'x) gh" and r
  assume "tryGetGitHubRegistrationToken api (repoKey rep) s = (r, s')"
  then show "n (net s') = n (net s) \<and> tried (githubRegistrationTokens s (repoKey rep)) r (githubRegistrationTokens s' (repoKey rep))"
    by (auto simp: tryGetGitHubRegistrationToken_def cacheGet_def tried_def tokenSpent_def succeeded_def Let_def
        split: option.splits if_splits)
next
  fix s s' :: "('k, 'x) gh" and r t
  assume "counts_registrations api n" and run: "cacheHit api ''registrationToken'' True t s = (r, s')"
  then show "n (net s') = n (net s) \<and> githubRegistrationTokens s' (repoKey rep) = githubRegistrationTokens s (repoKey rep)"
    by (intro cacheHit_frame [OF _ _ _ run]) (simp_all add: counts_registrations_def)
next
  fix s s' :: "('k, 'x) gh" and r
  assume l: "counts_registrations api n" and run: "andThen (cacheHit api ''registrationToken'' False ()) (\<lambda>_. createRegistrationToken api rep) s = (r, s')"
  obtain h s1 where h: "cacheHit api ''registrationToken'' False () s = (h, s1)" by fastforce
  have s1: "n (net s1) = n (net s) \<and> githubRegistrationTokens s1 (repoKey rep) = githubRegistrationTokens s (repoKey rep)"
    using l by (intro cacheHit_frame [OF _ _ _ h]) (simp_all add: counts_registrations_def)
  show "n (net s) \<le> n (net s') \<and> (case r of Ok t \<Rightarrow> n (net s') = n (net s) + 1 \<and>
      githubRegistrationTokens s' (repoKey rep) = Some \<lparr>ConToken = t, Rate = 0\<rparr>
    | _ \<Rightarrow> githubRegistrationTokens s' (repoKey rep) = githubRegistrationTokens s (repoKey rep))"
    using run h s1 createRegistrationToken_makes [OF l, of rep s1 r s'] by (cases h) (auto simp: andThen_def split: res.splits)
qed

lemma createRemoveToken_makes:
  fixes s s' :: "('k, 'x) gh"
  assumes l: "counts_removals api n" and run: "createRemoveToken api rep s = (r, s')"
  shows "n (net s) \<le> n (net s') \<and> (case r of Ok t \<Rightarrow> n (net s') = n (net s) + 1 \<and>
      githubRemoveTokens s' (repoKey rep) = Some \<lparr>ConToken = t, Rate = 0\<rparr>
    | _ \<Rightarrow> githubRemoveTokens s' (repoKey rep) = githubRemoveTokens s (repoKey rep))"
proof (cases "githubClient s")
  case (Some c)
  obtain v x where v: "apiCreateRemoveToken api c (RepoLogin rep) (RepoNameOf rep) (net s) = (v, x)" by fastforce
  have x: "n x = n (net s) + 1" using l v by (metis counts_removals_def snd_conv)
  obtain h s1 where h: "handleGitHubResponse api (Some c) ''entry'' v (s\<lparr>net := x\<rparr>) = (h, s1)" by fastforce
  have "keeps (\<lambda>s. n (net s)) (handleGitHubResponse api (Some c) ''entry'' v)"
    using l by (intro keeps_count) (simp_all add: counts_removals_def)
  from keepsD [OF this h] have "n (net s1) = n x" by simp
  moreover have "githubRemoveTokens s1 = githubRemoveTokens s"
    using keepsD [OF keeps_handle h, where f = githubRemoveTokens] by simp
  ultimately show ?thesis
    using run Some v h x
    by (cases h) (auto simp: createRemoveToken_def andThen_def ask_def lift_res_def onNet_def upd_def ret_def)
qed (use run in \<open>auto simp: createRemoveToken_def go_simps\<close>)

interpretation removals: token_source "\<lambda>s. githubRemoveTokens s (repoKey rep)"
    "tryGetGitHubRemoveToken api (repoKey rep)" "cacheHit api ''removeToken'' True"
    "andThen (cacheHit api ''removeToken'' False ()) (\<lambda>_. createRemoveToken api rep)" "\<lambda>s. n (net s)" "counts_removals api n"
  for api :: "('k, 'x) gh_api" and rep n
proof
  fix s s' :: "('k, 'x) gh" and r
  assume "tryGetGitHubRemoveToken api (repoKey rep) s = (r, s')"
  then show "n (net s') = n (net s) \<and> tried (githubRemoveTokens s (repoKey rep)) r (githubRemoveTokens s' (repoKey rep))"
    by (auto simp: tryGetGitHubRemoveToken_def cacheGet_def tried_def tokenSpent_def succeeded_def Let_def
        split: option.splits if_splits)
next
  fix s s' :: "('k, 'x) gh" and r t
  assume "counts_removals api n" and run: "cacheHit api ''removeToken'' True t s = (r, s')"
  then show "n (net s') = n (net s) \<and> githubRemoveTokens s' (repoKey rep) = githubRemoveTokens s (repoKey rep)"
    by (intro cacheHit_frame [OF _ _ _ run]) (simp_all add: counts_removals_def)
next
  fix s s' :: "('k, 'x) gh" and r
  assume l: "counts_removals api n" and run: "andThen (cacheHit api ''removeToken'' False ()) (\<lambda>_. createRemoveToken api rep) s = (r, s')"
  obtain h s1 where h: "cacheHit api ''removeToken'' False () s = (h, s1)" by fastforce
  have s1: "n (net s1) = n (net s) \<and> githubRemoveTokens s1 (repoKey rep) = githubRemoveTokens s (repoKey rep)"
    using l by (intro cacheHit_frame [OF _ _ _ h]) (simp_all add: counts_removals_def)
  show "n (net s) \<le> n (net s') \<and> (case r of Ok t \<Rightarrow> n (net s') = n (net s) + 1 \<and>
      githubRemoveTokens s' (repoKey rep) = Some \<lparr>ConToken = t, Rate = 0\<rparr>
    | _ \<Rightarrow> githubRemoveTokens s' (repoKey rep) = githubRemoveTokens s (repoKey rep))"
    using run h s1 createRemoveToken_makes [OF l, of rep s1 r s'] by (cases h) (auto simp: andThen_def split: res.splits)
qed

section \<open>A service to run on\<close>

lemmas gh_call_defs = handleGitHubResponse_def statusOk_def tryCollectGitHubAPICallMetrics_def collectGitHubAPICallMetrics_def
  tryCollectGitHubRateLimitMetrics_def collectGitHubRateLimitMetrics_def cacheHit_def meter_def reporting_def responded_def report_defs

text \<open>A service whose state is the number of tokens it has made.\<close>

text \<open>Its reports are dropped.\<close>

definition okResponse :: "GhResponse option" where
  "okResponse = Some \<lparr>RespCode = 200, RespStatus = ''200 OK'', RespRequest = Some (''GET'', ''https://api.github.com'')\<rparr>"

definition demo_gh :: "(unit, nat) gh_api" where
  "demo_gh = \<lparr>timeNow = (\<lambda>x. 1), ghProm = \<lparr>mustRegister = (\<lambda>cs. Some), gaugeSet = (\<lambda>c ls v. Some), gaugeSetToCurrentTime = (\<lambda>c ls. Some),
       counterInc = (\<lambda>c ls. Some)\<rparr>, evicted = (\<lambda>c k x. False), newClient = (\<lambda>t. ()), b64Decode = (\<lambda>s. Inl (External ''base64'')),
     parsePKCS1 = (\<lambda>b. Inl (External ''asn1'')), signRS256 = (\<lambda>k c. Inl (External ''sign'')), tokenExpiry = (\<lambda>t. Inr (100 * minute)),
     apiRateLimits = (\<lambda>k x. ((Inr (Some (5000, 4999)), okResponse), x)), apiListInstallations = (\<lambda>k x. ((Inr [], okResponse), x)),
     apiCreateInstallationToken = (\<lambda>k i x. ((Inl (External ''404''), None), x)),
     apiGetRepository = (\<lambda>k owner name x. ((Inr \<lparr>RepoLogin = owner, RepoNameOf = name, RepoPrivate = True, RepoHTMLURL = ''https://github.com'',
       RepoGitCommitsURL = ''https://api.github.com''\<rparr>, okResponse), x)),
     apiCreateRegistrationToken = (\<lambda>k o' r x. ((Inr \<lparr>TokText = ''tok'', TokExpiresAt = 100 * minute\<rparr>, okResponse), x + 1)),
     apiCreateRemoveToken = (\<lambda>k o' r x. ((Inr \<lparr>TokText = ''tok'', TokExpiresAt = 100 * minute\<rparr>, okResponse), x + 1)),
     apiCreateTenantCredential = (\<lambda>k e u x. ((Inr \<lparr>CredToken = ''jwt'', CredURL = ''https://ado''\<rparr>, okResponse), x))\<rparr>"

definition demo_gh_env :: gh_env where
  "demo_gh_env = \<lparr>githubPAT = ''pat'', githubAppId = [], githubAppPK = [], githubInstlId = [], envOwners = ''inloco,acme'',
     envVisibilities = ''private''\<rparr>"

definition demo_gh_state :: "(unit, nat) gh" where
  "demo_gh_state = \<lparr>githubClient = None, githubClientExpiry = 0, githubRepositories = Map.empty, githubRegistrationTokens = Map.empty,
     githubRemoveTokens = Map.empty, githubTenantCredentials = Map.empty, net = 0\<rparr>"

definition demo_repo :: GhRepository where
  "demo_repo = \<lparr>RepoLogin = ''acme'', RepoNameOf = ''app'', RepoPrivate = True, RepoHTMLURL = ''https://github.com'',
     RepoGitCommitsURL = ''https://api.github.com''\<rparr>"

section \<open>Properties\<close>



text \<open>
  Claim C13. Only configured repositories are served: after any calls of the facade, whatever GitHub answers and
  whatever the cache holds from them, the repository a facade is initialised with has an owner listed in
  \<^verbatim>\<open>KUBEACTIONS_GITHUB_OWNERS\<close> and a visibility listed in \<^verbatim>\<open>KUBEACTIONS_GITHUB_VISIBILITIES\<close>.
\<close>

theorem only_configured_repositories_served:
  assumes "githubRepositories s = Map.empty"
    and "ghInit api env owner name (gh_calls api env calls s) = (Ok rep, s')"
  shows "RepoLogin rep \<in> set (split_on CHR '','' (envOwners env)) \<and>
     (RepoPrivate rep \<and> (''priv'' \<in> set (split_on CHR '','' (envVisibilities env)) \<or>
         ''private'' \<in> set (split_on CHR '','' (envVisibilities env))) \<or>
      \<not> RepoPrivate rep \<and> (''pub'' \<in> set (split_on CHR '','' (envVisibilities env)) \<or>
         ''public'' \<in> set (split_on CHR '','' (envVisibilities env))))"
proof -
  have "only_configured env s" using assms(1) by (simp add: only_configured_def)
  then have "only_configured env (gh_calls api env calls s)" by (rule gh_calls_configured)
  from ghInit_configured [OF this assms(2)] show ?thesis
    by (auto simp: configured_def split: if_splits)
qed

theorem only_configured_repositories_served_witness:
  "\<exists>rep s'. ghInit demo_gh demo_gh_env ''acme'' ''app'' (gh_calls demo_gh demo_gh_env [CallInit ''acme'' ''lib''] demo_gh_state) = (Ok rep, s') \<and>
     RepoLogin rep \<in> {''inloco'', ''acme''}"
proof -
  have "\<exists>rep s'. ghInit demo_gh demo_gh_env ''acme'' ''app'' (gh_calls demo_gh demo_gh_env [CallInit ''acme'' ''lib''] demo_gh_state) = (Ok rep, s')"
    by (simp add: ghInit_def initGitHubClient_def getGitHubRepository_def Let_def cacheGet_def repositoryAllowed_def githubOwners_def
        githubVisibilities_def addVisibility_def repoPrivate_def repoPublic_def gh_call_defs
        onNet_def demo_gh_def demo_gh_env_def demo_gh_state_def okResponse_def go_simps)
  then obtain rep s' where r: "ghInit demo_gh demo_gh_env ''acme'' ''app''
      (gh_calls demo_gh demo_gh_env [CallInit ''acme'' ''lib''] demo_gh_state) = (Ok rep, s')" by blast
  have "githubRepositories demo_gh_state = Map.empty" by (simp add: demo_gh_state_def)
  from only_configured_repositories_served [OF this r] r show ?thesis by (auto simp: demo_gh_env_def)
qed

end
