(* ===== verification/Wire.thy ===== *)
theory Wire
  imports Github_Facade
begin

text \<open>
  A wire (\<^verbatim>\<open>operator/internal/controller/actionsrunner/wire/wire.go\<close>): the registration of one runner and
  the goroutine that polls for messages, checks job requests against the policy and hands an
  admitted one over to the reconciler. The GitHub and Azure DevOps facades are the operations of a
  \<open>facade_api\<close> over their own state; a nil channel, an open and a closed one are told apart.
\<close>

section \<open>State and facades\<close>

datatype chan = ChNil | ChOpen | ChClosed

text \<open>Operations that are given the dot files may write them: they run on the files and the facade state.\<close>

record 'f facade_api =
  GhInit :: "string \<Rightarrow> string \<Rightarrow> ('f, unit) go"
  GhGitCommitsURL :: "'f \<Rightarrow> string"
  GetGitHubTenantCredential :: "RunnerEvent \<Rightarrow> ('f, string \<times> string) go"
  InitForCRUD :: "string slice \<Rightarrow> string \<Rightarrow> string \<Rightarrow> (Files option \<times> 'f, unit) go"
  InitForRun :: "string slice \<Rightarrow> (Files option \<times> 'f, unit) go"
  RefreshForRun :: "(Files option \<times> 'f, unit) go"
  InitAzureDevOpsTaskAgentSession :: "('f, unit) go"
  DeinitAzureDevOpsTaskAgentSession :: "('f, unit) go"
  GetMessage :: "64 word option \<Rightarrow> ('f, TaskAgentMessage option) go"
  DeleteMessage :: "64 word \<Rightarrow> ('f, unit) go"
  DeleteAgent :: "('f, unit) go"
  UpdateAgentRequest :: "64 word option \<Rightarrow> string \<Rightarrow> ('f, unit) go"
  InitAzureDevOpsTaskClient :: "TaskPlan option \<Rightarrow> TimelineReference option \<Rightarrow> ServiceEndpoint list \<Rightarrow> ('f, unit) go"
  UpdateRecord :: "TimelineRecord list \<Rightarrow> ('f, unit) go"
  RaisePlanEvent :: "JobEvent \<Rightarrow> ('f, unit) go"

record ('f, 'c) wire =
  wRunner :: ActionsRunner
  wDotFiles :: "Files option"
  wFac :: 'f
  jobRequests :: "nat option"
  loopClose :: chan
  invalid :: bool
  listening :: bool
  validator :: "'c rule_cache option"
  notifierClosed :: bool
  events :: nat
  counted :: "string list list"

text \<open>The libraries a wire calls besides the facades: key generation, the jq engine, JSON and JWT.\<close>

record ('q, 'c) wire_libs =
  generateKey :: "goerr + rsa_key"
  engine :: "('q, 'c, ctx_data) jq_api"
  decodePajr :: "string \<Rightarrow> goerr + PipelineAgentJobRequest"
  claimsOf :: "string \<Rightarrow> goerr + (string \<rightharpoonup> json)"

definition onFac :: "('f, 'a) go \<Rightarrow> (('f, 'c) wire, 'a) go" where
  "onFac = zoom wFac (\<lambda>f s. s\<lparr>wFac := f\<rparr>)"

definition onFiles :: "(Files option \<times> 'f, 'a) go \<Rightarrow> (('f, 'c) wire, 'a) go" where
  "onFiles = zoom (\<lambda>s. (wDotFiles s, wFac s)) (\<lambda>p s. s\<lparr>wDotFiles := fst p, wFac := snd p\<rparr>)"

text \<open>A write through \<^verbatim>\<open>w.DotFiles\<close>, which panics when it is nil.\<close>

definition onRunnerFile :: "(('f, 'c) wire \<Rightarrow> DotRunner \<Rightarrow> DotRunner) \<Rightarrow> (('f, 'c) wire, unit) go" where
  "onRunnerFile g s = (case wDotFiles s of
       None \<Rightarrow> (Panic ''nil pointer dereference'', s)
     | Some df \<Rightarrow> (Ok (), s\<lparr>wDotFiles := Some (df\<lparr>FRunner := g s (FRunner df)\<rparr>)\<rparr>))"

section \<open>Set-up and tear-down\<close>

definition GetRunnerName :: "('f, 'c) wire \<Rightarrow> string" where
  "GetRunnerName w = MetaNamespace (ArMeta (wRunner w)) @ ''/'' @ MetaName (ArMeta (wRunner w))"

definition initGH :: "'f facade_api \<Rightarrow> (('f, 'c) wire, unit) go" where
  "initGH fa =
     andThen ask (\<lambda>w.
     andThen (onFac (GhInit fa (Owner (Repository (ArSpec (wRunner w)))) (RepoName (Repository (ArSpec (wRunner w)))))) (\<lambda>_.
     onRunnerFile (\<lambda>s r. r\<lparr>GitHubUrl := GhGitCommitsURL fa (wFac s)\<rparr>)))"

definition initADO :: "'f facade_api \<Rightarrow> RunnerEvent \<Rightarrow> (('f, 'c) wire, unit) go" where
  "initADO fa ev =
     andThen (onFac (GetGitHubTenantCredential fa ev)) (\<lambda>(token, url).
     andThen (onRunnerFile (\<lambda>s r. r\<lparr>ServerUrl := url\<rparr>)) (\<lambda>_.
     andThen ask (\<lambda>w.
     onFiles (InitForCRUD fa (Labels (ArSpec (wRunner w))) token url))))"

text \<open>\<^verbatim>\<open>strings.ShortenString(s, 64)\<close>.\<close>

definition agentNameFor :: "ActionsRunner \<Rightarrow> string" where
  "agentNameFor ar = take 64 (''KA '' @ MetaNamespace (ArMeta ar) @ '' '' @ MetaName (ArMeta ar))"

definition initDotFiles :: "('q, 'c) wire_libs \<Rightarrow> (('f, 'c) wire, unit) go" where
  "initDotFiles libs =
     andThen ask (\<lambda>w. if wDotFiles w \<noteq> None then ret () else
     andThen (lift_res (NewRSAParameters (generateKey libs))) (\<lambda>rsa.
     upd (\<lambda>s. s\<lparr>wDotFiles := Some (zeroFiles\<lparr>
       FRunner := (FRunner zeroFiles)\<lparr>AgentName := agentNameFor (wRunner s), PoolId := 1, PoolName := ''Default'',
         DisableUpdate := True, WorkFolder := ''_work''\<rparr>,
       FCredentials := (FCredentials zeroFiles)\<lparr>CredScheme := ''OAuth''\<rparr>,
       FRSAParameters := rsa\<rparr>)\<rparr>)))"

definition wireInit :: "'f facade_api \<Rightarrow> ('q, 'c) wire_libs \<Rightarrow> (('f, 'c) wire, unit) go" where
  "wireInit fa libs =
     andThen (initDotFiles libs) (\<lambda>_.
     andThen (initGH fa) (\<lambda>_.
     andThen (initADO fa RunnerEventRegister) (\<lambda>_.
     andThen ask (\<lambda>w.
     andThen (onFiles (InitForRun fa (Labels (ArSpec (wRunner w))))) (\<lambda>_.
     andThen (onFac (InitAzureDevOpsTaskAgentSession fa)) (\<lambda>_.
     andThen (onFac (DeinitAzureDevOpsTaskAgentSession fa)) (\<lambda>_.
     andThen (upd (\<lambda>s. if jobRequests s = None then s\<lparr>jobRequests := Some 0\<rparr> else s)) (\<lambda>_.
     upd (\<lambda>s. if validator s = None then s\<lparr>validator := Some NewPolicyValidator\<rparr> else s)))))))))"

definition Destroy :: "'f facade_api \<Rightarrow> (('f, 'c) wire, unit) go" where
  "Destroy fa =
     andThen (initGH fa) (\<lambda>_.
     andThen (initADO fa RunnerEventRemove) (\<lambda>_.
     onFac (DeleteAgent fa)))"

definition isClosed :: "('f, 'c) wire \<Rightarrow> bool" where
  "isClosed w = (case loopClose w of ChNil \<Rightarrow> True | ChOpen \<Rightarrow> False | ChClosed \<Rightarrow> True)"

text \<open>\<^verbatim>\<open>close\<close> of a channel that is nil or closed panics; \<^verbatim>\<open>Close\<close> checks first.\<close>

definition closeChan :: "(('f, 'c) wire, unit) go" where
  "closeChan s = (case loopClose s of
       ChOpen \<Rightarrow> (Ok (), s\<lparr>loopClose := ChClosed\<rparr>)
     | ChNil \<Rightarrow> (Panic ''close of nil channel'', s)
     | ChClosed \<Rightarrow> (Panic ''close of closed channel'', s))"

definition Close :: "'f facade_api \<Rightarrow> (('f, 'c) wire, unit) go" where
  "Close fa =
     andThen ask (\<lambda>w.
     andThen (if \<not> isClosed w then closeChan else ret ()) (\<lambda>_.
     onFac (DeinitAzureDevOpsTaskAgentSession fa)))"

text \<open>\<^verbatim>\<open>if err := m(); err != nil { logger.Error(err, ..) }\<close>\<close>

definition logged :: "('s, unit) go \<Rightarrow> ('s, unit) go" where
  "logged m = attempt m (\<lambda>_. ret ())"

definition Init :: "'f facade_api \<Rightarrow> ('q, 'c) wire_libs \<Rightarrow> (('f, 'c) wire, unit) go" where
  "Init fa libs =
     attempt (wireInit fa libs) (\<lambda>r. case r of
         Inr _ \<Rightarrow> ret ()
       | Inl err \<Rightarrow>
           andThen (logged (Destroy fa)) (\<lambda>_.
           andThen (logged (Close fa)) (\<lambda>_.
           andThen (upd (\<lambda>s. s\<lparr>invalid := True\<rparr>)) (\<lambda>_. fail err))))"

definition Valid :: "('f, 'c) wire \<Rightarrow> bool" where
  "Valid w \<longleftrightarrow> \<not> invalid w"

definition Listening :: "('f, 'c) wire \<Rightarrow> bool" where
  "Listening w = listening w"

section \<open>A violated policy\<close>

definition issuesForViolatedRule :: "ActionsRunnerPolicyRule option \<Rightarrow> (string \<times> string) list res" where
  "issuesForViolatedRule rule =
     bindRes (nonNil ''violatedRule'' rule) (\<lambda>r.
     Ok [(''error'', ''This job was not allowed to run because it violated a runner policy: '' @ r)])"

fun countIssues :: "(string \<times> string) list \<Rightarrow> nat \<times> nat \<Rightarrow> (nat \<times> nat) res" where
  "countIssues [] acc = Ok acc"
| "countIssues (i # is) (es, ws) =
     (if fst i = ''error'' then countIssues is (es + 1, ws)
      else if fst i = ''warning'' then countIssues is (es, ws + 1)
      else Err (ErrorString (''unknown issue type: '' @ fst i)))"

definition timelineRecordsForViolatedRule ::
    "string \<Rightarrow> PipelineAgentJobRequest option \<Rightarrow> ActionsRunnerPolicyRule option \<Rightarrow> TimelineRecord list res" where
  "timelineRecordsForViolatedRule worker pajr rule =
     bindRes (nonNil ''pajr'' pajr) (\<lambda>p.
     bindRes (issuesForViolatedRule rule) (\<lambda>issues.
     bindRes (countIssues issues (0, 0)) (\<lambda>(errorCount, warningCount).
     Ok [\<lparr>TrType = trtString JobTimelineRecordType, TrId = JobId p, TrRefName = JobName p, TrName = JobDisplayName p,
          TrState = ''completed'', TrResult = ''failed'', TrWorkerName = worker, TrIssues = issues,
          TrErrorCount = errorCount, TrWarningCount = warningCount\<rparr>])))"

definition onPolicyViolation ::
    "'f facade_api \<Rightarrow> ('q, 'c) wire_libs \<Rightarrow> PipelineAgentJobRequest option \<Rightarrow> ActionsRunnerPolicyRule option \<Rightarrow>
     (('f, 'c) wire, unit) go" where
  "onPolicyViolation fa libs pajr rule =
     andThen (lift_res (nonNil ''violatedRule'' rule)) (\<lambda>_.
     andThen (lift_res (nonNil ''pajr'' pajr)) (\<lambda>p.
     andThen (lift_res (nonNil ''pajr.JobId'' (JobId p))) (\<lambda>_.
     andThen (lift_res (nonNil ''pajr.RequestId'' (RequestId p))) (\<lambda>_.
     andThen (lift_res (nonNil ''pajr.Resources'' (ReqEndpoints p))) (\<lambda>res.
     andThen (lift_res (nonNil ''pajr.Resources.Endpoints'' res)) (\<lambda>endpoints.
     andThen ask (\<lambda>w.
     andThen (lift_res (timelineRecordsForViolatedRule (GetRunnerName w) pajr rule)) (\<lambda>records.
     andThen (lift_res (GetOrchestrationId (claimsOf libs) endpoints)) (\<lambda>orchestrationId.
     andThen (onFac (UpdateAgentRequest fa (RequestId p) orchestrationId)) (\<lambda>_.
     andThen (onFac (InitAzureDevOpsTaskClient fa (Plan p) (Timeline p) endpoints)) (\<lambda>_.
     andThen (onFac (UpdateRecord fa records)) (\<lambda>_.
     onFac (RaisePlanEvent fa \<lparr>JeName = jetString JobCompleted, JeJobId = JobId p, JeRequestId = RequestId p,
       JeResult = ''failed''\<rparr>)))))))))))))"

section \<open>The listener\<close>

text \<open>\<^verbatim>\<open>if err != nil { panic(err) }\<close>\<close>

definition must :: "('s, 'a) go \<Rightarrow> ('s, 'a) go" where
  "must m = attempt m (\<lambda>r. case r of Inr x \<Rightarrow> ret x | Inl _ \<Rightarrow> panic ''panic(err)'')"

definition validate :: "('q, 'c) wire_libs \<Rightarrow> PipelineAgentJobRequest \<Rightarrow> (('f, 'c) wire, ActionsRunnerPolicyRule option) go" where
  "validate libs pajr s = (case validator s of
       None \<Rightarrow> (Panic ''nil pointer dereference'', s)
     | Some cache \<Rightarrow> (case Validate (engine libs) (Policy (ArSpec (wRunner s))) (ContextData pajr) cache of
           (r, cache') \<Rightarrow> (r, s\<lparr>validator := Some cache'\<rparr>)))"

datatype turn_out = TurnNext "64 word option" | TurnBreak | TurnBlocked

text \<open>
  \<^verbatim>\<open>w.jobRequests <- struct{}{}\<close> on a channel of capacity 1: it blocks when the channel is full
  or nil. The notification blocks until the reconciler takes it, and panics on a closed channel.
\<close>

definition handOver :: "(('f, 'c) wire, turn_out) go" where
  "handOver s = (if jobRequests s = Some 0
     then (if notifierClosed s then (Panic ''send on closed channel'', s\<lparr>jobRequests := Some 1\<rparr>)
           else (Ok TurnBreak, s\<lparr>jobRequests := Some 1, events := events s + 1\<rparr>))
     else (Ok TurnBlocked, s))"

definition acknowledge :: "'f facade_api \<Rightarrow> 64 word option \<Rightarrow> Message \<Rightarrow> (('f, 'c) wire, turn_out) go" where
  "acknowledge fa lastId message =
     andThen (must (onFac (DeleteMessage fa (MsgId message)))) (\<lambda>_.
     andThen (if MsgTypeOf message = MessageTypeAgentRefresh then must (onFac (DeleteAgent fa)) else ret ()) (\<lambda>_.
     ret (TurnNext lastId)))"

text \<open>\<open>counted\<close> lists the label values \<^verbatim>\<open>metrics.IncGitHubActionsEventCounter\<close> is called with: repository, runner, event.\<close>

definition countEvent :: "Message \<Rightarrow> (('f, 'c) wire, unit) go" where
  "countEvent message =
     upd (\<lambda>w. w\<lparr>counted := counted w @ [[MetaNamespace (ArMeta (wRunner w)), GetRunnerName w, MsgTypeOf message]]\<rparr>)"

definition dispatchMessage :: "'f facade_api \<Rightarrow> ('q, 'c) wire_libs \<Rightarrow> 64 word option \<Rightarrow> Message \<Rightarrow> (('f, 'c) wire, turn_out) go" where
  "dispatchMessage fa libs lastId message =
     (if MsgTypeOf message = MessageTypePipelineAgentJobRequest then
       andThen (must (lift_res (toPipelineAgentJobRequest (decodePajr libs) (Some message)))) (\<lambda>pajr.
       andThen (must (validate libs pajr)) (\<lambda>violated. case violated of
           None \<Rightarrow> handOver
         | Some rule \<Rightarrow>
             andThen (logged (onPolicyViolation fa libs (Some pajr) (Some rule))) (\<lambda>_.
             acknowledge fa lastId message)))
      else acknowledge fa lastId message)"

definition handleTaMessage :: "'f facade_api \<Rightarrow> ('q, 'c) wire_libs \<Rightarrow> TaskAgentMessage \<Rightarrow> (('f, 'c) wire, turn_out) go" where
  "handleTaMessage fa libs ta =
     andThen (must (lift_res (toMessage ta))) (\<lambda>message.
     andThen (countEvent message) (\<lambda>_. dispatchMessage fa libs (TaMessageId ta) message))"

definition listenTurn :: "'f facade_api \<Rightarrow> ('q, 'c) wire_libs \<Rightarrow> 64 word option \<Rightarrow> (('f, 'c) wire, turn_out) go" where
  "listenTurn fa libs lastId =
     andThen (must (onFiles (RefreshForRun fa))) (\<lambda>_.
     andThen (must (onFac (GetMessage fa lastId))) (\<lambda>found. case found of
         None \<Rightarrow> ret (TurnNext lastId)
       | Some ta \<Rightarrow> handleTaMessage fa libs ta))"

datatype loop_out = LoopDone | LoopStuck | LoopGoing

text \<open>\<open>LoopGoing\<close> after the given number of turns, \<open>LoopStuck\<close> when a send blocks.\<close>

fun listenLoop :: "'f facade_api \<Rightarrow> ('q, 'c) wire_libs \<Rightarrow> nat \<Rightarrow> 64 word option \<Rightarrow> (('f, 'c) wire, loop_out) go" where
  "listenLoop fa libs 0 lastId = ret LoopGoing"
| "listenLoop fa libs (Suc n) lastId =
     andThen ask (\<lambda>w. if isClosed w then ret LoopDone else
     andThen (listenTurn fa libs lastId) (\<lambda>out. case out of
         TurnNext lastId' \<Rightarrow> listenLoop fa libs n lastId'
       | TurnBreak \<Rightarrow> ret LoopDone
       | TurnBlocked \<Rightarrow> ret LoopStuck))"

text \<open>A failure before the loop marks the wire invalid and panics.\<close>

definition orGone :: "(('f, 'c) wire, unit) go \<Rightarrow> (('f, 'c) wire, unit) go" where
  "orGone m = attempt m (\<lambda>r. case r of
       Inr _ \<Rightarrow> ret ()
     | Inl _ \<Rightarrow> andThen (upd (\<lambda>s. s\<lparr>invalid := True\<rparr>)) (\<lambda>_. panic ''panic(err)''))"

definition listenBody :: "'f facade_api \<Rightarrow> ('q, 'c) wire_libs \<Rightarrow> nat \<Rightarrow> (('f, 'c) wire, loop_out) go" where
  "listenBody fa libs n =
     andThen (orGone (onFiles (RefreshForRun fa))) (\<lambda>_.
     andThen (orGone (onFac (InitAzureDevOpsTaskAgentSession fa))) (\<lambda>_.
     listenLoop fa libs n None))"

definition trySendEvent :: "(('f, 'c) wire, unit) go" where
  "trySendEvent s = (if notifierClosed s then (Err (ErrorString ''send on closed channel''), s)
     else (Ok (), s\<lparr>events := events s + 1\<rparr>))"

definition deferred :: "'f facade_api \<Rightarrow> bool \<Rightarrow> (('f, 'c) wire, unit) go" where
  "deferred fa panicked =
     andThen (upd (\<lambda>s. s\<lparr>listening := False\<rparr>)) (\<lambda>_.
     andThen (logged (Close fa)) (\<lambda>_.
     if panicked then logged trySendEvent else ret ()))"

text \<open>The goroutine of \<^verbatim>\<open>Listen\<close>: the deferred function runs when the body returns or panics.\<close>

definition listenGoroutine :: "'f facade_api \<Rightarrow> ('q, 'c) wire_libs \<Rightarrow> nat \<Rightarrow> (('f, 'c) wire, loop_out) go" where
  "listenGoroutine fa libs n s = (case listenBody fa libs n s of
       (Ok LoopDone, s1) \<Rightarrow> andThen (deferred fa False) (\<lambda>_. ret LoopDone) s1
     | (Ok out, s1) \<Rightarrow> (Ok out, s1)
     | (Err e, s1) \<Rightarrow> (Err e, s1)
     | (Panic p, s1) \<Rightarrow> andThen (deferred fa True) (\<lambda>_. ret LoopDone) s1)"

text \<open>
  \<^verbatim>\<open>Listen\<close> up to the start of the goroutine, telling whether it starts one, and its last statement.
\<close>

definition listenOpen :: "(('f, 'c) wire, bool) go" where
  "listenOpen s = (if listening s then (Ok False, s) else (Ok True, s\<lparr>loopClose := ChOpen\<rparr>))"

definition listenMark :: "(('f, 'c) wire, unit) go" where
  "listenMark = upd (\<lambda>s. s\<lparr>listening := True\<rparr>)"

text \<open>\<^verbatim>\<open>Listen\<close> as its caller sees it, telling whether a goroutine was started.\<close>

definition Listen :: "(('f, 'c) wire, bool) go" where
  "Listen = andThen listenOpen (\<lambda>started. if started then andThen listenMark (\<lambda>_. ret True) else ret False)"

text \<open>
  \<^verbatim>\<open>select { case <-w.JobRequests(): .. default: .. }\<close>: whether a pending request was taken.
\<close>

definition takeJobRequest :: "(('f, 'c) wire, bool) go" where
  "takeJobRequest s = (case jobRequests s of
       Some (Suc n) \<Rightarrow> (Ok True, s\<lparr>jobRequests := Some n\<rparr>)
     | _ \<Rightarrow> (Ok False, s))"

section \<open>What the facades leave alone\<close>

definition wview :: "('f, 'c) wire \<Rightarrow> ActionsRunner \<times> nat option \<times> nat \<times> 'c rule_cache option \<times> bool" where
  "wview s = (wRunner s, jobRequests s, events s, validator s, notifierClosed s)"

lemma keeps_onFac [intro]: "keeps wview (onFac m)"
  by (rule keepsI) (simp add: wview_def onFac_def zoom_def split: prod.splits)

lemma keeps_onFiles [intro]: "keeps wview (onFiles m)"
  by (rule keepsI) (simp add: wview_def onFiles_def zoom_def split: prod.splits)

lemma keeps_must [intro]: "keeps wview m \<Longrightarrow> keeps wview (must m)"
  by (auto simp: must_def intro!: keeps_attempt split: sum.splits)

lemma keeps_logged [intro]: "keeps wview m \<Longrightarrow> keeps wview (logged m)"
  by (auto simp: logged_def intro!: keeps_attempt)

lemma keeps_violation [intro]: "keeps wview (onPolicyViolation fa libs p r)"
  unfolding onPolicyViolation_def
  by (intro keeps_andThen keeps_onFac keeps_basic)

lemma keeps_acknowledge [intro]: "keeps wview (acknowledge fa l m)"
  unfolding acknowledge_def
  by (intro keeps_andThen keeps_must keeps_onFac keeps_basic) auto

lemma must_Ok [simp]: "must m s = (Ok x, t) \<longleftrightarrow> m s = (Ok x, t)"
  by (auto simp: must_def attempt_def go_simps split: prod.splits res.splits)

section \<open>The policy decides\<close>

lemma compileRule_sound: "cache_sound jq s \<Longrightarrow> compileRule jq r s = (x, s') \<Longrightarrow> cache_sound jq s'"
  using rules.fetch_sound [of jq s r] by simp

lemma validateMust_sound: "cache_sound jq s \<Longrightarrow> validateMust jq rs cd s = (x, s') \<Longrightarrow> cache_sound jq s'"
proof (induction rs arbitrary: s)
  case (Cons r rs)
  obtain y s1 where c: "compileRule jq r s = (y, s1)" by fastforce
  have "cache_sound jq s1" by (rule compileRule_sound [OF Cons.prems(1) c])
  then show ?case
    using Cons.prems(2) Cons.IH [of s1] c
    by (cases y) (auto simp: validateMust_body andThen_def ret_def split: if_splits)
qed (simp add: ret_def)

lemma validateMustNot_sound: "cache_sound jq s \<Longrightarrow> validateMustNot jq rs cd s = (x, s') \<Longrightarrow> cache_sound jq s'"
proof (induction rs arbitrary: s)
  case (Cons r rs)
  obtain y s1 where c: "compileRule jq r s = (y, s1)" by fastforce
  have "cache_sound jq s1" by (rule compileRule_sound [OF Cons.prems(1) c])
  then show ?case
    using Cons.prems(2) Cons.IH [of s1] c
    by (cases y) (auto simp: validateMustNot_body andThen_def ret_def split: if_splits)
qed (simp add: ret_def)

lemma Validate_sound:
  assumes s: "cache_sound jq s" and run: "Validate jq p kvs s = (x, s')"
  shows "cache_sound jq s'"
proof (cases "\<exists>l cd. kvs = Some l \<and> flattenContext l [] = Ok cd")
  case False
  then have "s' = s"
    using run by (cases kvs; cases "flattenContext (the kvs) []") (auto simp: Validate_def panic_def andThen_def lift_res_def)
  with s show ?thesis by simp
next
  case True
  then obtain l cd where l: "kvs = Some l" "flattenContext l [] = Ok cd" by blast
  obtain y s1 where m: "validateMust jq (elems (Must p)) cd s = (y, s1)" by fastforce
  have s1: "cache_sound jq s1" by (rule validateMust_sound [OF s m])
  obtain z s2 where n: "validateMustNot jq (elems (MustNot p)) cd s1 = (z, s2)" by fastforce
  have "cache_sound jq s2" by (rule validateMustNot_sound [OF s1 n])
  then show ?thesis
    using run l m n s1
    by (cases y; cases z) (auto simp: Validate_def andThen_def lift_res_def ret_def split: option.splits)
qed

text \<open>What a job request that passes satisfies.\<close>

definition policy_allows :: "('q, 'c, ctx_data) jq_api \<Rightarrow> ActionsRunnerPolicy \<Rightarrow> PipelineAgentJobRequest \<Rightarrow> bool" where
  "policy_allows jq p pajr \<longleftrightarrow> (\<exists>kvs cd. ContextData pajr = Some kvs \<and> flattenContext kvs [] = Ok cd \<and>
     (\<forall>r\<in>set (elems (Must p)). holds jq cd r) \<and> (\<forall>r\<in>set (elems (MustNot p)). \<not> holds jq cd r))"

lemma Validate_allows:
  assumes s: "cache_sound jq s" and adm: "\<forall>r\<in>policy_rules p. admissible jq r"
    and run: "Validate jq p (ContextData pajr) s = (Ok v, s')"
  shows "v = None \<longleftrightarrow> policy_allows jq p pajr"
proof -
  obtain l cd where l: "ContextData pajr = Some l" "flattenContext l [] = Ok cd"
    using run by (cases "ContextData pajr"; cases "flattenContext (the (ContextData pajr)) []")
      (auto simp: Validate_def panic_def andThen_def lift_res_def)
  have "v = verdict jq p cd"
    using Validate_verdict [OF s _ _ l(2), where p = p] admissible_compiles [OF adm] run l(1) by auto
  then show ?thesis
    using verdict_None [of jq p cd] l by (auto simp: policy_allows_def)
qed

text \<open>
  The invariant of the listener, with respect to a starting state: the runner is the same, the
  cache is sound, and a job request is pending only if it was before.
\<close>

definition listens :: "('q, 'c, ctx_data) jq_api \<Rightarrow> ('f, 'c) wire \<Rightarrow> ('f, 'c) wire \<Rightarrow> bool" where
  "listens jq s0 s \<longleftrightarrow> wRunner s = wRunner s0 \<and> jobRequests s = jobRequests s0 \<and> events s = events s0 \<and>
     notifierClosed s = notifierClosed s0 \<and> (\<forall>c. validator s = Some c \<longrightarrow> cache_sound jq c)"

lemma listens_view: "listens jq s0 s \<Longrightarrow> wview t = wview s \<Longrightarrow> listens jq s0 t"
  by (simp add: listens_def wview_def)

lemma validate_listens:
  assumes "listens (engine libs) s0 s" and "validate libs pajr s = (r, t)"
  shows "listens (engine libs) s0 t"
    and "r = Ok v \<Longrightarrow> \<forall>r\<in>policy_rules (Policy (ArSpec (wRunner s0))). admissible (engine libs) r \<Longrightarrow>
      v = None \<longleftrightarrow> policy_allows (engine libs) (Policy (ArSpec (wRunner s0))) pajr"
proof -
  let ?jq = "engine libs"
  let ?p = "Policy (ArSpec (wRunner s0))"
  have "listens ?jq s0 t \<and> (\<forall>v. r = Ok v \<longrightarrow> (\<forall>r\<in>policy_rules ?p. admissible ?jq r) \<longrightarrow>
      (v = None \<longleftrightarrow> policy_allows ?jq ?p pajr))"
  proof (cases "validator s")
    case None
    then show ?thesis using assms by (auto simp: validate_def)
  next
    case (Some c)
    obtain c' where run: "Validate ?jq ?p (ContextData pajr) c = (r, c')" and t: "t = s\<lparr>validator := Some c'\<rparr>"
      using assms Some by (auto simp: validate_def listens_def split: prod.splits)
    have c: "cache_sound ?jq c" using assms(1) Some by (simp add: listens_def)
    have "cache_sound ?jq c'" by (rule Validate_sound [OF c run])
    then have "listens ?jq s0 t" using assms(1) by (simp add: listens_def t)
    then show ?thesis using Validate_allows [OF c] run by blast
  qed
  then show "listens ?jq s0 t" and "r = Ok v \<Longrightarrow> \<forall>r\<in>policy_rules ?p. admissible ?jq r \<Longrightarrow>
      v = None \<longleftrightarrow> policy_allows ?jq ?p pajr" by blast+
qed

text \<open>A job request the policy allows, in a message of that type.\<close>

definition allowed_request :: "('q, 'c) wire_libs \<Rightarrow> ActionsRunnerPolicy \<Rightarrow> Message \<Rightarrow> bool" where
  "allowed_request libs p msg \<longleftrightarrow> MsgTypeOf msg = MessageTypePipelineAgentJobRequest \<and>
     (\<exists>pajr. decodePajr libs (MsgBody msg) = Inr pajr \<and> policy_allows (engine libs) p pajr)"

text \<open>A message is counted, and nothing else a listener looks at changes by that.\<close>

lemma keeps_countEvent [intro]: "keeps wview (countEvent msg)" "keeps wFac (countEvent msg)"
  unfolding countEvent_def by (intro keeps_upd, simp add: wview_def)+

lemma handleTaMessage_cases:
  assumes "handleTaMessage fa libs ta s = (r, t)"
  obtains msg u where "toMessage ta = Ok msg" "wview u = wview s" "wFac u = wFac s" "dispatchMessage fa libs (TaMessageId ta) msg u = (r, t)"
  | "\<And>msg. toMessage ta \<noteq> Ok msg" "t = s" "\<And>x. r \<noteq> Ok x"
proof (cases "toMessage ta")
  case (Ok msg)
  obtain u where u: "countEvent msg s = (Ok (), u)" by (simp add: countEvent_def upd_def)
  then show ?thesis
    using that(1) [OF Ok keepsD [OF keeps_countEvent(1) u] keepsD [OF keeps_countEvent(2) u]] assms Ok
    by (simp add: handleTaMessage_def andThen_def must_def attempt_def lift_res_def ret_def)
qed (use assms that(2) in \<open>auto simp: handleTaMessage_def must_def go_simps\<close>)

lemma acknowledge_next: "acknowledge fa l msg u = (Ok out, t) \<Longrightarrow> wview t = wview u \<and> out = TurnNext l"
  using keepsD [OF keeps_acknowledge] by (fastforce simp: acknowledge_def andThen_Ok_iff ret_def)

lemma dispatchMessage_outcome:
  assumes inv: "listens (engine libs) s0 s"
    and adm: "\<forall>r\<in>policy_rules (Policy (ArSpec (wRunner s0))). admissible (engine libs) r"
    and run: "dispatchMessage fa libs l msg s = (Ok out, t)"
  shows "case out of
      TurnNext l \<Rightarrow> listens (engine libs) s0 t
    | TurnBlocked \<Rightarrow> listens (engine libs) s0 t
    | TurnBreak \<Rightarrow> jobRequests s0 = Some 0 \<and> jobRequests t = Some 1 \<and> events t = events s0 + 1 \<and> wFac t = wFac s \<and>
        allowed_request libs (Policy (ArSpec (wRunner s0))) msg"
proof (cases "MsgTypeOf msg = MessageTypePipelineAgentJobRequest")
  case False
  then have "acknowledge fa l msg s = (Ok out, t)" using run by (simp add: dispatchMessage_def)
  then show ?thesis using acknowledge_next listens_view [OF inv] by fastforce
next
  case True
  then obtain pajr s1 v where p: "decodePajr libs (MsgBody msg) = Inr pajr" "validate libs pajr s = (Ok v, s1)"
      and rest: "(case v of None \<Rightarrow> handOver
        | Some rule \<Rightarrow> andThen (logged (onPolicyViolation fa libs (Some pajr) (Some rule))) (\<lambda>_. acknowledge fa l msg)) s1 = (Ok out, t)"
    using run by (auto simp: dispatchMessage_def andThen_Ok_iff lift_res_def toPipelineAgentJobRequest_def fromSum_Ok)
  note s1 = validate_listens(1) [OF inv p(2)]
  have fac: "wFac s1 = wFac s" using p(2) by (auto simp: validate_def split: option.splits prod.splits)
  show ?thesis
  proof (cases v)
    case None
    then have "policy_allows (engine libs) (Policy (ArSpec (wRunner s0))) pajr"
      using validate_listens(2) [OF inv p(2) refl adm] by simp
    then show ?thesis
      using rest None s1 True p(1) fac by (auto simp: handOver_def listens_def allowed_request_def split: if_splits)
  next
    case (Some rule)
    then obtain s2 where s2: "logged (onPolicyViolation fa libs (Some pajr) (Some rule)) s1 = (Ok (), s2)"
        "acknowledge fa l msg s2 = (Ok out, t)"
      using rest by (auto simp: andThen_Ok_iff)
    have "wview s2 = wview s1" using s2(1) by (rule keepsD [rotated]) auto
    then show ?thesis using acknowledge_next [OF s2(2)] listens_view [OF s1] by fastforce
  qed
qed

lemma handleTaMessage_outcome:
  assumes inv: "listens (engine libs) s0 s"
    and adm: "\<forall>r\<in>policy_rules (Policy (ArSpec (wRunner s0))). admissible (engine libs) r"
    and run: "handleTaMessage fa libs ta s = (Ok out, t)"
  shows "case out of
      TurnNext l \<Rightarrow> listens (engine libs) s0 t
    | TurnBlocked \<Rightarrow> listens (engine libs) s0 t
    | TurnBreak \<Rightarrow> jobRequests s0 = Some 0 \<and> jobRequests t = Some 1 \<and> events t = events s0 + 1 \<and> wFac t = wFac s \<and>
        (\<exists>msg. toMessage ta = Ok msg \<and> allowed_request libs (Policy (ArSpec (wRunner s0))) msg)"
  using run
proof (cases rule: handleTaMessage_cases)
  case (1 msg u)
  from dispatchMessage_outcome [OF listens_view [OF inv 1(2)] adm 1(4)] 1(1,3) show ?thesis by (auto split: turn_out.splits)
qed blast

lemma listenLoop_outcome:
  assumes adm: "\<forall>r\<in>policy_rules (Policy (ArSpec (wRunner s0))). admissible (engine libs) r"
  shows "listens (engine libs) s0 s \<Longrightarrow> listenLoop fa libs n lastId s = (Ok out, t) \<Longrightarrow>
    listens (engine libs) s0 t \<or>
    out = LoopDone \<and> jobRequests s0 = Some 0 \<and> jobRequests t = Some 1 \<and> events t = events s0 + 1 \<and>
      (\<exists>msg. allowed_request libs (Policy (ArSpec (wRunner s0))) msg)"
proof (induction n arbitrary: lastId s)
  case (Suc n)
  show ?case
  proof (cases "isClosed s")
    case True
    then show ?thesis using Suc.prems by (simp add: go_simps)
  next
    case False
    then obtain o' s1 where turn: "listenTurn fa libs lastId s = (Ok o', s1)"
        and rest: "(case o' of TurnNext l \<Rightarrow> listenLoop fa libs n l | TurnBreak \<Rightarrow> ret LoopDone | TurnBlocked \<Rightarrow> ret LoopStuck) s1 = (Ok out, t)"
      using Suc.prems(2) by (auto simp: andThen_Ok_iff ask_def)
    from turn obtain s2 s3 found where g: "onFiles (RefreshForRun fa) s = (Ok (), s2)" "onFac (GetMessage fa lastId) s2 = (Ok found, s3)"
        and h: "(case found of None \<Rightarrow> ret (TurnNext lastId) | Some ta \<Rightarrow> handleTaMessage fa libs ta) s3 = (Ok o', s1)"
      by (auto simp: listenTurn_def andThen_Ok_iff)
    have "wview s3 = wview s" using keepsD [OF keeps_onFiles g(1)] keepsD [OF keeps_onFac g(2)] by simp
    then have s3: "listens (engine libs) s0 s3" using Suc.prems(1) listens_view by blast
    show ?thesis
    proof (cases found)
      case None
      then have "o' = TurnNext lastId" "s1 = s3" using h by (simp_all add: ret_def)
      then show ?thesis using rest Suc.IH [OF s3] by simp
    next
      case (Some ta)
      then have "handleTaMessage fa libs ta s3 = (Ok o', s1)" using h by simp
      note out = handleTaMessage_outcome [OF s3 adm this]
      show ?thesis
        using out rest Suc.IH [of s1] by (cases o') (auto simp: ret_def)
    qed
  qed
qed (auto simp: ret_def)

section \<open>A service to run on\<close>

text \<open>Facades whose state is the list of messages still to be fetched; an empty list fails.\<close>

definition demo_facades :: "TaskAgentMessage list facade_api" where
  "demo_facades = \<lparr>GhInit = (\<lambda>o' n. ret ()), GhGitCommitsURL = (\<lambda>f. ''https://github.com''),
     GetGitHubTenantCredential = (\<lambda>e. ret (''tok'', ''https://ado'')), InitForCRUD = (\<lambda>l t u. ret ()),
     InitForRun = (\<lambda>l. ret ()), RefreshForRun = ret (), InitAzureDevOpsTaskAgentSession = ret (),
     DeinitAzureDevOpsTaskAgentSession = ret (),
     GetMessage = (\<lambda>l f. case f of [] \<Rightarrow> (Err (External ''connection reset''), []) | m # ms \<Rightarrow> (Ok (Some m), ms)),
     DeleteMessage = (\<lambda>i. ret ()), DeleteAgent = ret (), UpdateAgentRequest = (\<lambda>r o'. ret ()),
     InitAzureDevOpsTaskClient = (\<lambda>p t e. ret ()), UpdateRecord = (\<lambda>rs. ret ()), RaisePlanEvent = (\<lambda>e. ret ())\<rparr>"

definition demo_libs :: "(string, string) wire_libs" where
  "demo_libs = \<lparr>generateKey = Inl (External ''entropy''), engine = demo_engine,
     decodePajr = (\<lambda>b. Inr \<lparr>Plan = None, Timeline = None, JobId = None, JobDisplayName = None, JobName = None, RequestId = None,
       ReqEndpoints = None, ContextData = Some [(''ref'', PCD 3 [] [] [] (b = ''main'') ''0'')]\<rparr>),
     claimsOf = (\<lambda>t. Inl (External ''no token''))\<rparr>"

definition job_message :: "string \<Rightarrow> TaskAgentMessage" where
  "job_message body = \<lparr>TaMessageId = Some 7, TaMessageType = Some ''PipelineAgentJobRequest'', TaBody = Some body, TaIv = None\<rparr>"

definition demo_wire :: "TaskAgentMessage list \<Rightarrow> (TaskAgentMessage list, string) wire" where
  "demo_wire ms = \<lparr>wRunner = zeroRunner\<lparr>ArSpec := emptySpec\<lparr>Policy := \<lparr>Must = Some [''.ref''], MustNot = None\<rparr>\<rparr>\<rparr>,
     wDotFiles = Some zeroFiles, wFac = ms, jobRequests = Some 0, loopClose = ChOpen, invalid = False, listening = False,
     validator = Some NewPolicyValidator, notifierClosed = False, events = 0, counted = []\<rparr>"

lemmas wire_demo_defs =
  demo_facades_def demo_libs_def demo_engine_def job_message_def demo_wire_def zeroRunner_def emptySpec_def

lemma demo_admissible: "\<forall>r\<in>policy_rules (Policy (ArSpec (wRunner (demo_wire ms)))). admissible (engine demo_libs) r"
  by (simp add: policy_rules_def admissible_def wire_demo_defs)

lemma demo_listens: "listens (engine demo_libs) (demo_wire ms) (demo_wire ms)"
  by (simp add: listens_def demo_wire_def NewPolicyValidator_def cache_sound_def)

section \<open>Properties\<close>



text \<open>
  Claim C10. An allowed job is handed over and left for the runner to acknowledge: with room for it and the
  reconciler listening, the turn that receives it ends the loop, makes it pending, notifies once, and
  calls no facade after fetching the message.
\<close>

theorem allowed_job_is_handed_over:
  assumes "\<forall>r\<in>policy_rules (Policy (ArSpec (wRunner s))). admissible (engine libs) r"
    and "validator s = Some c" and "cache_sound (engine libs) c"
    and "toMessage ta = Ok msg" and "allowed_request libs (Policy (ArSpec (wRunner s))) msg"
    and "jobRequests s = Some 0" and "\<not> notifierClosed s"
  shows "\<exists>t. handleTaMessage fa libs ta s = (Ok TurnBreak, t) \<and> jobRequests t = Some 1 \<and>
     events t = events s + 1 \<and> wFac t = wFac s"
proof -
  let ?p = "Policy (ArSpec (wRunner s))"
  obtain pajr where p: "decodePajr libs (MsgBody msg) = Inr pajr" "policy_allows (engine libs) ?p pajr"
    using assms(5) by (auto simp: allowed_request_def)
  obtain kvs cd where k: "ContextData pajr = Some kvs" "flattenContext kvs [] = Ok cd"
    using p(2) by (auto simp: policy_allows_def)
  obtain v c' where v: "Validate (engine libs) ?p (ContextData pajr) c = (Ok v, c')"
    using Validate_verdict [OF assms(3) _ _ k(2), where p = ?p] admissible_compiles [OF assms(1)] by (auto simp: k(1))
  have "v = None" using Validate_allows [OF assms(3,1) v] p(2) by simp
  then show ?thesis
    using assms(2,4,6,7) v p(1) assms(5)
    by (auto simp: handleTaMessage_def countEvent_def dispatchMessage_def must_def toPipelineAgentJobRequest_def validate_def handOver_def
        allowed_request_def go_simps)
qed

theorem allowed_job_is_handed_over_witness:
  "\<exists>t. handleTaMessage demo_facades demo_libs (job_message ''main'') (demo_wire []) = (Ok TurnBreak, t) \<and> wFac t = []"
proof -
  have "allowed_request demo_libs (Policy (ArSpec (wRunner (demo_wire [])))) \<lparr>MsgId = 7, MsgTypeOf = ''PipelineAgentJobRequest'', MsgBody = ''main''\<rparr>"
    by (simp add: allowed_request_def policy_allows_def MessageTypePipelineAgentJobRequest_def wire_demo_defs holds_def compiled_def)
  then have "\<exists>t. handleTaMessage demo_facades demo_libs (job_message ''main'') (demo_wire []) = (Ok TurnBreak, t) \<and>
      jobRequests t = Some 1 \<and> events t = events (demo_wire []) + 1 \<and> wFac t = wFac (demo_wire [])"
    by (intro allowed_job_is_handed_over [OF demo_admissible, where c = NewPolicyValidator])
       (simp_all add: demo_wire_def NewPolicyValidator_def cache_sound_def toMessage_def job_message_def)
  then show ?thesis by (auto simp: demo_wire_def)
qed

text \<open>
  A wire whose key generation fails takes the operator's reconciler down: the clean-up of the
  failed initialisation runs on dot files that were never made and dereferences nil, so the error is
  not returned.
\<close>

theorem failed_key_generation_panics:
  assumes "wDotFiles s = None" and "generateKey libs = Inl e"
    and "GhInit fa (Owner (Repository (ArSpec (wRunner s)))) (RepoName (Repository (ArSpec (wRunner s)))) (wFac s) = (Ok (), f)"
  shows "Init fa libs s = (Panic ''nil pointer dereference'', s\<lparr>wFac := f\<rparr>)"
  using assms
  by (simp add: Init_def wireInit_def initDotFiles_def NewRSAParameters_def Destroy_def initGH_def onFac_def onRunnerFile_def
      logged_def go_simps)

theorem failed_key_generation_panics_witness:
  "fst (Init demo_facades demo_libs ((demo_wire [])\<lparr>wDotFiles := None\<rparr>)) = Panic ''nil pointer dereference''"
  using failed_key_generation_panics [of "(demo_wire [])\<lparr>wDotFiles := None\<rparr>" demo_libs "External ''entropy''" demo_facades "[]"]
  by (simp add: wire_demo_defs ret_def)



end
