(* ===== verification/Converters.thy ===== *)
theory Converters
  imports Controller_Util Dot_Files "HOL-Library.AList" "HOL-Library.Multiset"
begin

text \<open>
  Building the Kubernetes objects of a runner and of its job
  (\<^verbatim>\<open>operator/internal/controller/actionsrunner/util/converters.go\<close>, \<^verbatim>\<open>filters.go\<close>, \<^verbatim>\<open>env.go\<close>). The
  JSON codec of the dot files, the scheme and the order in which Go ranges over a map are
  parameters; the volumes and mounts are association lists keyed by name and by path, as the
  maps of the code are.
\<close>

section \<open>Settings\<close>

definition getEnv :: "(string \<rightharpoonup> string) \<Rightarrow> string \<Rightarrow> string \<Rightarrow> string" where
  "getEnv env key defaultValue = (case env key of Some v \<Rightarrow> v | None \<Rightarrow> defaultValue)"

record conv_env =
  runnerImageName :: string
  runnerImageVersion :: string
  runnerImageVariant :: string
  dindImageName :: string
  dindImageVersion :: string
  dindImageVariant :: string
  osName :: string
  archName :: string
  rangeVolumes :: "Volume list \<Rightarrow> Volume list"
  rangeMounts :: "VolumeMount list \<Rightarrow> VolumeMount list"

text \<open>The package variables, from the environment and \<^verbatim>\<open>constants.Ver()\<close>.\<close>

definition converterVars ::
    "(string \<rightharpoonup> string) \<Rightarrow> string \<Rightarrow> string \<Rightarrow> string \<Rightarrow> (Volume list \<Rightarrow> Volume list) \<Rightarrow>
     (VolumeMount list \<Rightarrow> VolumeMount list) \<Rightarrow> conv_env" where
  "converterVars env ver os arch rv rm = \<lparr>
     runnerImageName = getEnv env ''KUBEACTIONS_RUNNER_IMAGE_NAME'' ''inloco/kube-actions'',
     runnerImageVersion = getEnv env ''KUBEACTIONS_RUNNER_IMAGE_VERSION'' ver,
     runnerImageVariant = getEnv env ''KUBEACTIONS_RUNNER_IMAGE_VARIANT'' ''-runner'',
     dindImageName = getEnv env ''KUBEACTIONS_DIND_IMAGE_NAME'' ''inloco/kube-actions'',
     dindImageVersion = getEnv env ''KUBEACTIONS_DIND_IMAGE_VERSION'' ver,
     dindImageVariant = getEnv env ''KUBEACTIONS_DIND_IMAGE_VARIANT'' ''-dind'',
     osName = os, archName = arch, rangeVolumes = rv, rangeMounts = rm\<rparr>"

text \<open>Ranging over a map visits every entry once, in some order.\<close>

definition range_laws :: "conv_env \<Rightarrow> bool" where
  "range_laws env \<longleftrightarrow> (\<forall>vs. mset (rangeVolumes env vs) = mset vs) \<and> (\<forall>ms. mset (rangeMounts env ms) = mset ms)"

section \<open>Filters\<close>

fun filteredEnvFromSources :: "EnvFromSource list \<Rightarrow> (EnvFromSource \<Rightarrow> bool) \<Rightarrow> EnvFromSource slice" where
  "filteredEnvFromSources [] p = None"
| "filteredEnvFromSources (x # xs) p =
     (if \<not> p x then filteredEnvFromSources xs p
      else Some (x # elems (filteredEnvFromSources xs p)))"

fun filteredEnvVars :: "EnvVar list \<Rightarrow> (EnvVar \<Rightarrow> bool) \<Rightarrow> EnvVar slice" where
  "filteredEnvVars [] p = None"
| "filteredEnvVars (x # xs) p =
     (if \<not> p x then filteredEnvVars xs p else Some (x # elems (filteredEnvVars xs p)))"

definition copyKey :: "int gomap \<Rightarrow> string \<Rightarrow> (string \<rightharpoonup> int) \<Rightarrow> (string \<rightharpoonup> int)" where
  "copyKey src k out = (case key_get src k of None \<Rightarrow> out | Some v \<Rightarrow> out(k \<mapsto> v))"

definition filteredResourceRequirements :: "ResourceRequirements \<Rightarrow> string list \<Rightarrow> ResourceRequirements" where
  "filteredResourceRequirements inp names =
     \<lparr>Limits = Some (fold (copyKey (Limits inp)) names Map.empty),
      Requests = Some (fold (copyKey (Requests inp)) names Map.empty)\<rparr>"

text \<open>The resources of a key of the spec, filtered when present and zero otherwise.\<close>

definition resourcesFor :: "ActionsRunner \<Rightarrow> string \<Rightarrow> string list \<Rightarrow> ResourceRequirements" where
  "resourcesFor ar key names = (case key_get (Resources (ArSpec ar)) key of
       None \<Rightarrow> zeroResources
     | Some res \<Rightarrow> filteredResourceRequirements res names)"

section \<open>Dot files, config map and secret\<close>

record dot_json =
  marshalRunner :: "DotRunner \<Rightarrow> goerr + string"
  unmarshalRunner :: "string \<Rightarrow> goerr + DotRunner"
  marshalCredentials :: "Credentials \<Rightarrow> goerr + string"
  unmarshalCredentials :: "string \<Rightarrow> goerr + Credentials"
  marshalRSA :: "RSAParameters \<Rightarrow> goerr + string"
  unmarshalRSA :: "string \<Rightarrow> goerr + RSAParameters"

definition ToDotFiles :: "dot_json \<Rightarrow> ConfigMap option \<Rightarrow> SecretObj option \<Rightarrow> Files option" where
  "ToDotFiles js configMap secret =
     Option.bind configMap (\<lambda>cm.
     Option.bind (BinaryData cm) (\<lambda>bd.
     Option.bind (bd ''.runner'') (\<lambda>runner.
     case unmarshalRunner js runner of Inl _ \<Rightarrow> None | Inr r \<Rightarrow>
     Option.bind (bd ''.credentials'') (\<lambda>credentials.
     case unmarshalCredentials js credentials of Inl _ \<Rightarrow> None | Inr c \<Rightarrow>
     Option.bind secret (\<lambda>sec.
     Option.bind (SecData sec) (\<lambda>sd.
     Option.bind (sd ''.credentials_rsaparams'') (\<lambda>rsaparams.
     case unmarshalRSA js rsaparams of Inl _ \<Rightarrow> None | Inr p \<Rightarrow>
       Some \<lparr>FRunner = r, FCredentials = c, FRSAParameters = p\<rparr>)))))))"

text \<open>Metadata of an object named after the runner.\<close>

definition namedMeta :: "ObjectMeta \<Rightarrow> ObjectMeta" where
  "namedMeta m = zeroMeta\<lparr>MetaName := MetaName m, MetaNamespace := MetaNamespace m\<rparr>"

definition runnerLabel :: string where
  "runnerLabel = ''kube-actions.inloco.com.br/actions-runner''"

definition ToConfigMap ::
    "dot_json \<Rightarrow> Files option \<Rightarrow> ActionsRunner option \<Rightarrow> Scheme option \<Rightarrow> ConfigMap res" where
  "ToConfigMap js dotFiles actionsRunner scheme =
     bindRes (nonNil ''dotFiles'' dotFiles) (\<lambda>df.
     bindRes (nonNil ''actionsRunner'' actionsRunner) (\<lambda>ar.
     bindRes (nonNil ''scheme'' scheme) (\<lambda>sch.
     bindRes (fromSum (marshalRunner js (FRunner df))) (\<lambda>runner.
     bindRes (fromSum (marshalCredentials js (FCredentials df))) (\<lambda>credentials.
     bindRes (fromSum (sch (ArMeta ar) (namedMeta (ArMeta ar)))) (\<lambda>meta.
       Ok \<lparr>CmMeta = meta,
           BinaryData = Some [''.runner'' \<mapsto> runner, ''.credentials'' \<mapsto> credentials]\<rparr>))))))"

definition ToSecret ::
    "dot_json \<Rightarrow> Files option \<Rightarrow> ActionsRunner option \<Rightarrow> Scheme option \<Rightarrow> SecretObj res" where
  "ToSecret js dotFiles actionsRunner scheme =
     bindRes (nonNil ''dotFiles'' dotFiles) (\<lambda>df.
     bindRes (nonNil ''actionsRunner'' actionsRunner) (\<lambda>ar.
     bindRes (nonNil ''scheme'' scheme) (\<lambda>sch.
     bindRes (fromSum (marshalRSA js (FRSAParameters df))) (\<lambda>rsaparams.
     bindRes (fromSum (sch (ArMeta ar) (namedMeta (ArMeta ar)))) (\<lambda>meta.
       Ok \<lparr>SecMeta = meta, SecData = Some [''.credentials_rsaparams'' \<mapsto> rsaparams]\<rparr>)))))"

definition ToPodDisruptionBudget ::
    "ActionsRunner option \<Rightarrow> Scheme option \<Rightarrow> PodDisruptionBudget res" where
  "ToPodDisruptionBudget actionsRunner scheme =
     bindRes (nonNil ''actionsRunner'' actionsRunner) (\<lambda>ar.
     bindRes (nonNil ''scheme'' scheme) (\<lambda>sch.
     bindRes (fromSum (sch (ArMeta ar) (namedMeta (ArMeta ar)))) (\<lambda>meta.
       Ok \<lparr>PdbMeta = meta,
           PdbSpec = \<lparr>MaxUnavailable = Some 0,
             PdbSelector = Some (Some [runnerLabel \<mapsto> MetaName (ArMeta ar)])\<rparr>\<rparr>)))"

definition ToActionsRunnerJob ::
    "ActionsRunner option \<Rightarrow> Scheme option \<Rightarrow> ActionsRunnerJob res" where
  "ToActionsRunnerJob actionsRunner scheme =
     bindRes (nonNil ''actionsRunner'' actionsRunner) (\<lambda>ar.
     bindRes (nonNil ''scheme'' scheme) (\<lambda>sch.
     bindRes (fromSum (sch (ArMeta ar)
         ((namedMeta (ArMeta ar))\<lparr>MetaLabels := Some [runnerLabel \<mapsto> MetaName (ArMeta ar)]\<rparr>))) (\<lambda>meta.
       Ok \<lparr>ArjMeta = meta,
           ArjStatus = \<lparr>PersistentVolumeClaimPhase = NoClaimPhase, JobPodPhase = NoPodPhase\<rparr>\<rparr>)))"

text \<open>No claim (a nil pointer and no error) unless the runner asks for storage.\<close>

definition ToPersistentVolumeClaim ::
    "ActionsRunner option \<Rightarrow> ActionsRunnerJob option \<Rightarrow> Scheme option \<Rightarrow> PersistentVolumeClaim option res" where
  "ToPersistentVolumeClaim actionsRunner actionsRunnerJob scheme =
     bindRes (nonNil ''actionsRunner'' actionsRunner) (\<lambda>ar.
     bindRes (nonNil ''actionsRunnerJob'' actionsRunnerJob) (\<lambda>arj.
     bindRes (nonNil ''scheme'' scheme) (\<lambda>sch.
     if \<not> HasActionsRunnerRequestedStorage (Some ar) then Ok None
     else
     bindRes (fromSum (sch (ArjMeta arj) (namedMeta (ArMeta ar)))) (\<lambda>meta.
       Ok (Some \<lparr>PvcMeta = meta, AccessModes = Some [''ReadWriteOnce''],
           PvcResources = resourcesFor ar ''runner'' [''storage''], PvcPhase = NoClaimPhase\<rparr>)))))"

section \<open>Volumes, mounts and affinity\<close>

definition volumeOf :: "string \<Rightarrow> Volume" where
  "volumeOf name = \<lparr>VolName = name, VolConfigMap = None, VolSecret = None, VolClaim = None, VolOther = None\<rparr>"

fun putAll :: "('v \<Rightarrow> string) \<Rightarrow> 'v list \<Rightarrow> (string \<times> 'v) list \<Rightarrow> (string \<times> 'v) list" where
  "putAll key [] al = al"
| "putAll key (v # vs) al = putAll key vs (AList.update (key v) v al)"

text \<open>
  Laying reserved entries over given ones: the result has every key once, exactly the
  reserved entry at a reserved key, and the last given entry at any other.
\<close>

definition overlay :: "('v \<Rightarrow> string) \<Rightarrow> 'v list \<Rightarrow> 'v list \<Rightarrow> (string \<times> 'v) list" where
  "overlay key reserved given = putAll key reserved (putAll key given [])"

definition reservedVolumes :: "ActionsRunner \<Rightarrow> Volume list" where
  "reservedVolumes ar =
     [(volumeOf ''config-map'')\<lparr>VolConfigMap := Some (MetaName (ArMeta ar))\<rparr>,
      (volumeOf ''secret'')\<lparr>VolSecret := Some (MetaName (ArMeta ar))\<rparr>] @
     (if HasActionsRunnerRequestedStorage (Some ar)
      then [(volumeOf ''persistent-volume-claim'')\<lparr>VolClaim := Some (MetaName (ArMeta ar))\<rparr>] else [])"

definition withVolumes :: "conv_env \<Rightarrow> ActionsRunner \<Rightarrow> Volume list" where
  "withVolumes env ar = rangeVolumes env
     (map snd (overlay VolName (reservedVolumes ar) (elems (Volumes (ArSpec ar)))))"

definition mountOf :: "string \<Rightarrow> string \<Rightarrow> string \<Rightarrow> VolumeMount" where
  "mountOf path name sub = \<lparr>MountPath = path, MountName = name, SubPath = sub\<rparr>"

definition reservedMounts :: "ActionsRunner \<Rightarrow> VolumeMount list" where
  "reservedMounts ar =
     [mountOf ''/opt/actions-runner/.runner'' ''config-map'' ''.runner'',
      mountOf ''/opt/actions-runner/.credentials'' ''config-map'' ''.credentials'',
      mountOf ''/opt/actions-runner/.credentials_rsaparams'' ''secret'' ''.credentials_rsaparams''] @
     (if HasActionsRunnerRequestedStorage (Some ar)
      then [mountOf ''/home/linuxbrew'' ''persistent-volume-claim'' '':home:linuxbrew'',
            mountOf ''/home/runner'' ''persistent-volume-claim'' '':home:user'',
            mountOf ''/home/user'' ''persistent-volume-claim'' '':home:user'',
            mountOf ''/opt/actions-runner/_work'' ''persistent-volume-claim'' '':opt:actions-runner:_work'',
            mountOf ''/opt/hostedtoolcache'' ''persistent-volume-claim'' '':opt:hostedtoolcache'',
            mountOf ''/root'' ''persistent-volume-claim'' '':root'']
      else [])"

definition withVolumeMounts :: "conv_env \<Rightarrow> ActionsRunner \<Rightarrow> VolumeMount list" where
  "withVolumeMounts env ar = rangeMounts env
     (map snd (overlay MountPath (reservedMounts ar) (elems (VolumeMounts (ArSpec ar)))))"

definition runtimeRequirements :: "conv_env \<Rightarrow> NodeSelectorRequirement list" where
  "runtimeRequirements env =
     [\<lparr>ReqKey = ''kubernetes.io/os'', ReqOperator = ''In'', ReqValues = [osName env]\<rparr>,
      \<lparr>ReqKey = ''kubernetes.io/arch'', ReqOperator = ''In'', ReqValues = [archName env]\<rparr>]"

definition orElse :: "'a option \<Rightarrow> 'a \<Rightarrow> 'a" where
  "orElse v d = (case v of None \<Rightarrow> d | Some x \<Rightarrow> x)"

text \<open>
  The result is the affinity the pointer refers to after the call: the code fills in what is
  missing and writes through the pointer it was given.
\<close>

definition withRuntimeAffinity :: "conv_env \<Rightarrow> AffinityT option \<Rightarrow> AffinityT" where
  "withRuntimeAffinity env affinity =
     (let a = orElse affinity \<lparr>NodeAffinity = None, PodAffinity = None, PodAntiAffinity = None\<rparr>;
          na = orElse (NodeAffinity a) \<lparr>RequiredDuringScheduling = None, PreferredDuringScheduling = None\<rparr>;
          ns = orElse (RequiredDuringScheduling na) \<lparr>NodeSelectorTerms = None\<rparr>;
          terms = (if elems (NodeSelectorTerms ns) = [] then [\<lparr>MatchExpressions = None, MatchFields = None\<rparr>]
                   else elems (NodeSelectorTerms ns));
          terms' = map (\<lambda>t. t\<lparr>MatchExpressions :=
                     append_slice (MatchExpressions t) (runtimeRequirements env)\<rparr>) terms in
      a\<lparr>NodeAffinity := Some (na\<lparr>RequiredDuringScheduling := Some (ns\<lparr>NodeSelectorTerms := Some terms'\<rparr>)\<rparr>)\<rparr>)"

section \<open>The pod\<close>

definition isSecretEnvFrom :: "EnvFromSource \<Rightarrow> bool" where
  "isSecretEnvFrom e \<longleftrightarrow> SecretRef e \<noteq> None"

definition isSecretEnv :: "EnvVar \<Rightarrow> bool" where
  "isSecretEnv e \<longleftrightarrow> (case ValueFrom e of None \<Rightarrow> False | Some vf \<Rightarrow> SecretKeyRef vf \<noteq> None)"

definition envVar :: "string \<Rightarrow> string \<Rightarrow> EnvVar" where
  "envVar n v = \<lparr>EnvName = n, EnvValue = v, ValueFrom = None\<rparr>"

definition runnerVars :: "ActionsRunner \<Rightarrow> ActionsRunnerJob \<Rightarrow> EnvVar list" where
  "runnerVars ar arj =
     [envVar ''KUBEACTIONS_ACTIONSRUNNER_NAME'' (MetaName (ArMeta ar)),
      envVar ''KUBEACTIONS_ACTIONSRUNNER_REPOSITORY_OWNER'' (Owner (Repository (ArSpec ar))),
      envVar ''KUBEACTIONS_ACTIONSRUNNER_REPOSITORY_NAME'' (RepoName (Repository (ArSpec ar))),
      envVar ''KUBEACTIONS_ACTIONSRUNNERJOB_NAME'' (MetaName (ArjMeta arj))]"

definition computeResources :: "string list" where
  "computeResources = [''cpu'', ''memory'', ''ephemeral-storage'']"

definition imageFor :: "string \<Rightarrow> string \<Rightarrow> string \<Rightarrow> ActionsRunner \<Rightarrow> string" where
  "imageFor name version variant ar =
     name @ '':'' @ (if Version (ArSpec ar) \<noteq> '''' then Version (ArSpec ar) else version) @ variant"

definition runnerContainer :: "conv_env \<Rightarrow> ActionsRunner \<Rightarrow> ActionsRunnerJob \<Rightarrow> Container" where
  "runnerContainer env ar arj = \<lparr>
     CName = ''runner'',
     CImage = imageFor (runnerImageName env) (runnerImageVersion env) (runnerImageVariant env) ar,
     CEnvFrom = filteredEnvFromSources (elems (EnvFrom (ArSpec ar))) (\<lambda>e. \<not> isSecretEnvFrom e),
     CEnv = append_slice (filteredEnvVars (elems (Env (ArSpec ar))) (\<lambda>e. \<not> isSecretEnv e)) (runnerVars ar arj),
     CResources = resourcesFor ar ''runner'' computeResources,
     CVolumeMounts = Some (withVolumeMounts env ar),
     CLivenessCommand = None,
     CPrivileged = None\<rparr>"

definition basePod :: "conv_env \<Rightarrow> ActionsRunner \<Rightarrow> ActionsRunnerJob \<Rightarrow> Pod" where
  "basePod env ar arj = zeroPod\<lparr>
     PodMeta := zeroMeta\<lparr>MetaName := MetaName (ArjMeta arj), MetaNamespace := MetaNamespace (ArMeta ar),
       MetaAnnotations := Annotations (ArSpec ar), MetaLabels := Some [runnerLabel \<mapsto> MetaName (ArMeta ar)]\<rparr>,
     ActiveDeadlineSeconds := Some 3000,
     PodVolumes := Some (withVolumes env ar),
     Containers := [runnerContainer env ar arj],
     RestartPolicy := ''Never'',
     AutomountServiceAccountToken := Some False,
     RunAsUser := Some 1000, RunAsGroup := Some 1000, RunAsNonRoot := Some True, FSGroup := Some 1000,
     Sysctls := [(''net.ipv4.ping_group_range'', ''0 2147483647'')],
     PodAffinityOf := Some (withRuntimeAffinity env (Affinity (ArSpec ar))),
     PodTolerations := Some [\<lparr>TolKey = ''node-role.incognia.com/ci'', TolOperator = ''Equal'', TolValue = ''true'',
       TolEffect = ''NoSchedule''\<rparr>],
     PodNodeSelector := Some [''node-role.incognia.com/ci'' \<mapsto> ''true'']\<rparr>"

text \<open>\<^verbatim>\<open>&pod.Spec.Containers[0]\<close>: both capabilities write through it.\<close>

definition onRunnerContainer :: "(Container \<Rightarrow> Container) \<Rightarrow> Pod \<Rightarrow> Pod" where
  "onRunnerContainer f pod = pod\<lparr>Containers := (case Containers pod of [] \<Rightarrow> [] | c # cs \<Rightarrow> f c # cs)\<rparr>"

definition addSecretCapability :: "ActionsRunner \<Rightarrow> Pod \<Rightarrow> Pod" where
  "addSecretCapability ar pod =
     (onRunnerContainer (\<lambda>c. c\<lparr>
        CEnvFrom := append_slice (CEnvFrom c) (elems (filteredEnvFromSources (elems (EnvFrom (ArSpec ar))) isSecretEnvFrom)),
        CEnv := append_slice (CEnv c) (elems (filteredEnvVars (elems (Env (ArSpec ar))) isSecretEnv))\<rparr>) pod)
     \<lparr>PodServiceAccountName := ServiceAccountName (ArSpec ar), AutomountServiceAccountToken := Some True\<rparr>"

definition dindMounts :: "ActionsRunner \<Rightarrow> VolumeMount slice" where
  "dindMounts ar = (if HasActionsRunnerRequestedStorage (Some ar)
     then Some [mountOf ''/home/rootless'' ''persistent-volume-claim'' '':home:rootless'',
                mountOf ''/home/rootless/.local/share/docker'' ''persistent-volume-claim'' '':home:rootless:.local:share:docker'',
                mountOf ''/opt/actions-runner/_work'' ''persistent-volume-claim'' '':opt:actions-runner:_work'']
     else None)"

definition dindContainer :: "conv_env \<Rightarrow> ActionsRunner \<Rightarrow> Container" where
  "dindContainer env ar = \<lparr>
     CName = ''dind'',
     CImage = imageFor (dindImageName env) (dindImageVersion env) (dindImageVariant env) ar,
     CEnvFrom = None,
     CEnv = Some [envVar ''DOCKER_TLS_CERTDIR'' ''''],
     CResources = resourcesFor ar ''docker'' computeResources,
     CVolumeMounts = dindMounts ar,
     CLivenessCommand = Some [''nc'', ''-z'', ''127.0.0.1'', ''2375''],
     CPrivileged = Some True\<rparr>"

definition addDockerCapability :: "conv_env \<Rightarrow> ActionsRunner \<Rightarrow> Pod \<Rightarrow> Pod" where
  "addDockerCapability env ar pod =
     (let pod' = onRunnerContainer (\<lambda>c. c\<lparr>CEnv := append_slice (CEnv c) [envVar ''DOCKER_HOST'' ''tcp://localhost:2375'']\<rparr>) pod in
      pod'\<lparr>Containers := Containers pod' @ [dindContainer env ar]\<rparr>)"

definition has_capability :: "ActionsRunnerCapability \<Rightarrow> ActionsRunner \<Rightarrow> bool" where
  "has_capability c ar \<longleftrightarrow> c \<in> set (elems (Capabilities (ArSpec ar)))"

definition capablePod :: "conv_env \<Rightarrow> ActionsRunner \<Rightarrow> ActionsRunnerJob \<Rightarrow> Pod" where
  "capablePod env ar arj =
     (let pod = basePod env ar arj;
          pod1 = (if has_capability ActionsRunnerCapabilitySecret ar then addSecretCapability ar pod else pod) in
      if has_capability ActionsRunnerCapabilityDocker ar then addDockerCapability env ar pod1 else pod1)"

definition ToPod ::
    "conv_env \<Rightarrow> ActionsRunner option \<Rightarrow> ActionsRunnerJob option \<Rightarrow> Scheme option \<Rightarrow> Pod res" where
  "ToPod env actionsRunner actionsRunnerJob scheme =
     bindRes (nonNil ''actionsRunner'' actionsRunner) (\<lambda>ar.
     bindRes (nonNil ''actionsRunnerJob'' actionsRunnerJob) (\<lambda>arj.
     bindRes (nonNil ''scheme'' scheme) (\<lambda>sch.
     let pod = capablePod env ar arj in
     bindRes (fromSum (sch (ArjMeta arj) (PodMeta pod))) (\<lambda>meta. Ok (pod\<lparr>PodMeta := meta\<rparr>)))))"

text \<open>
  What the call leaves in the runner: the affinity of the spec is written through its pointer.
\<close>

definition ToPodRunner :: "conv_env \<Rightarrow> ActionsRunner \<Rightarrow> ActionsRunner" where
  "ToPodRunner env ar = ar\<lparr>ArSpec := (ArSpec ar)\<lparr>Affinity := (case Affinity (ArSpec ar) of
       None \<Rightarrow> None
     | Some a \<Rightarrow> Some (withRuntimeAffinity env (Some a)))\<rparr>\<rparr>"

section \<open>Maps keyed by name\<close>

lemma putAll_map_of: "map_of (putAll key vs al) = map_of al ++ map_of (rev (map (\<lambda>v. (key v, v)) vs))"
proof (induction vs arbitrary: al)
  case (Cons v vs)
  show ?case
  proof (rule ext)
    fix k
    show "map_of (putAll key (v # vs) al) k = (map_of al ++ map_of (rev (map (\<lambda>v. (key v, v)) (v # vs)))) k"
      using Cons.IH [of "AList.update (key v) v al"]
      by (simp add: update_conv' map_add_def split: option.splits)
  qed
qed simp

lemma putAll_distinct: "distinct (map fst al) \<Longrightarrow> distinct (map fst (putAll key vs al))"
  by (induction vs arbitrary: al) (auto simp: distinct_update)

lemma set_update_subset: "set (AList.update k v al) \<subseteq> insert (k, v) (set al)"
  by (induction al) auto

lemma putAll_keyed: "\<forall>(k, v)\<in>set al. k = key v \<Longrightarrow> \<forall>(k, v)\<in>set (putAll key vs al). k = key v"
proof (induction vs arbitrary: al)
  case (Cons v vs)
  have "\<forall>(k, w)\<in>set (AList.update (key v) v al). k = key w"
    using Cons.prems set_update_subset [of "key v" v al] by auto
  then show ?case using Cons.IH [of "AList.update (key v) v al"] by simp
qed simp

lemma overlay_keyed: "\<forall>(k, v)\<in>set (overlay key reserved given). k = key v"
  unfolding overlay_def by (rule putAll_keyed, rule putAll_keyed) simp

lemma overlay_distinct: "distinct (map key (map snd (overlay key reserved given)))"
proof -
  have k: "\<forall>(k, v)\<in>set (overlay key reserved given). k = key v"
    by (rule overlay_keyed)
  have "map key (map snd (overlay key reserved given)) = map fst (overlay key reserved given)"
    using k by auto
  moreover have "distinct (map fst (overlay key reserved given))"
    by (simp add: overlay_def putAll_distinct)
  ultimately show ?thesis by (simp only:)
qed

lemma overlay_mem:
  "v \<in> set (map snd (overlay key reserved given)) \<longleftrightarrow> map_of (overlay key reserved given) (key v) = Some v"
proof -
  note k = overlay_keyed [of key reserved given]
  have d: "distinct (map fst (overlay key reserved given))"
    by (simp add: overlay_def putAll_distinct)
  have "v \<in> set (map snd (overlay key reserved given)) \<longleftrightarrow> (key v, v) \<in> set (overlay key reserved given)"
    using k by force
  then show ?thesis using d by (simp add: map_of_eq_Some_iff)
qed

lemma overlay_map_of:
  "map_of (overlay key reserved given) =
     map_of (rev (map (\<lambda>v. (key v, v)) given)) ++ map_of (rev (map (\<lambda>v. (key v, v)) reserved))"
  by (simp add: overlay_def putAll_map_of)

lemma keyed_map_of:
  "distinct (map key vs) \<Longrightarrow> map_of (rev (map (\<lambda>v. (key v, v)) vs)) k = Some v \<longleftrightarrow> v \<in> set vs \<and> key v = k"
proof -
  assume d: "distinct (map key vs)"
  have "distinct (map fst (rev (map (\<lambda>v. (key v, v)) vs)))"
    using d by (simp add: rev_map [symmetric] comp_def)
  then show ?thesis by (auto simp: map_of_eq_Some_iff)
qed

lemma keyed_map_of_None: "map_of (rev (map (\<lambda>v. (key v, v)) vs)) k = None \<longleftrightarrow> k \<notin> key ` set vs"
  by (auto simp: map_of_eq_None_iff image_iff)

lemma overlay_reserved:
  assumes "distinct (map key reserved)"
  shows "v \<in> set (map snd (overlay key reserved given)) \<and> key v \<in> key ` set reserved \<longleftrightarrow> v \<in> set reserved"
proof -
  have "v \<in> set reserved" if "map_of (overlay key reserved given) (key v) = Some v" "key v \<in> key ` set reserved"
  proof -
    have "map_of (rev (map (\<lambda>v. (key v, v)) reserved)) (key v) \<noteq> None"
      using that(2) keyed_map_of_None [of key reserved "key v"] by blast
    then obtain w where "map_of (rev (map (\<lambda>v. (key v, v)) reserved)) (key v) = Some w" by blast
    then show ?thesis
      using that(1) keyed_map_of [OF assms, of "key v" w] by (simp add: overlay_map_of map_add_def)
  qed
  moreover have "map_of (overlay key reserved given) (key v) = Some v" if "v \<in> set reserved"
    using that keyed_map_of [OF assms, of "key v" v] by (simp add: overlay_map_of map_add_def)
  ultimately show ?thesis unfolding overlay_mem by blast
qed

lemma overlay_given:
  assumes "k \<notin> key ` set reserved"
  shows "map_of (overlay key reserved given) k = map_of (rev (map (\<lambda>v. (key v, v)) given)) k"
  using assms keyed_map_of_None [of key reserved k] by (simp add: overlay_map_of map_add_def)

section \<open>What the pod holds\<close>

lemma elems_filteredEnvFromSources [simp]: "elems (filteredEnvFromSources xs p) = filter p xs"
  by (induction xs) simp_all

lemma elems_filteredEnvVars [simp]: "elems (filteredEnvVars xs p) = filter p xs"
  by (induction xs) simp_all

lemma fold_copyKey: "fold (copyKey src) names out k = (if k \<in> set names \<and> key_get src k \<noteq> None then key_get src k else out k)"
  by (induction names arbitrary: out) (auto simp: copyKey_def split: option.splits)

lemma filteredResources_get:
  "key_get (Limits (filteredResourceRequirements r names)) k = (if k \<in> set names then key_get (Limits r) k else None)"
  "key_get (Requests (filteredResourceRequirements r names)) k = (if k \<in> set names then key_get (Requests r) k else None)"
  by (auto simp: filteredResourceRequirements_def fold_copyKey)

text \<open>The pod of a successful call, and its containers by capability.\<close>

lemma ToPod_Ok:
  assumes "ToPod env (Some ar) (Some arj) (Some sch) = Ok pod"
  shows "\<exists>meta. sch (ArjMeta arj) (PodMeta (capablePod env ar arj)) = Inr meta \<and>
     pod = (capablePod env ar arj)\<lparr>PodMeta := meta\<rparr>"
  using assms by (auto simp: ToPod_def res_Ok Let_def)

definition secretEnvs :: "ActionsRunner \<Rightarrow> EnvVar list" where
  "secretEnvs ar = (if has_capability ActionsRunnerCapabilitySecret ar then filter isSecretEnv (elems (Env (ArSpec ar))) else [])"

definition dockerEnvs :: "ActionsRunner \<Rightarrow> EnvVar list" where
  "dockerEnvs ar = (if has_capability ActionsRunnerCapabilityDocker ar then [envVar ''DOCKER_HOST'' ''tcp://localhost:2375''] else [])"

lemmas pod_defs =
  capablePod_def basePod_def addSecretCapability_def addDockerCapability_def onRunnerContainer_def
  runnerContainer_def zeroPod_def Let_def

lemma capablePod_containers:
  "\<exists>c. Containers (capablePod env ar arj) =
       c # (if has_capability ActionsRunnerCapabilityDocker ar then [dindContainer env ar] else []) \<and>
     CName c = ''runner'' \<and> CPrivileged c = None \<and> elems (CVolumeMounts c) = withVolumeMounts env ar \<and>
     elems (CEnv c) = filter (\<lambda>e. \<not> isSecretEnv e) (elems (Env (ArSpec ar))) @ runnerVars ar arj @ secretEnvs ar @ dockerEnvs ar \<and>
     elems (CEnvFrom c) = filter (\<lambda>e. \<not> isSecretEnvFrom e) (elems (EnvFrom (ArSpec ar))) @
       (if has_capability ActionsRunnerCapabilitySecret ar then filter isSecretEnvFrom (elems (EnvFrom (ArSpec ar))) else [])"
  by (simp add: pod_defs secretEnvs_def dockerEnvs_def)

lemma capablePod_fields:
  "PodServiceAccountName (capablePod env ar arj) =
     (if has_capability ActionsRunnerCapabilitySecret ar then ServiceAccountName (ArSpec ar) else [])"
  "AutomountServiceAccountToken (capablePod env ar arj) = Some (has_capability ActionsRunnerCapabilitySecret ar)"
  "elems (PodVolumes (capablePod env ar arj)) = withVolumes env ar"
  "PodAffinityOf (capablePod env ar arj) = Some (withRuntimeAffinity env (Affinity (ArSpec ar)))"
  by (simp_all add: pod_defs)

section \<open>Properties\<close>

text \<open>
  Claim C8. Secrets reach the runner only through the capability: in the pod of a runner without the
  \<^verbatim>\<open>secret\<close> capability no container has an environment variable or source taken from a secret, the
  service account token is not mounted and no service account is named; with it, the secret
  variables and sources of the spec are all there and the token is mounted.
\<close>

theorem secrets_only_with_capability:
  assumes "ToPod env (Some ar) (Some arj) (Some sch) = Ok pod"
  shows "(\<not> has_capability ActionsRunnerCapabilitySecret ar \<longrightarrow>
       (\<forall>c\<in>set (Containers pod). (\<forall>e\<in>set (elems (CEnv c)). \<not> isSecretEnv e) \<and>
          (\<forall>e\<in>set (elems (CEnvFrom c)). \<not> isSecretEnvFrom e)) \<and>
       AutomountServiceAccountToken pod = Some False \<and> PodServiceAccountName pod = []) \<and>
     (has_capability ActionsRunnerCapabilitySecret ar \<longrightarrow>
       set (elems (Env (ArSpec ar))) \<subseteq> set (elems (CEnv (hd (Containers pod)))) \<and>
       set (elems (EnvFrom (ArSpec ar))) \<subseteq> set (elems (CEnvFrom (hd (Containers pod)))) \<and>
       AutomountServiceAccountToken pod = Some True \<and> PodServiceAccountName pod = ServiceAccountName (ArSpec ar))"
proof -
  obtain c where c: "Containers (capablePod env ar arj) =
       c # (if has_capability ActionsRunnerCapabilityDocker ar then [dindContainer env ar] else [])"
     "elems (CEnv c) = filter (\<lambda>e. \<not> isSecretEnv e) (elems (Env (ArSpec ar))) @ runnerVars ar arj @ secretEnvs ar @ dockerEnvs ar"
     "elems (CEnvFrom c) = filter (\<lambda>e. \<not> isSecretEnvFrom e) (elems (EnvFrom (ArSpec ar))) @
       (if has_capability ActionsRunnerCapabilitySecret ar then filter isSecretEnvFrom (elems (EnvFrom (ArSpec ar))) else [])"
    using capablePod_containers [of env ar arj] by blast
  have plain: "\<not> isSecretEnv e" if "e \<in> set (runnerVars ar arj) \<union> set (dockerEnvs ar) \<union> set (elems (CEnv (dindContainer env ar)))" for e
    using that by (auto simp: runnerVars_def dockerEnvs_def dindContainer_def envVar_def isSecretEnv_def split: if_splits)
  have d: "elems (CEnvFrom (dindContainer env ar)) = []" by (simp add: dindContainer_def)
  show ?thesis
    using ToPod_Ok [OF assms] c plain d capablePod_fields [of env ar arj]
    by (auto simp: secretEnvs_def)
qed

definition demo_env :: conv_env where
  "demo_env = converterVars Map.empty ''1.2.3'' ''linux'' ''amd64'' rev (\<lambda>ms. ms)"

definition demo_runner :: "string list \<Rightarrow> ActionsRunner" where
  "demo_runner caps = \<lparr>ArMeta = zeroMeta\<lparr>MetaName := ''ar'', MetaNamespace := ''ns''\<rparr>,
     ArSpec = emptySpec\<lparr>Capabilities := Some caps,
       Volumes := Some [(volumeOf ''secret'')\<lparr>VolOther := Some ''hostPath''\<rparr>, (volumeOf ''data'')\<lparr>VolOther := Some ''nfs''\<rparr>],
       VolumeMounts := Some [mountOf ''/root'' ''data'' '''', mountOf ''/data'' ''data'' ''''],
       Env := Some [envVar ''A'' ''1'', \<lparr>EnvName = ''B'', EnvValue = '''', ValueFrom = Some \<lparr>SecretKeyRef = Some ''k'', OtherKeyRef = None\<rparr>\<rparr>],
       Resources := Some [''runner'' \<mapsto> \<lparr>Limits = None, Requests = Some [''storage'' \<mapsto> 10, ''cpu'' \<mapsto> 2]\<rparr>]\<rparr>\<rparr>"

definition demo_job :: ActionsRunnerJob where
  "demo_job = \<lparr>ArjMeta = zeroMeta\<lparr>MetaName := ''ar'', MetaNamespace := ''ns''\<rparr>,
     ArjStatus = \<lparr>PersistentVolumeClaimPhase = NoClaimPhase, JobPodPhase = NoPodPhase\<rparr>\<rparr>"

lemma capablePod_owner: "ControllerOwner (PodMeta (capablePod env ar arj)) = None"
  by (simp add: pod_defs zeroMeta_def)

lemma ToPod_total:
  assumes "scheme_laws sch"
  shows "\<exists>pod. ToPod env (Some ar) (Some arj) (Some sch) = Ok pod"
  using scheme_lawsD(2) [OF assms capablePod_owner, of "ArjMeta arj" env ar arj]
  by (simp add: ToPod_def Let_def)

theorem secrets_only_with_capability_witness:
  "\<exists>pod. ToPod demo_env (Some (demo_runner [''docker''])) (Some demo_job) (Some demo_scheme) = Ok pod \<and>
     (\<forall>c\<in>set (Containers pod). \<forall>e\<in>set (elems (CEnv c)). \<not> isSecretEnv e)"
proof -
  obtain pod where p: "ToPod demo_env (Some (demo_runner [''docker''])) (Some demo_job) (Some demo_scheme) = Ok pod"
    using ToPod_total [OF demo_scheme_laws] by blast
  have "\<not> has_capability ActionsRunnerCapabilitySecret (demo_runner [''docker''])"
    by (simp add: has_capability_def demo_runner_def ActionsRunnerCapabilitySecret_def)
  then show ?thesis using secrets_only_with_capability [OF p] p by blast
qed

lemma reservedVolumes_distinct: "distinct (map VolName (reservedVolumes ar))"
  by (simp add: reservedVolumes_def volumeOf_def)

lemma reservedMounts_distinct: "distinct (map MountPath (reservedMounts ar))"
  by (cases "HasActionsRunnerRequestedStorage (Some ar)") (simp_all add: reservedMounts_def mountOf_def)

lemma overlay_subset: "set (map snd (overlay key reserved given)) \<subseteq> set reserved \<union> set given"
proof
  fix v assume "v \<in> set (map snd (overlay key reserved given))"
  then have "map_of (overlay key reserved given) (key v) = Some v" by (simp only: overlay_mem)
  then have "map_of (rev (map (\<lambda>v. (key v, v)) given)) (key v) = Some v \<or>
      map_of (rev (map (\<lambda>v. (key v, v)) reserved)) (key v) = Some v"
    by (auto simp: overlay_map_of map_add_def split: option.splits)
  then show "v \<in> set reserved \<union> set given" by (auto dest!: map_of_SomeD)
qed

lemma range_volumes:
  assumes "range_laws env"
  shows "set (withVolumes env ar) = set (map snd (overlay VolName (reservedVolumes ar) (elems (Volumes (ArSpec ar)))))"
    and "distinct (map VolName (withVolumes env ar))"
    and "set (withVolumeMounts env ar) = set (map snd (overlay MountPath (reservedMounts ar) (elems (VolumeMounts (ArSpec ar)))))"
    and "distinct (map MountPath (withVolumeMounts env ar))"
proof -
  have v: "mset (withVolumes env ar) = mset (map snd (overlay VolName (reservedVolumes ar) (elems (Volumes (ArSpec ar)))))"
    and m: "mset (withVolumeMounts env ar) = mset (map snd (overlay MountPath (reservedMounts ar) (elems (VolumeMounts (ArSpec ar)))))"
    using assms by (simp_all add: range_laws_def withVolumes_def withVolumeMounts_def)
  from v m show "set (withVolumes env ar) = set (map snd (overlay VolName (reservedVolumes ar) (elems (Volumes (ArSpec ar)))))"
    and "set (withVolumeMounts env ar) = set (map snd (overlay MountPath (reservedMounts ar) (elems (VolumeMounts (ArSpec ar)))))"
    by (metis mset_eq_setD)+
  have "mset (map VolName (withVolumes env ar)) = mset (map VolName (map snd (overlay VolName (reservedVolumes ar) (elems (Volumes (ArSpec ar))))))"
    using v by (metis mset_map)
  then show "distinct (map VolName (withVolumes env ar))"
    using overlay_distinct mset_eq_imp_distinct_iff by blast
  have "mset (map MountPath (withVolumeMounts env ar)) = mset (map MountPath (map snd (overlay MountPath (reservedMounts ar) (elems (VolumeMounts (ArSpec ar))))))"
    using m by (metis mset_map)
  then show "distinct (map MountPath (withVolumeMounts env ar))"
    using overlay_distinct mset_eq_imp_distinct_iff by blast
qed

text \<open>
  Claim C32. A spec cannot override what the operator mounts: in the pod every volume name and every mount
  path of the runner container occurs once, the operator's volumes and mounts are all there, and
  whatever has one of their names or paths is the operator's; any other volume or mount of the spec
  is kept, the last one of its name or path.
\<close>

theorem reserved_mounts_not_overridable:
  assumes "range_laws env" and "ToPod env (Some ar) (Some arj) (Some sch) = Ok pod"
  shows "distinct (map VolName (elems (PodVolumes pod))) \<and>
     {v \<in> set (elems (PodVolumes pod)). VolName v \<in> VolName ` set (reservedVolumes ar)} = set (reservedVolumes ar) \<and>
     (\<forall>v. VolName v \<notin> VolName ` set (reservedVolumes ar) \<longrightarrow>
        (v \<in> set (elems (PodVolumes pod)) \<longleftrightarrow>
           map_of (rev (map (\<lambda>v. (VolName v, v)) (elems (Volumes (ArSpec ar))))) (VolName v) = Some v)) \<and>
     distinct (map MountPath (elems (CVolumeMounts (hd (Containers pod))))) \<and>
     {m \<in> set (elems (CVolumeMounts (hd (Containers pod)))). MountPath m \<in> MountPath ` set (reservedMounts ar)} = set (reservedMounts ar) \<and>
     (\<forall>m. MountPath m \<notin> MountPath ` set (reservedMounts ar) \<longrightarrow>
        (m \<in> set (elems (CVolumeMounts (hd (Containers pod)))) \<longleftrightarrow>
           map_of (rev (map (\<lambda>m. (MountPath m, m)) (elems (VolumeMounts (ArSpec ar))))) (MountPath m) = Some m))"
proof -
  obtain meta where pod: "pod = (capablePod env ar arj)\<lparr>PodMeta := meta\<rparr>"
    using ToPod_Ok [OF assms(2)] by blast
  have vols: "elems (PodVolumes pod) = withVolumes env ar"
    by (simp add: pod capablePod_fields)
  have mnts: "elems (CVolumeMounts (hd (Containers pod))) = withVolumeMounts env ar"
    using capablePod_containers [of env ar arj] by (auto simp: pod)
  note r = range_volumes [OF assms(1), of ar]
  have v1: "{v \<in> set (withVolumes env ar). VolName v \<in> VolName ` set (reservedVolumes ar)} = set (reservedVolumes ar)"
    unfolding r(1) using overlay_reserved [OF reservedVolumes_distinct, of _ ar "elems (Volumes (ArSpec ar))"] by blast
  have m1: "{m \<in> set (withVolumeMounts env ar). MountPath m \<in> MountPath ` set (reservedMounts ar)} = set (reservedMounts ar)"
    unfolding r(3) using overlay_reserved [OF reservedMounts_distinct, of _ ar "elems (VolumeMounts (ArSpec ar))"] by blast
  have v2: "v \<in> set (withVolumes env ar) \<longleftrightarrow>
      map_of (rev (map (\<lambda>v. (VolName v, v)) (elems (Volumes (ArSpec ar))))) (VolName v) = Some v"
    if "VolName v \<notin> VolName ` set (reservedVolumes ar)" for v
    unfolding r(1) overlay_mem using overlay_given [OF that] by simp
  have m2: "m \<in> set (withVolumeMounts env ar) \<longleftrightarrow>
      map_of (rev (map (\<lambda>m. (MountPath m, m)) (elems (VolumeMounts (ArSpec ar))))) (MountPath m) = Some m"
    if "MountPath m \<notin> MountPath ` set (reservedMounts ar)" for m
    unfolding r(3) overlay_mem using overlay_given [OF that] by simp
  show ?thesis unfolding vols mnts using r(2,4) v1 m1 v2 m2 by blast
qed

lemma demo_range_laws: "range_laws demo_env"
  by (simp add: range_laws_def demo_env_def converterVars_def)

theorem reserved_mounts_not_overridable_witness:
  "\<exists>pod. ToPod demo_env (Some (demo_runner [])) (Some demo_job) (Some demo_scheme) = Ok pod \<and>
     (\<forall>v\<in>set (elems (PodVolumes pod)). VolName v = ''secret'' \<longrightarrow> VolSecret v = Some ''ar'')"
proof -
  obtain pod where p: "ToPod demo_env (Some (demo_runner [])) (Some demo_job) (Some demo_scheme) = Ok pod"
    using ToPod_total [OF demo_scheme_laws] by blast
  have "{v \<in> set (elems (PodVolumes pod)). VolName v \<in> VolName ` set (reservedVolumes (demo_runner []))} =
      set (reservedVolumes (demo_runner []))"
    using reserved_mounts_not_overridable [OF demo_range_laws p] by blast
  then have "v \<in> set (reservedVolumes (demo_runner []))" if "v \<in> set (elems (PodVolumes pod))" "VolName v = ''secret''" for v
    using that by (auto simp: reservedVolumes_def volumeOf_def split: if_splits)
  then have "VolSecret v = Some ''ar''" if "v \<in> set (elems (PodVolumes pod))" "VolName v = ''secret''" for v
    using that by (fastforce simp: reservedVolumes_def volumeOf_def demo_runner_def split: if_splits)
  then show ?thesis using p by blast
qed



lemma pod_volumes:
  assumes "ToPod env (Some ar) (Some arj) (Some sch) = Ok pod" and "range_laws env"
  shows "set (elems (PodVolumes pod)) \<subseteq> set (reservedVolumes ar) \<union> set (elems (Volumes (ArSpec ar)))"
    and "set (reservedVolumes ar) \<subseteq> set (elems (PodVolumes pod))"
proof -
  have e: "elems (PodVolumes pod) = withVolumes env ar"
    using ToPod_Ok [OF assms(1)] capablePod_fields(3) [of env ar arj] by auto
  show "set (elems (PodVolumes pod)) \<subseteq> set (reservedVolumes ar) \<union> set (elems (Volumes (ArSpec ar)))"
    by (simp only: e range_volumes(1) [OF assms(2)] overlay_subset)
  show "set (reservedVolumes ar) \<subseteq> set (elems (PodVolumes pod))"
    unfolding e range_volumes(1) [OF assms(2)] using overlay_reserved [OF reservedVolumes_distinct] by blast
qed




text \<open>A codec for the values of the example: each type has one encodable value.\<close>

definition demo_json :: dot_json where
  "demo_json = \<lparr>
     marshalRunner = (\<lambda>x. if x = FRunner zeroFiles then Inr ''{}'' else Inl (External ''unsupported'')),
     unmarshalRunner = (\<lambda>b. Inr (FRunner zeroFiles)),
     marshalCredentials = (\<lambda>x. if x = FCredentials zeroFiles then Inr ''{}'' else Inl (External ''unsupported'')),
     unmarshalCredentials = (\<lambda>b. Inr (FCredentials zeroFiles)),
     marshalRSA = (\<lambda>x. if x = FRSAParameters zeroFiles then Inr ''{}'' else Inl (External ''unsupported'')),
     unmarshalRSA = (\<lambda>b. Inr (FRSAParameters zeroFiles))\<rparr>"


text \<open>
  Only the docker capability adds a privileged container: the pod has the unprivileged runner and,
  exactly with that capability, the privileged \<^verbatim>\<open>dind\<close> container after it; the pod keeps running as a
  user that is not root.
\<close>

theorem privileged_only_with_docker:
  assumes "ToPod env (Some ar) (Some arj) (Some sch) = Ok pod"
  shows "map CName (Containers pod) = (if has_capability ActionsRunnerCapabilityDocker ar then [''runner'', ''dind''] else [''runner'']) \<and>
     (\<forall>c\<in>set (Containers pod). CPrivileged c = (if CName c = ''dind'' then Some True else None)) \<and>
     RunAsNonRoot pod = Some True \<and> RunAsUser pod = Some 1000"
proof -
  obtain meta where pod: "pod = (capablePod env ar arj)\<lparr>PodMeta := meta\<rparr>"
    using ToPod_Ok [OF assms] by blast
  have "RunAsNonRoot (capablePod env ar arj) = Some True \<and> RunAsUser (capablePod env ar arj) = Some 1000"
    by (simp add: pod_defs)
  moreover obtain c where "Containers (capablePod env ar arj) =
       c # (if has_capability ActionsRunnerCapabilityDocker ar then [dindContainer env ar] else [])"
      "CName c = ''runner''" "CPrivileged c = None"
    using capablePod_containers [of env ar arj] by blast
  ultimately show ?thesis by (simp add: pod dindContainer_def)
qed

theorem privileged_only_with_docker_witness:
  "\<exists>pod. ToPod demo_env (Some (demo_runner [''docker''])) (Some demo_job) (Some demo_scheme) = Ok pod \<and>
     map CName (Containers pod) = [''runner'', ''dind'']"
proof -
  obtain pod where p: "ToPod demo_env (Some (demo_runner [''docker''])) (Some demo_job) (Some demo_scheme) = Ok pod"
    using ToPod_total [OF demo_scheme_laws] by blast
  have "has_capability ActionsRunnerCapabilityDocker (demo_runner [''docker''])"
    by (simp add: has_capability_def demo_runner_def ActionsRunnerCapabilityDocker_def)
  then show ?thesis using privileged_only_with_docker [OF p] p by auto
qed

text \<open>
  The pod ignores two fields of the spec: whatever tolerations and node selector a runner
  declares, its pod is the same.
\<close>

theorem tolerations_and_node_selector_ignored:
  "ToPod env (Some ar) arj sch =
   ToPod env (Some (ar\<lparr>ArSpec := (ArSpec ar)\<lparr>Tolerations := t, NodeSelector := ns\<rparr>\<rparr>)) arj sch"
proof -
  let ?ar = "ar\<lparr>ArSpec := (ArSpec ar)\<lparr>Tolerations := t, NodeSelector := ns\<rparr>\<rparr>"
  have st: "HasActionsRunnerRequestedStorage (Some ?ar) = HasActionsRunnerRequestedStorage (Some ar)"
    by (simp add: HasActionsRunnerRequestedStorage_def)
  have mounts: "withVolumes env ?ar = withVolumes env ar" "withVolumeMounts env ?ar = withVolumeMounts env ar"
      "dindMounts ?ar = dindMounts ar"
    using st by (simp_all add: withVolumes_def withVolumeMounts_def reservedVolumes_def reservedMounts_def dindMounts_def)
  have parts: "imageFor n v w ?ar = imageFor n v w ar" "resourcesFor ?ar k ks = resourcesFor ar k ks"
      "runnerVars ?ar j = runnerVars ar j" for n v w k ks j
    by (simp_all add: imageFor_def resourcesFor_def runnerVars_def)
  have cont: "runnerContainer env ?ar j = runnerContainer env ar j" "dindContainer env ?ar = dindContainer env ar" for j
    by (simp_all add: runnerContainer_def dindContainer_def mounts parts)
  have base: "basePod env ?ar j = basePod env ar j" for j
    by (simp add: basePod_def mounts cont)
  have caps: "addSecretCapability ?ar = addSecretCapability ar" "addDockerCapability env ?ar = addDockerCapability env ar"
      "has_capability c ?ar = has_capability c ar" for c
    by (simp_all add: addSecretCapability_def addDockerCapability_def has_capability_def cont fun_eq_iff)
  have "capablePod env ?ar j = capablePod env ar j" for j
    by (simp only: capablePod_def base caps)
  then show ?thesis by (simp add: ToPod_def)
qed

end
