(* ===== verification/Replica_Set.thy ===== *)
theory Replica_Set
  imports Controller_Util
begin

text \<open>
  The replica set reconciler
  (\<^verbatim>\<open>operator/internal/controller/actionsrunnerreplicaset/reconciler.go\<close>): one call compares the
  runners of the set that are not being deleted with the replicas it asks for and creates one,
  deletes one, or brings the specs in line. The Kubernetes client is a parameter over an
  abstract world.
\<close>

section \<open>The client\<close>

record NamespacedName =
  KeyNamespace :: string
  KeyName :: string

record 'w arrs_client =
  GetArrs :: "NamespacedName \<Rightarrow> 'w \<Rightarrow> (goerr + ActionsRunnerReplicaSet) \<times> 'w"
  UpdateArrsStatus :: "ActionsRunnerReplicaSet \<Rightarrow> 'w \<Rightarrow> (goerr + unit) \<times> 'w"
  ListRunners :: "string \<Rightarrow> (string \<times> string) list \<Rightarrow> 'w \<Rightarrow> (goerr + ActionsRunner list) \<times> 'w"
  CreateRunner :: "ActionsRunner \<Rightarrow> 'w \<Rightarrow> (goerr + unit) \<times> 'w"
  DeleteRunner :: "ActionsRunner \<Rightarrow> 'w \<Rightarrow> (goerr + unit) \<times> 'w"
  UpdateRunner :: "ActionsRunner \<Rightarrow> 'w \<Rightarrow> (goerr + unit) \<times> 'w"
  LabelSelectorAsSelector :: "(string \<times> string) list \<Rightarrow> goerr + string"

text \<open>\<^verbatim>\<open>if err := m(); client.IgnoreNotFound(err) != nil { return err }\<close>\<close>

definition ignoreNotFound :: "('s, unit) go \<Rightarrow> ('s, unit) go" where
  "ignoreNotFound m = attempt m (\<lambda>r. case r of
       Inr _ \<Rightarrow> ret ()
     | Inl e \<Rightarrow> if isNotFound e then ret () else fail e)"

section \<open>The reconciler\<close>

definition replicaSetLabel :: string where
  "replicaSetLabel = ''kube-actions.inloco.com.br/actions-runner-replica-set''"

definition matchingLabels :: "ActionsRunnerReplicaSet \<Rightarrow> (string \<times> string) list" where
  "matchingLabels arrs = [(replicaSetLabel, MetaName (ArrsMeta arrs))]"

definition listOpts :: "ActionsRunnerReplicaSet \<Rightarrow> string \<times> (string \<times> string) list" where
  "listOpts arrs = (MetaNamespace (ArrsMeta arrs), matchingLabels arrs)"

definition desiredActionsRunner ::
    "ActionsRunnerReplicaSet option \<Rightarrow> Scheme option \<Rightarrow> ActionsRunner res" where
  "desiredActionsRunner arrs scheme =
     bindRes (nonNil ''actionsRunnerReplicaSet'' arrs) (\<lambda>rs.
     bindRes (nonNil ''scheme'' scheme) (\<lambda>sch.
     bindRes (fromSum (sch (ArrsMeta rs) (zeroMeta\<lparr>GenerateName := MetaName (ArrsMeta rs) @ ''-'',
         MetaNamespace := MetaNamespace (ArrsMeta rs), MetaLabels := Some (map_of (matchingLabels rs))\<rparr>))) (\<lambda>meta.
       Ok \<lparr>ArMeta = meta, ArSpec = Template (ArrsSpec rs)\<rparr>)))"

definition desiredSelector :: "'w arrs_client \<Rightarrow> ActionsRunnerReplicaSet option \<Rightarrow> string res" where
  "desiredSelector cl arrs =
     bindRes (nonNil ''actionsRunnerReplicaSet'' arrs) (\<lambda>rs.
     fromSum (LabelSelectorAsSelector cl (matchingLabels rs)))"

text \<open>
  Runners of the list that are not being deleted; \<^verbatim>\<open>int(Spec.Replicas)\<close> is the two's complement
  reading of the unsigned replicas.
\<close>

definition liveRunners :: "ActionsRunner list \<Rightarrow> ActionsRunner list" where
  "liveRunners items = filter (\<lambda>ar. \<not> IsBeingDeleted (Some (ArMeta ar))) items"

definition desiredReplicas :: "ActionsRunnerReplicaSet \<Rightarrow> int" where
  "desiredReplicas arrs = sint (Replicas (ArrsSpec arrs))"

definition withStatusReplicas :: "int \<Rightarrow> ActionsRunnerReplicaSet \<Rightarrow> ActionsRunnerReplicaSet" where
  "withStatusReplicas n arrs = arrs\<lparr>ArrsStatus := (ArrsStatus arrs)\<lparr>StatusReplicas := of_int n\<rparr>\<rparr>"

fun updateSpecs :: "'w arrs_client \<Rightarrow> ActionsRunnerSpec \<Rightarrow> ActionsRunner list \<Rightarrow> ('w, unit) go" where
  "updateSpecs cl template [] = ret ()"
| "updateSpecs cl template (ar # ars) =
     (if ArSpec ar = template then updateSpecs cl template ars
      else andThen (ignoreNotFound (external (UpdateRunner cl (ar\<lparr>ArSpec := template\<rparr>)))) (\<lambda>_.
           updateSpecs cl template ars))"

definition scaleUp ::
    "'w arrs_client \<Rightarrow> Scheme option \<Rightarrow> ActionsRunnerReplicaSet \<Rightarrow> int \<Rightarrow> ('w, unit) go" where
  "scaleUp cl scheme arrs actual =
     andThen (lift_res (desiredActionsRunner (Some arrs) scheme)) (\<lambda>ar.
     andThen (external (CreateRunner cl ar)) (\<lambda>_.
     ignoreNotFound (external (UpdateArrsStatus cl (withStatusReplicas (actual + 1) arrs)))))"

definition scaleDown ::
    "'w arrs_client \<Rightarrow> ActionsRunnerReplicaSet \<Rightarrow> ActionsRunner list \<Rightarrow> int \<Rightarrow> ('w, unit) go" where
  "scaleDown cl arrs items actual = (case items of
       [] \<Rightarrow> panic ''index out of range''
     | ar # _ \<Rightarrow>
         andThen (external (DeleteRunner cl ar)) (\<lambda>_.
         ignoreNotFound (external (UpdateArrsStatus cl (withStatusReplicas (actual - 1) arrs)))))"

definition ReconcileReplicaSet :: "'w arrs_client \<Rightarrow> Scheme option \<Rightarrow> NamespacedName \<Rightarrow> ('w, unit) go" where
  "ReconcileReplicaSet cl scheme key =
     attempt (external (GetArrs cl key)) (\<lambda>r. case r of
         Inl e \<Rightarrow> if isNotFound e then ret () else fail e
       | Inr arrs \<Rightarrow>
           if IsBeingDeleted (Some (ArrsMeta arrs)) then ret ()
           else
           andThen (lift_res (desiredSelector cl (Some arrs))) (\<lambda>selector.
           if Selector (ArrsStatus arrs) \<noteq> selector
           then ignoreNotFound (external (UpdateArrsStatus cl
                  (arrs\<lparr>ArrsStatus := (ArrsStatus arrs)\<lparr>Selector := selector\<rparr>\<rparr>)))
           else
           andThen (external (case_prod (ListRunners cl) (listOpts arrs))) (\<lambda>items.
           let actual = int (length (liveRunners items)) in
           if actual < desiredReplicas arrs then scaleUp cl scheme arrs actual
           else if actual > desiredReplicas arrs then scaleDown cl arrs items actual
           else updateSpecs cl (Template (ArrsSpec arrs)) (liveRunners items))))"

section \<open>What the client promises\<close>

text \<open>
  An API server that always answers, seen through the replica set \<open>set_of\<close> stored under the key
  and its runners \<open>items_of\<close>: reads do not change anything, a status update writes the
  status, a created runner appears somewhere in the list and is not being deleted, an update
  replaces the runner of that name, and a deleted runner is gone.
\<close>

definition insert_somewhere :: "'a \<Rightarrow> 'a list \<Rightarrow> 'a list \<Rightarrow> bool" where
  "insert_somewhere x xs ys \<longleftrightarrow> (\<exists>us vs. xs = us @ vs \<and> ys = us @ x # vs)"

definition cluster_laws ::
    "'w arrs_client \<Rightarrow> NamespacedName \<Rightarrow> ('w \<Rightarrow> ActionsRunnerReplicaSet) \<Rightarrow> ('w \<Rightarrow> ActionsRunner list) \<Rightarrow> bool" where
  "cluster_laws cl key set_of items_of \<longleftrightarrow>
     (\<forall>w. GetArrs cl key w = (Inr (set_of w), w)) \<and>
     (\<forall>arrs w. \<exists>w'. UpdateArrsStatus cl arrs w = (Inr (), w') \<and>
        set_of w' = (set_of w)\<lparr>ArrsStatus := ArrsStatus arrs\<rparr> \<and> items_of w' = items_of w) \<and>
     (\<forall>w. ListRunners cl (MetaNamespace (ArrsMeta (set_of w))) (matchingLabels (set_of w)) w = (Inr (items_of w), w)) \<and>
     (\<forall>ar w. \<exists>w' ar'. CreateRunner cl ar w = (Inr (), w') \<and> set_of w' = set_of w \<and>
        ArSpec ar' = ArSpec ar \<and> \<not> IsBeingDeleted (Some (ArMeta ar')) \<and>
        MetaName (ArMeta ar') \<notin> (\<lambda>a. MetaName (ArMeta a)) ` set (items_of w) \<and>
        insert_somewhere ar' (items_of w) (items_of w')) \<and>
     (\<forall>ar w. \<exists>w'. UpdateRunner cl ar w = (Inr (), w') \<and> set_of w' = set_of w \<and>
        items_of w' = map (\<lambda>a. if MetaName (ArMeta a) = MetaName (ArMeta ar) then a\<lparr>ArSpec := ArSpec ar\<rparr> else a) (items_of w)) \<and>
     (\<forall>ar w. \<exists>w'. DeleteRunner cl ar w = (Inr (), w') \<and> set_of w' = set_of w \<and>
        items_of w' = filter (\<lambda>a. MetaName (ArMeta a) \<noteq> MetaName (ArMeta ar)) (items_of w))"

lemma cluster_lawsD:
  assumes "cluster_laws cl key set_of items_of"
  shows "GetArrs cl key w = (Inr (set_of w), w)"
    and "\<exists>w'. UpdateArrsStatus cl arrs w = (Inr (), w') \<and>
        set_of w' = (set_of w)\<lparr>ArrsStatus := ArrsStatus arrs\<rparr> \<and> items_of w' = items_of w"
    and "ListRunners cl (MetaNamespace (ArrsMeta (set_of w))) (matchingLabels (set_of w)) w = (Inr (items_of w), w)"
    and "\<exists>w' ar'. CreateRunner cl ar w = (Inr (), w') \<and> set_of w' = set_of w \<and>
        ArSpec ar' = ArSpec ar \<and> \<not> IsBeingDeleted (Some (ArMeta ar')) \<and>
        MetaName (ArMeta ar') \<notin> (\<lambda>a. MetaName (ArMeta a)) ` set (items_of w) \<and>
        insert_somewhere ar' (items_of w) (items_of w')"
    and "\<exists>w'. UpdateRunner cl ar w = (Inr (), w') \<and> set_of w' = set_of w \<and>
        items_of w' = map (\<lambda>a. if MetaName (ArMeta a) = MetaName (ArMeta ar) then a\<lparr>ArSpec := ArSpec ar\<rparr> else a) (items_of w)"
    and "\<exists>w'. DeleteRunner cl ar w = (Inr (), w') \<and> set_of w' = set_of w \<and>
        items_of w' = filter (\<lambda>a. MetaName (ArMeta a) \<noteq> MetaName (ArMeta ar)) (items_of w)"
  using assms unfolding cluster_laws_def by blast+

section \<open>One reconciliation\<close>

lemma ignore_external: "f s = (Inr (), t) \<Longrightarrow> ignoreNotFound (external f) s = (Ok (), t)"
  by (simp add: ignoreNotFound_def go_simps)

text \<open>
  A cluster in working order for the set: the set is not being deleted, has an admissible
  selector and a count of replicas that fits an \<^verbatim>\<open>int\<close>, and its runners have distinct names and
  are not being deleted.
\<close>

definition name_of :: "ActionsRunner \<Rightarrow> string" where
  "name_of ar = MetaName (ArMeta ar)"

definition orderly :: "'w arrs_client \<Rightarrow> ('w \<Rightarrow> ActionsRunnerReplicaSet) \<Rightarrow> ('w \<Rightarrow> ActionsRunner list) \<Rightarrow> string \<Rightarrow> 'w \<Rightarrow> bool" where
  "orderly cl set_of items_of sel w \<longleftrightarrow>
     \<not> IsBeingDeleted (Some (ArrsMeta (set_of w))) \<and> LabelSelectorAsSelector cl (matchingLabels (set_of w)) = Inr sel \<and>
     0 \<le> desiredReplicas (set_of w) \<and> distinct (map name_of (items_of w)) \<and>
     (\<forall>ar\<in>set (items_of w). \<not> IsBeingDeleted (Some (ArMeta ar)))"

definition aligned :: "ActionsRunnerReplicaSet \<Rightarrow> ActionsRunner list \<Rightarrow> bool" where
  "aligned arrs items \<longleftrightarrow> (\<forall>ar\<in>set items. ArSpec ar = Template (ArrsSpec arrs))"

text \<open>What is left to do: the selector, the missing or surplus runners, the specs.\<close>

definition pending :: "('w \<Rightarrow> ActionsRunnerReplicaSet) \<Rightarrow> ('w \<Rightarrow> ActionsRunner list) \<Rightarrow> string \<Rightarrow> 'w \<Rightarrow> nat" where
  "pending set_of items_of sel w =
     (if Selector (ArrsStatus (set_of w)) = sel then 0 else 1) +
     nat \<bar>int (length (items_of w)) - desiredReplicas (set_of w)\<bar> +
     (if aligned (set_of w) (items_of w) then 0 else 1)"

definition same_set :: "ActionsRunnerReplicaSet \<Rightarrow> ActionsRunnerReplicaSet \<Rightarrow> bool" where
  "same_set a b \<longleftrightarrow> ArrsMeta b = ArrsMeta a \<and> ArrsSpec b = ArrsSpec a"

lemma orderly_live: "orderly cl set_of items_of sel w \<Longrightarrow> liveRunners (items_of w) = items_of w"
  by (simp add: orderly_def liveRunners_def filter_id_conv)

lemma orderly_transfer:
  assumes "orderly cl set_of items_of sel w" and "same_set (set_of w) (set_of w')"
    and "distinct (map name_of (items_of w'))" and "\<forall>ar\<in>set (items_of w'). \<not> IsBeingDeleted (Some (ArMeta ar))"
  shows "orderly cl set_of items_of sel w'"
  using assms by (simp add: orderly_def same_set_def matchingLabels_def desiredReplicas_def)

lemma updateSpecs_aligns:
  assumes laws: "cluster_laws cl key set_of items_of"
  shows "\<exists>w'. updateSpecs cl template ars w = (Ok (), w') \<and> set_of w' = set_of w \<and>
    items_of w' = map (\<lambda>a. if name_of a \<in> name_of ` {ar \<in> set ars. ArSpec ar \<noteq> template} then a\<lparr>ArSpec := template\<rparr> else a) (items_of w)"
proof (induction ars arbitrary: w)
  case (Cons ar ars)
  show ?case
  proof (cases "ArSpec ar = template")
    case True
    then have "{x \<in> set (ar # ars). ArSpec x \<noteq> template} = {x \<in> set ars. ArSpec x \<noteq> template}" by auto
    then show ?thesis using Cons.IH [of w] True by simp
  next
    case False
    obtain w1 where u: "UpdateRunner cl (ar\<lparr>ArSpec := template\<rparr>) w = (Inr (), w1)"
      and w1: "set_of w1 = set_of w"
        "items_of w1 = map (\<lambda>a. if name_of a = name_of ar then a\<lparr>ArSpec := template\<rparr> else a) (items_of w)"
      using cluster_lawsD(5) [OF laws, of "ar\<lparr>ArSpec := template\<rparr>" w] by (auto simp: name_of_def)
    obtain w2 where w2: "updateSpecs cl template ars w1 = (Ok (), w2)" "set_of w2 = set_of w1"
      "items_of w2 = map (\<lambda>a. if name_of a \<in> name_of ` {ar \<in> set ars. ArSpec ar \<noteq> template} then a\<lparr>ArSpec := template\<rparr> else a) (items_of w1)"
      using Cons.IH by blast
    have "updateSpecs cl template (ar # ars) w = (Ok (), w2)"
      using False w2(1) by (simp add: andThen_def ignore_external u)
    moreover have "items_of w2 = map (\<lambda>a. if name_of a \<in> name_of ` {x \<in> set (ar # ars). ArSpec x \<noteq> template}
        then a\<lparr>ArSpec := template\<rparr> else a) (items_of w)"
      using False by (auto simp: w2(3) w1(2) name_of_def)
    ultimately show ?thesis using w1 w2 by auto
  qed
qed (auto simp: ret_def)

lemma aligned_after_update:
  assumes "distinct (map name_of items)"
  shows "\<forall>a\<in>set (map (\<lambda>a. if name_of a \<in> name_of ` {ar \<in> set items. ArSpec ar \<noteq> t} then a\<lparr>ArSpec := t\<rparr> else a) items). ArSpec a = t"
    and "map name_of (map (\<lambda>a. if name_of a \<in> name_of ` {ar \<in> set items. ArSpec ar \<noteq> t} then a\<lparr>ArSpec := t\<rparr> else a) items) = map name_of items"
  by (auto simp: name_of_def)

text \<open>
  The three ways a call on an orderly cluster ends, with the selector in place.
\<close>

lemma reconcile_branches:
  assumes laws: "cluster_laws cl key set_of items_of" and ord: "orderly cl set_of items_of sel w"
    and sel: "Selector (ArrsStatus (set_of w)) = sel"
  shows "ReconcileReplicaSet cl scheme key w =
    (let actual = int (length (items_of w)) in
     if actual < desiredReplicas (set_of w) then scaleUp cl scheme (set_of w) actual w
     else if actual > desiredReplicas (set_of w) then scaleDown cl (set_of w) (items_of w) actual w
     else updateSpecs cl (Template (ArrsSpec (set_of w))) (items_of w) w)"
proof -
  have l: "ListRunners cl (MetaNamespace (ArrsMeta (set_of w))) (matchingLabels (set_of w)) w = (Inr (items_of w), w)"
    and g: "GetArrs cl key w = (Inr (set_of w), w)"
    by (rule cluster_lawsD(3) [OF laws], rule cluster_lawsD(1) [OF laws])
  have "\<not> IsBeingDeleted (Some (ArrsMeta (set_of w)))" "LabelSelectorAsSelector cl (matchingLabels (set_of w)) = Inr sel"
    using ord by (simp_all add: orderly_def)
  then show ?thesis
    using sel orderly_live [OF ord]
    by (simp add: ReconcileReplicaSet_def attempt_def andThen_def external_def lift_res_def desiredSelector_def
        listOpts_def l g Let_def)
qed

lemma reconcile_selector:
  assumes laws: "cluster_laws cl key set_of items_of" and ord: "orderly cl set_of items_of sel w"
    and sel: "Selector (ArrsStatus (set_of w)) \<noteq> sel"
  shows "\<exists>w'. ReconcileReplicaSet cl scheme key w = (Ok (), w') \<and> same_set (set_of w) (set_of w') \<and>
    Selector (ArrsStatus (set_of w')) = sel \<and> items_of w' = items_of w"
proof -
  have g: "GetArrs cl key w = (Inr (set_of w), w)" by (rule cluster_lawsD(1) [OF laws])
  let ?a = "(set_of w)\<lparr>ArrsStatus := (ArrsStatus (set_of w))\<lparr>Selector := sel\<rparr>\<rparr>"
  obtain w' where u: "UpdateArrsStatus cl ?a w = (Inr (), w')"
      and w': "set_of w' = (set_of w)\<lparr>ArrsStatus := ArrsStatus ?a\<rparr>" "items_of w' = items_of w"
    using cluster_lawsD(2) [OF laws, of ?a w] by blast
  have "\<not> IsBeingDeleted (Some (ArrsMeta (set_of w)))" "LabelSelectorAsSelector cl (matchingLabels (set_of w)) = Inr sel"
    using ord by (simp_all add: orderly_def)
  then have "ReconcileReplicaSet cl scheme key w = (Ok (), w')"
    using sel by (simp add: ReconcileReplicaSet_def attempt_def andThen_def external_def [of "GetArrs cl key"]
        lift_res_def desiredSelector_def g ignore_external u)
  then show ?thesis using w' by (simp add: same_set_def)
qed

lemma reconcile_up:
  assumes laws: "cluster_laws cl key set_of items_of" and sch: "scheme_laws sch"
  shows "\<exists>w' ar. scaleUp cl (Some sch) (set_of w) n w = (Ok (), w') \<and> same_set (set_of w) (set_of w') \<and>
    Selector (ArrsStatus (set_of w')) = Selector (ArrsStatus (set_of w)) \<and> insert_somewhere ar (items_of w) (items_of w') \<and>
    StatusReplicas (ArrsStatus (set_of w')) = of_int (n + 1) \<and>
    ArSpec ar = Template (ArrsSpec (set_of w)) \<and> \<not> IsBeingDeleted (Some (ArMeta ar)) \<and> name_of ar \<notin> name_of ` set (items_of w)"
proof -
  have "\<exists>ar. desiredActionsRunner (Some (set_of w)) (Some sch) = Ok ar \<and> ArSpec ar = Template (ArrsSpec (set_of w))"
    by (simp add: desiredActionsRunner_def scheme_lawsD(2) [OF sch] zeroMeta_def)
  then obtain ar0 where d: "desiredActionsRunner (Some (set_of w)) (Some sch) = Ok ar0" "ArSpec ar0 = Template (ArrsSpec (set_of w))"
    by blast
  obtain w1 ar where c: "CreateRunner cl ar0 w = (Inr (), w1)" "set_of w1 = set_of w" "ArSpec ar = ArSpec ar0"
      "\<not> IsBeingDeleted (Some (ArMeta ar))" "name_of ar \<notin> name_of ` set (items_of w)"
      "insert_somewhere ar (items_of w) (items_of w1)"
    using cluster_lawsD(4) [OF laws, of ar0 w] unfolding name_of_def by blast
  let ?a = "withStatusReplicas (n + 1) (set_of w)"
  obtain w2 where u: "UpdateArrsStatus cl ?a w1 = (Inr (), w2)"
      and w2: "set_of w2 = (set_of w1)\<lparr>ArrsStatus := ArrsStatus ?a\<rparr>" "items_of w2 = items_of w1"
    using cluster_lawsD(2) [OF laws, of ?a w1] by blast
  have "scaleUp cl (Some sch) (set_of w) n w = (Ok (), w2)"
    by (simp add: scaleUp_def andThen_def lift_res_def d(1) external_def [of "CreateRunner cl ar0"] c(1) ignore_external u)
  then show ?thesis
    using w2 c d(2) by (intro exI [of _ w2] exI [of _ ar]) (simp add: same_set_def withStatusReplicas_def)
qed

lemma reconcile_down:
  assumes laws: "cluster_laws cl key set_of items_of" and items: "items_of w = ar # rest"
    and names: "distinct (map name_of (items_of w))"
  shows "\<exists>w'. scaleDown cl (set_of w) (items_of w) n w = (Ok (), w') \<and> same_set (set_of w) (set_of w') \<and>
    Selector (ArrsStatus (set_of w')) = Selector (ArrsStatus (set_of w)) \<and> items_of w' = rest \<and>
    StatusReplicas (ArrsStatus (set_of w')) = of_int (n - 1)"
proof -
  obtain w1 where d: "DeleteRunner cl ar w = (Inr (), w1)" "set_of w1 = set_of w"
      "items_of w1 = filter (\<lambda>a. name_of a \<noteq> name_of ar) (items_of w)"
    using cluster_lawsD(6) [OF laws, of ar w] unfolding name_of_def by blast
  have rest: "items_of w1 = rest"
  proof -
    have "\<forall>a\<in>set rest. name_of a \<noteq> name_of ar" using names by (auto simp: items image_iff)
    then show ?thesis by (simp add: d(3) items filter_id_conv)
  qed
  let ?a = "withStatusReplicas (n - 1) (set_of w)"
  obtain w2 where u: "UpdateArrsStatus cl ?a w1 = (Inr (), w2)"
      and w2: "set_of w2 = (set_of w1)\<lparr>ArrsStatus := ArrsStatus ?a\<rparr>" "items_of w2 = items_of w1"
    using cluster_lawsD(2) [OF laws, of ?a w1] by blast
  have "scaleDown cl (set_of w) (items_of w) n w = (Ok (), w2)"
    by (simp add: scaleDown_def items andThen_def external_def [of "DeleteRunner cl ar"] d(1) ignore_external u)
  then show ?thesis
    using w2 d(2) rest by (intro exI [of _ w2]) (simp add: same_set_def withStatusReplicas_def)
qed

text \<open>Every call does one of the things left to do.\<close>

lemma insert_somewhere_props:
  assumes "insert_somewhere x xs ys"
  shows "set ys = insert x (set xs)" and "length ys = Suc (length xs)"
    and "distinct (map f xs) \<Longrightarrow> f x \<notin> f ` set xs \<Longrightarrow> distinct (map f ys)"
  using assms by (auto simp: insert_somewhere_def)

definition progresses ::
    "'w arrs_client \<Rightarrow> Scheme \<Rightarrow> NamespacedName \<Rightarrow> ('w \<Rightarrow> ActionsRunnerReplicaSet) \<Rightarrow> ('w \<Rightarrow> ActionsRunner list) \<Rightarrow> string \<Rightarrow> 'w \<Rightarrow> bool" where
  "progresses cl sch key set_of items_of sel w \<longleftrightarrow>
     (\<exists>w'. ReconcileReplicaSet cl (Some sch) key w = (Ok (), w') \<and> orderly cl set_of items_of sel w' \<and>
        same_set (set_of w) (set_of w') \<and> pending set_of items_of sel w' \<le> pending set_of items_of sel w - 1)"

lemma same_setD:
  "same_set a b \<Longrightarrow> desiredReplicas b = desiredReplicas a"
  "same_set a b \<Longrightarrow> aligned b is = aligned a is"
  by (simp_all add: same_set_def desiredReplicas_def aligned_def)

lemma orderlyD:
  assumes "orderly cl set_of items_of sel w"
  shows "distinct (map name_of (items_of w))" and "\<forall>ar\<in>set (items_of w). \<not> IsBeingDeleted (Some (ArMeta ar))"
    and "0 \<le> desiredReplicas (set_of w)"
  using assms by (simp_all add: orderly_def)

lemma progress_selector:
  assumes laws: "cluster_laws cl key set_of items_of" and ord: "orderly cl set_of items_of sel w"
    and sel: "Selector (ArrsStatus (set_of w)) \<noteq> sel"
  shows "progresses cl sch key set_of items_of sel w"
proof -
  obtain w' where w': "ReconcileReplicaSet cl (Some sch) key w = (Ok (), w')" "same_set (set_of w) (set_of w')"
      "Selector (ArrsStatus (set_of w')) = sel" "items_of w' = items_of w"
    using reconcile_selector [OF laws ord sel] by blast
  have "orderly cl set_of items_of sel w'"
    by (rule orderly_transfer [OF ord w'(2)]) (simp_all add: w'(4) orderlyD [OF ord])
  moreover have "pending set_of items_of sel w' \<le> pending set_of items_of sel w - 1"
    using w' sel by (simp add: pending_def same_setD [OF w'(2)])
  ultimately show ?thesis using w' unfolding progresses_def by blast
qed

lemma progress_up:
  assumes laws: "cluster_laws cl key set_of items_of" and sch: "scheme_laws sch"
    and ord: "orderly cl set_of items_of sel w" and sel: "Selector (ArrsStatus (set_of w)) = sel"
    and up: "int (length (items_of w)) < desiredReplicas (set_of w)"
  shows "progresses cl sch key set_of items_of sel w"
proof -
  obtain w' ar where w': "scaleUp cl (Some sch) (set_of w) (int (length (items_of w))) w = (Ok (), w')"
      "same_set (set_of w) (set_of w')" "Selector (ArrsStatus (set_of w')) = Selector (ArrsStatus (set_of w))"
      "insert_somewhere ar (items_of w) (items_of w')" "ArSpec ar = Template (ArrsSpec (set_of w))"
      "\<not> IsBeingDeleted (Some (ArMeta ar))" "name_of ar \<notin> name_of ` set (items_of w)"
    using reconcile_up [OF laws sch] by blast
  note ins = insert_somewhere_props [OF w'(4)]
  have "orderly cl set_of items_of sel w'"
    by (rule orderly_transfer [OF ord w'(2)])
       (use ins(1) ins(3) [OF orderlyD(1) [OF ord] w'(7)] orderlyD(2) [OF ord] w'(6) in auto)
  moreover have "pending set_of items_of sel w' \<le> pending set_of items_of sel w - 1"
  proof -
    have "aligned (set_of w) (items_of w') = aligned (set_of w) (items_of w)"
      using ins(1) w'(5) by (auto simp: aligned_def)
    then show ?thesis
      using up sel w'(3) ins(2) by (simp add: pending_def same_setD [OF w'(2)])
  qed
  moreover have "ReconcileReplicaSet cl (Some sch) key w = (Ok (), w')"
    using reconcile_branches [OF laws ord sel, of "Some sch"] up w'(1) by (simp add: Let_def)
  ultimately show ?thesis using w'(2) unfolding progresses_def by blast
qed

lemma progress_down:
  assumes laws: "cluster_laws cl key set_of items_of"
    and ord: "orderly cl set_of items_of sel w" and sel: "Selector (ArrsStatus (set_of w)) = sel"
    and down: "int (length (items_of w)) > desiredReplicas (set_of w)"
  shows "progresses cl sch key set_of items_of sel w"
proof -
  obtain ar rest where items: "items_of w = ar # rest"
    using orderlyD(3) [OF ord] down by (cases "items_of w") auto
  obtain w' where w': "scaleDown cl (set_of w) (items_of w) (int (length (items_of w))) w = (Ok (), w')"
      "same_set (set_of w) (set_of w')"
      "Selector (ArrsStatus (set_of w')) = Selector (ArrsStatus (set_of w))" "items_of w' = rest"
    using reconcile_down [OF laws items orderlyD(1) [OF ord]] by blast
  have "orderly cl set_of items_of sel w'"
    by (rule orderly_transfer [OF ord w'(2)]) (use orderlyD [OF ord] in \<open>auto simp: w'(4) items\<close>)
  moreover have "pending set_of items_of sel w' \<le> pending set_of items_of sel w - 1"
  proof -
    have "aligned (set_of w) (items_of w) \<Longrightarrow> aligned (set_of w) rest" by (simp add: aligned_def items)
    then show ?thesis
      using down sel w'(3,4) items by (simp add: pending_def same_setD [OF w'(2)]) linarith
  qed
  moreover have "ReconcileReplicaSet cl (Some sch) key w = (Ok (), w')"
    using reconcile_branches [OF laws ord sel, of "Some sch"] down w'(1) by (simp add: Let_def)
  ultimately show ?thesis using w'(2) unfolding progresses_def by blast
qed

lemma progress_align:
  assumes laws: "cluster_laws cl key set_of items_of"
    and ord: "orderly cl set_of items_of sel w" and sel: "Selector (ArrsStatus (set_of w)) = sel"
    and eq: "int (length (items_of w)) = desiredReplicas (set_of w)"
  shows "progresses cl sch key set_of items_of sel w"
proof -
  let ?t = "Template (ArrsSpec (set_of w))"
  obtain w' where w': "updateSpecs cl ?t (items_of w) w = (Ok (), w')" "set_of w' = set_of w"
      "items_of w' = map (\<lambda>a. if name_of a \<in> name_of ` {ar \<in> set (items_of w). ArSpec ar \<noteq> ?t} then a\<lparr>ArSpec := ?t\<rparr> else a) (items_of w)"
    using updateSpecs_aligns [OF laws] by blast
  note al = aligned_after_update [OF orderlyD(1) [OF ord], of ?t, folded w'(3)]
  have "orderly cl set_of items_of sel w'"
  proof (rule orderly_transfer [OF ord])
    show "distinct (map name_of (items_of w'))" unfolding al(2) by (rule orderlyD(1) [OF ord])
    show "\<forall>ar\<in>set (items_of w'). \<not> IsBeingDeleted (Some (ArMeta ar))"
      using orderlyD(2) [OF ord] by (auto simp: w'(3))
  qed (simp add: same_set_def w'(2))
  moreover have "pending set_of items_of sel w' \<le> pending set_of items_of sel w - 1"
  proof -
    have "length (items_of w') = length (items_of w)" using al(2) by (rule map_eq_imp_length_eq)
    moreover have "aligned (set_of w) (items_of w')" unfolding aligned_def by (rule al(1))
    ultimately show ?thesis using eq sel by (simp add: pending_def w'(2))
  qed
  moreover have "ReconcileReplicaSet cl (Some sch) key w = (Ok (), w')"
    using reconcile_branches [OF laws ord sel, of "Some sch"] eq w'(1) by (simp add: Let_def)
  ultimately show ?thesis using w'(2) unfolding progresses_def by (auto simp: same_set_def)
qed

lemma reconcile_progress:
  assumes "cluster_laws cl key set_of items_of" and "scheme_laws sch" and "orderly cl set_of items_of sel w"
  shows "progresses cl sch key set_of items_of sel w"
  using progress_selector [OF assms(1,3)] progress_up [OF assms] progress_down [OF assms(1,3)]
    progress_align [OF assms(1,3)]
  by (metis linorder_neqE)

fun reconcileTimes :: "'w arrs_client \<Rightarrow> Scheme \<Rightarrow> NamespacedName \<Rightarrow> nat \<Rightarrow> ('w, unit) go" where
  "reconcileTimes cl sch key 0 = ret ()"
| "reconcileTimes cl sch key (Suc n) =
     andThen (ReconcileReplicaSet cl (Some sch) key) (\<lambda>_. reconcileTimes cl sch key n)"

lemma reconcileTimes_progress:
  assumes "cluster_laws cl key set_of items_of" and "scheme_laws sch"
  shows "orderly cl set_of items_of sel w \<Longrightarrow>
    \<exists>w'. reconcileTimes cl sch key n w = (Ok (), w') \<and> orderly cl set_of items_of sel w' \<and>
      same_set (set_of w) (set_of w') \<and> pending set_of items_of sel w' \<le> pending set_of items_of sel w - n"
proof (induction n arbitrary: w)
  case (Suc n)
  obtain w1 where w1: "ReconcileReplicaSet cl (Some sch) key w = (Ok (), w1)" "orderly cl set_of items_of sel w1"
      "same_set (set_of w) (set_of w1)" "pending set_of items_of sel w1 \<le> pending set_of items_of sel w - 1"
    using reconcile_progress [OF assms Suc.prems] unfolding progresses_def by blast
  obtain w2 where w2: "reconcileTimes cl sch key n w1 = (Ok (), w2)" "orderly cl set_of items_of sel w2"
      "same_set (set_of w1) (set_of w2)" "pending set_of items_of sel w2 \<le> pending set_of items_of sel w1 - n"
    using Suc.IH [OF w1(2)] by blast
  have "reconcileTimes cl sch key (Suc n) w = (Ok (), w2)" using w1(1) w2(1) by (simp add: andThen_def)
  moreover have "same_set (set_of w) (set_of w2)" using w1(3) w2(3) by (simp add: same_set_def)
  ultimately show ?case using w1(4) w2(2,4) by (intro exI [of _ w2]) simp
qed (auto simp: ret_def same_set_def)

section \<open>A cluster to run on\<close>

type_synonym cluster = "ActionsRunnerReplicaSet \<times> ActionsRunner list"

definition freshName :: "ActionsRunner list \<Rightarrow> string" where
  "freshName items = replicate (Suc (sum_list (map (\<lambda>a. length (name_of a)) items))) CHR ''x''"

definition demo_arrs_client :: "cluster arrs_client" where
  "demo_arrs_client = \<lparr>
     GetArrs = (\<lambda>key (s, items). (Inr s, (s, items))),
     UpdateArrsStatus = (\<lambda>a (s, items). (Inr (), (s\<lparr>ArrsStatus := ArrsStatus a\<rparr>, items))),
     ListRunners = (\<lambda>ns labels (s, items). (Inr items, (s, items))),
     CreateRunner = (\<lambda>ar (s, items). (Inr (), (s, ar\<lparr>ArMeta := (ArMeta ar)\<lparr>MetaName := freshName items, DeletionTimestamp := None\<rparr>\<rparr> # items))),
     DeleteRunner = (\<lambda>ar (s, items). (Inr (), (s, filter (\<lambda>a. MetaName (ArMeta a) \<noteq> MetaName (ArMeta ar)) items))),
     UpdateRunner = (\<lambda>ar (s, items). (Inr (), (s, map (\<lambda>a. if MetaName (ArMeta a) = MetaName (ArMeta ar) then a\<lparr>ArSpec := ArSpec ar\<rparr> else a) items))),
     LabelSelectorAsSelector = (\<lambda>ls. Inr (concat (map (\<lambda>(k, v). k @ ''='' @ v) ls)))\<rparr>"

lemma freshName_fresh: "freshName items \<notin> (\<lambda>a. MetaName (ArMeta a)) ` set items"
proof
  assume "freshName items \<in> (\<lambda>a. MetaName (ArMeta a)) ` set items"
  then obtain a where a: "a \<in> set items" "length (freshName items) = length (name_of a)" by (auto simp: name_of_def)
  have "length (name_of a) \<le> sum_list (map (\<lambda>a. length (name_of a)) items)"
    using a(1) by (simp add: member_le_sum_list)
  with a(2) show False by (simp add: freshName_def)
qed

lemma demo_cluster_laws: "cluster_laws demo_arrs_client key fst snd"
  unfolding cluster_laws_def
proof (intro conjI allI)
  fix ar :: ActionsRunner and w :: cluster
  let ?ar = "ar\<lparr>ArMeta := (ArMeta ar)\<lparr>MetaName := freshName (snd w), DeletionTimestamp := None\<rparr>\<rparr>"
  have "CreateRunner demo_arrs_client ar w = (Inr (), (fst w, ?ar # snd w))"
    by (simp add: demo_arrs_client_def split: prod.splits)
  moreover have "insert_somewhere ?ar (snd w) (?ar # snd w)"
    unfolding insert_somewhere_def by (rule exI [of _ "[]"]) simp
  ultimately show "\<exists>w' ar'. CreateRunner demo_arrs_client ar w = (Inr (), w') \<and> fst w' = fst w \<and> ArSpec ar' = ArSpec ar \<and>
      \<not> IsBeingDeleted (Some (ArMeta ar')) \<and> MetaName (ArMeta ar') \<notin> (\<lambda>a. MetaName (ArMeta a)) ` set (snd w) \<and>
      insert_somewhere ar' (snd w) (snd w')"
    using freshName_fresh [of "snd w"]
    by (intro exI [of _ "(fst w, ?ar # snd w)"] exI [of _ ?ar]) (simp add: IsBeingDeleted_def)
qed (simp_all add: demo_arrs_client_def split: prod.splits)

definition demo_set :: "64 word \<Rightarrow> ActionsRunnerReplicaSet" where
  "demo_set n = \<lparr>ArrsMeta = zeroMeta\<lparr>MetaName := ''rs''\<rparr>, ArrsSpec = \<lparr>Replicas = n, Template = emptySpec\<rparr>,
     ArrsStatus = \<lparr>StatusReplicas = 0, Selector = replicaSetLabel @ ''=rs''\<rparr>\<rparr>"

definition demo_rs_key :: NamespacedName where
  "demo_rs_key = \<lparr>KeyNamespace = [], KeyName = ''rs''\<rparr>"

section \<open>Properties\<close>



text \<open>
  Scaling down can pick a runner that is already being deleted. When the first runner of the list is
  in deletion and there are more live runners than desired, the call deletes that one again; with an
  API server for which that is a no-op, nothing is removed, and the status is written as one less than the live runners.
\<close>

theorem scale_down_may_delete_a_dying_runner:
  assumes "GetArrs cl key w = (Inr arrs, w)" and "\<not> IsBeingDeleted (Some (ArrsMeta arrs))"
    and "LabelSelectorAsSelector cl (matchingLabels arrs) = Inr (Selector (ArrsStatus arrs))"
    and "ListRunners cl (MetaNamespace (ArrsMeta arrs)) (matchingLabels arrs) w = (Inr (ar # items), w)"
    and "IsBeingDeleted (Some (ArMeta ar))"
    and "desiredReplicas arrs < int (length (liveRunners items))"
    and "DeleteRunner cl ar w = (Inr (), w)"
    and "UpdateArrsStatus cl (withStatusReplicas (int (length (liveRunners items)) - 1) arrs) w = (Inr (), w')"
  shows "ReconcileReplicaSet cl sch key w = (Ok (), w')"
proof -
  have l: "liveRunners (ar # items) = liveRunners items" using assms(5) by (simp add: liveRunners_def)
  show ?thesis
    using assms
    by (simp add: ReconcileReplicaSet_def attempt_def andThen_def external_def [of "GetArrs cl key"] lift_res_def
        desiredSelector_def listOpts_def external_def [of "ListRunners cl _ _"] l Let_def scaleDown_def
        external_def [of "DeleteRunner cl ar"] ignore_external)
qed

definition dying :: "string \<Rightarrow> int option \<Rightarrow> ActionsRunner" where
  "dying n t = zeroRunner\<lparr>ArMeta := zeroMeta\<lparr>MetaName := n, DeletionTimestamp := t\<rparr>\<rparr>"

text \<open>Foreground deletion: a runner in deletion stays listed until its dependents are gone.\<close>

definition foreground_client :: "cluster arrs_client" where
  "foreground_client = demo_arrs_client\<lparr>DeleteRunner := (\<lambda>ar (s, items). (Inr (), (s, map (\<lambda>a.
     if name_of a = name_of ar \<and> \<not> IsBeingDeleted (Some (ArMeta a))
     then a\<lparr>ArMeta := (ArMeta a)\<lparr>DeletionTimestamp := Some 1\<rparr>\<rparr> else a) items)))\<rparr>"

theorem scale_down_may_delete_a_dying_runner_witness:
  "let items = [dying ''a'' (Some 1), dying ''b'' None, dying ''c'' None] in
   ReconcileReplicaSet foreground_client (Some demo_scheme) demo_rs_key (demo_set 1, items) =
     (Ok (), (withStatusReplicas 1 (demo_set 1), items))"
  unfolding Let_def
  by (rule scale_down_may_delete_a_dying_runner [where arrs = "demo_set 1" and ar = "dying ''a'' (Some 1)"
        and items = "[dying ''b'' None, dying ''c'' None]"])
     (simp_all add: foreground_client_def demo_arrs_client_def demo_set_def IsBeingDeleted_def zeroMeta_def
       matchingLabels_def dying_def zeroRunner_def desiredReplicas_def liveRunners_def name_of_def withStatusReplicas_def)

text \<open>
  A replica count of \<open>2^63\<close> or more turns negative when it is read as an \<^verbatim>\<open>int\<close>: the reconciler then
  deletes runners instead of creating them, and panics with an index out of range when the set has none.
\<close>

theorem huge_replicas_panic:
  assumes "GetArrs cl key w = (Inr arrs, w)" and "\<not> IsBeingDeleted (Some (ArrsMeta arrs))"
    and "LabelSelectorAsSelector cl (matchingLabels arrs) = Inr (Selector (ArrsStatus arrs))"
    and "ListRunners cl (MetaNamespace (ArrsMeta arrs)) (matchingLabels arrs) w = (Inr [], w)"
    and "2 ^ 63 \<le> unat (Replicas (ArrsSpec arrs))"
  shows "ReconcileReplicaSet cl sch key w = (Panic ''index out of range'', w)"
proof -
  have "sint (Replicas (ArrsSpec arrs)) < 0"
  proof (rule ccontr)
    let ?r = "Replicas (ArrsSpec arrs)"
    assume "\<not> sint ?r < 0"
    moreover have "sint ?r < 2 ^ 63" using sint_lt [of ?r] by simp
    ultimately have "uint ?r = sint ?r" by (simp add: uint_sint take_bit_eq_mod)
    with \<open>sint ?r < 2 ^ 63\<close> have "unat ?r < 2 ^ 63" by (simp add: unat_eq_nat_uint)
    with assms(5) show False by simp
  qed
  then show ?thesis
    using assms(1-4)
    by (simp add: ReconcileReplicaSet_def attempt_def andThen_def external_def lift_res_def
        desiredSelector_def listOpts_def Let_def scaleDown_def liveRunners_def desiredReplicas_def panic_def)
qed

theorem huge_replicas_panic_witness:
  "ReconcileReplicaSet demo_arrs_client (Some demo_scheme) demo_rs_key (demo_set (2 ^ 63), []) =
     (Panic ''index out of range'', (demo_set (2 ^ 63), []))"
  by (rule huge_replicas_panic [where arrs = "demo_set (2 ^ 63)"])
     (simp_all add: demo_arrs_client_def demo_set_def IsBeingDeleted_def zeroMeta_def matchingLabels_def)

end
