(* ===== verification/Job_Reconciler.thy ===== *)
theory Job_Reconciler
  imports Converters Replica_Set
begin

text \<open>
  The job reconciler (\<^verbatim>\<open>operator/internal/controller/actionsrunnerjob/reconciler.go\<close>): it creates the claim
  and the pod of a job, mirrors their phases in the job's status and deletes a lost claim and an
  unknown pod. The client is a parameter; \<open>jobStep\<close> is the abstract specification of one call on
  what the cluster holds under the job's name.
\<close>

section \<open>The reconciler\<close>

record 'w arj_client =
  GetArj :: "NamespacedName \<Rightarrow> 'w \<Rightarrow> (goerr + ActionsRunnerJob) \<times> 'w"
  GetAr :: "NamespacedName \<Rightarrow> 'w \<Rightarrow> (goerr + ActionsRunner) \<times> 'w"
  GetPvc :: "NamespacedName \<Rightarrow> 'w \<Rightarrow> (goerr + PersistentVolumeClaim) \<times> 'w"
  GetPod :: "NamespacedName \<Rightarrow> 'w \<Rightarrow> (goerr + Pod) \<times> 'w"
  CreatePvc :: "PersistentVolumeClaim \<Rightarrow> 'w \<Rightarrow> (goerr + unit) \<times> 'w"
  CreatePod :: "Pod \<Rightarrow> 'w \<Rightarrow> (goerr + unit) \<times> 'w"
  DeletePvc :: "PersistentVolumeClaim \<Rightarrow> 'w \<Rightarrow> (goerr + unit) \<times> 'w"
  DeletePod :: "Pod \<Rightarrow> 'w \<Rightarrow> (goerr + unit) \<times> 'w"
  UpdateArjStatus :: "ActionsRunnerJob \<Rightarrow> 'w \<Rightarrow> (goerr + unit) \<times> 'w"

datatype event_kind = EvCreate | EvUpdate | EvDelete | EvGeneric | EvUnknown

definition kind_of_event :: "'o event \<Rightarrow> event_kind" where
  "kind_of_event e = (case e of CreateEvent _ \<Rightarrow> EvCreate | UpdateEvent _ _ \<Rightarrow> EvUpdate | DeleteEvent _ \<Rightarrow> EvDelete
     | GenericEvent _ \<Rightarrow> EvGeneric | UnknownEvent \<Rightarrow> EvUnknown)"

text \<open>The events that trigger a reconciliation; an object is its kind here.\<close>

definition jobEventFilter :: "kind event \<Rightarrow> bool" where
  "jobEventFilter e = (case EventObject e of
       Some KActionsRunnerJob \<Rightarrow> kind_of_event e = EvCreate \<or> kind_of_event e = EvUpdate
     | Some KPersistentVolumeClaim \<Rightarrow> kind_of_event e = EvUpdate \<or> kind_of_event e = EvDelete
     | Some KPod \<Rightarrow> kind_of_event e = EvUpdate \<or> kind_of_event e = EvDelete
     | _ \<Rightarrow> True)"

text \<open>\<^verbatim>\<open>if err := m(); controllers.IgnoreAlreadyExists(err) != nil { return err }\<close>\<close>

definition ignoreExists :: "('s, unit) go \<Rightarrow> ('s, unit) go" where
  "ignoreExists m = attempt m (\<lambda>r. case r of
       Inr _ \<Rightarrow> ret ()
     | Inl e \<Rightarrow> (case IgnoreAlreadyExists (Some e) of None \<Rightarrow> ret () | Some e' \<Rightarrow> fail e'))"

text \<open>\<^verbatim>\<open>Get\<close> that tells a missing object from a failure: \<open>None\<close> when it is not found.\<close>

definition getOr :: "('w \<Rightarrow> (goerr + 'a) \<times> 'w) \<Rightarrow> ('w, 'a option) go" where
  "getOr f = attempt (external f) (\<lambda>r. case r of
       Inr x \<Rightarrow> ret (Some x)
     | Inl e \<Rightarrow> if isNotFound e then ret None else fail e)"

definition setClaimPhase :: "ClaimPhase \<Rightarrow> ActionsRunnerJob \<Rightarrow> ActionsRunnerJob" where
  "setClaimPhase p j = j\<lparr>ArjStatus := (ArjStatus j)\<lparr>PersistentVolumeClaimPhase := p\<rparr>\<rparr>"

definition setPodPhase :: "PodPhase \<Rightarrow> ActionsRunnerJob \<Rightarrow> ActionsRunnerJob" where
  "setPodPhase p j = j\<lparr>ArjStatus := (ArjStatus j)\<lparr>JobPodPhase := p\<rparr>\<rparr>"

definition reconcilePod ::
    "conv_env \<Rightarrow> 'w arj_client \<Rightarrow> Scheme option \<Rightarrow> NamespacedName \<Rightarrow> ActionsRunner \<Rightarrow> ActionsRunnerJob \<Rightarrow> ('w, unit) go" where
  "reconcilePod env cl scheme key ar arj =
     andThen (getOr (GetPod cl key)) (\<lambda>found.
     andThen (case found of
         None \<Rightarrow> andThen (lift_res (ToPod env (Some ar) (Some arj) scheme)) (\<lambda>pod.
                 ignoreExists (external (CreatePod cl pod)))
       | Some _ \<Rightarrow> ret ()) (\<lambda>_.
     let pod = (case found of None \<Rightarrow> zeroPod | Some p \<Rightarrow> p); phase = PodPhaseOf pod in
     if JobPodPhase (ArjStatus arj) \<noteq> phase
     then ignoreNotFound (external (UpdateArjStatus cl (setPodPhase phase arj)))
     else if IsBeingDeleted (Some (PodMeta pod)) then ret ()
     else if phase = PodUnknown then ignoreNotFound (external (DeletePod cl pod))
     else ret ()))"

definition ReconcileJob ::
    "conv_env \<Rightarrow> 'w arj_client \<Rightarrow> Scheme option \<Rightarrow> NamespacedName \<Rightarrow> ('w, unit) go" where
  "ReconcileJob env cl scheme key =
     andThen (getOr (GetArj cl key)) (\<lambda>fj. case fj of None \<Rightarrow> ret () | Some arj \<Rightarrow>
     if IsBeingDeleted (Some (ArjMeta arj)) then ret () else
     andThen (getOr (GetAr cl key)) (\<lambda>fa. case fa of None \<Rightarrow> ret () | Some ar \<Rightarrow>
     if IsBeingDeleted (Some (ArMeta ar)) then ret () else
     andThen (getOr (GetPvc cl key)) (\<lambda>found.
     andThen (case found of
         None \<Rightarrow> andThen (lift_res (ToPersistentVolumeClaim (Some ar) (Some arj) scheme)) (\<lambda>des. case des of
             None \<Rightarrow> ret ()
           | Some pvc \<Rightarrow> ignoreExists (external (CreatePvc cl pvc)))
       | Some _ \<Rightarrow> ret ()) (\<lambda>_.
     let pvc = (case found of None \<Rightarrow> zeroPvc | Some p \<Rightarrow> p); phase = PvcPhase pvc in
     if PersistentVolumeClaimPhase (ArjStatus arj) \<noteq> phase
     then ignoreNotFound (external (UpdateArjStatus cl (setClaimPhase phase arj)))
     else if IsBeingDeleted (Some (PvcMeta pvc)) then ret ()
     else if phase = ClaimLost then ignoreNotFound (external (DeletePvc cl pvc))
     else reconcilePod env cl scheme key ar arj))))"

section \<open>The specification of one call\<close>

text \<open>What the cluster holds under the name of the job.\<close>

record job_view =
  v_arj :: "ActionsRunnerJob option"
  v_ar :: "ActionsRunner option"
  v_pvc :: "PersistentVolumeClaim option"
  v_pod :: "Pod option"

text \<open>
  What the API server makes of an object it is given: the stored form of a created claim or pod
  (with the phase it starts in), and what is left of one that is deleted.
\<close>

record server =
  admitPvc :: "PersistentVolumeClaim \<Rightarrow> PersistentVolumeClaim"
  admitPod :: "Pod \<Rightarrow> Pod"
  leftPvc :: "PersistentVolumeClaim \<Rightarrow> PersistentVolumeClaim option"
  leftPod :: "Pod \<Rightarrow> Pod option"

definition claimFor :: "Scheme \<Rightarrow> ActionsRunner \<Rightarrow> ActionsRunnerJob \<Rightarrow> PersistentVolumeClaim option" where
  "claimFor sch ar arj = (case ToPersistentVolumeClaim (Some ar) (Some arj) (Some sch) of Ok p \<Rightarrow> p | _ \<Rightarrow> None)"

definition podFor :: "conv_env \<Rightarrow> Scheme \<Rightarrow> ActionsRunner \<Rightarrow> ActionsRunnerJob \<Rightarrow> Pod" where
  "podFor env sch ar arj = (case ToPod env (Some ar) (Some arj) (Some sch) of Ok p \<Rightarrow> p | _ \<Rightarrow> zeroPod)"

definition podStep :: "conv_env \<Rightarrow> server \<Rightarrow> Scheme \<Rightarrow> ActionsRunner \<Rightarrow> ActionsRunnerJob \<Rightarrow> job_view \<Rightarrow> job_view" where
  "podStep env sv sch ar arj v = (case v_pod v of
       None \<Rightarrow> let v1 = v\<lparr>v_pod := Some (admitPod sv (podFor env sch ar arj))\<rparr> in
         if JobPodPhase (ArjStatus arj) \<noteq> NoPodPhase then v1\<lparr>v_arj := Some (setPodPhase NoPodPhase arj)\<rparr> else v1
     | Some pod \<Rightarrow>
         if JobPodPhase (ArjStatus arj) \<noteq> PodPhaseOf pod then v\<lparr>v_arj := Some (setPodPhase (PodPhaseOf pod) arj)\<rparr>
         else if \<not> IsBeingDeleted (Some (PodMeta pod)) \<and> PodPhaseOf pod = PodUnknown then v\<lparr>v_pod := leftPod sv pod\<rparr>
         else v)"

definition jobStep :: "conv_env \<Rightarrow> server \<Rightarrow> Scheme \<Rightarrow> job_view \<Rightarrow> job_view" where
  "jobStep env sv sch v = (case (v_arj v, v_ar v) of
       (Some arj, Some ar) \<Rightarrow>
         if IsBeingDeleted (Some (ArjMeta arj)) \<or> IsBeingDeleted (Some (ArMeta ar)) then v
         else (case v_pvc v of
             None \<Rightarrow> let v1 = (case claimFor sch ar arj of None \<Rightarrow> v | Some p \<Rightarrow> v\<lparr>v_pvc := Some (admitPvc sv p)\<rparr>) in
               if PersistentVolumeClaimPhase (ArjStatus arj) \<noteq> NoClaimPhase
               then v1\<lparr>v_arj := Some (setClaimPhase NoClaimPhase arj)\<rparr> else podStep env sv sch ar arj v1
           | Some pvc \<Rightarrow>
               if PersistentVolumeClaimPhase (ArjStatus arj) \<noteq> PvcPhase pvc
               then v\<lparr>v_arj := Some (setClaimPhase (PvcPhase pvc) arj)\<rparr>
               else if IsBeingDeleted (Some (PvcMeta pvc)) then v
               else if PvcPhase pvc = ClaimLost then v\<lparr>v_pvc := leftPvc sv pvc\<rparr>
               else podStep env sv sch ar arj v)
     | _ \<Rightarrow> v)"

text \<open>The client as documented, seen through a view of the world.\<close>

definition fetched :: "'a option \<Rightarrow> goerr + 'a" where
  "fetched x = (case x of None \<Rightarrow> Inl (StatusError NotFound) | Some a \<Rightarrow> Inr a)"

definition job_laws :: "'w arj_client \<Rightarrow> server \<Rightarrow> NamespacedName \<Rightarrow> ('w \<Rightarrow> job_view) \<Rightarrow> bool" where
  "job_laws cl sv key view \<longleftrightarrow>
     (\<forall>w. GetArj cl key w = (fetched (v_arj (view w)), w)) \<and>
     (\<forall>w. GetAr cl key w = (fetched (v_ar (view w)), w)) \<and>
     (\<forall>w. GetPvc cl key w = (fetched (v_pvc (view w)), w)) \<and>
     (\<forall>w. GetPod cl key w = (fetched (v_pod (view w)), w)) \<and>
     (\<forall>p w. v_pvc (view w) = None \<longrightarrow> (\<exists>w'. CreatePvc cl p w = (Inr (), w') \<and> view w' = (view w)\<lparr>v_pvc := Some (admitPvc sv p)\<rparr>)) \<and>
     (\<forall>p w. v_pod (view w) = None \<longrightarrow> (\<exists>w'. CreatePod cl p w = (Inr (), w') \<and> view w' = (view w)\<lparr>v_pod := Some (admitPod sv p)\<rparr>)) \<and>
     (\<forall>p w. \<exists>w'. DeletePvc cl p w = (Inr (), w') \<and> view w' = (view w)\<lparr>v_pvc := leftPvc sv p\<rparr>) \<and>
     (\<forall>p w. \<exists>w'. DeletePod cl p w = (Inr (), w') \<and> view w' = (view w)\<lparr>v_pod := leftPod sv p\<rparr>) \<and>
     (\<forall>j w. \<exists>w'. UpdateArjStatus cl j w = (Inr (), w') \<and> view w' = (view w)\<lparr>v_arj := Some j\<rparr>)"

lemma job_lawsD:
  assumes "job_laws cl sv key view"
  shows "GetArj cl key w = (fetched (v_arj (view w)), w)"
    and "GetAr cl key w = (fetched (v_ar (view w)), w)"
    and "GetPvc cl key w = (fetched (v_pvc (view w)), w)"
    and "GetPod cl key w = (fetched (v_pod (view w)), w)"
    and "v_pvc (view w) = None \<Longrightarrow> \<exists>w'. CreatePvc cl p w = (Inr (), w') \<and> view w' = (view w)\<lparr>v_pvc := Some (admitPvc sv p)\<rparr>"
    and "v_pod (view w) = None \<Longrightarrow> \<exists>w'. CreatePod cl q w = (Inr (), w') \<and> view w' = (view w)\<lparr>v_pod := Some (admitPod sv q)\<rparr>"
    and "\<exists>w'. DeletePvc cl p w = (Inr (), w') \<and> view w' = (view w)\<lparr>v_pvc := leftPvc sv p\<rparr>"
    and "\<exists>w'. DeletePod cl q w = (Inr (), w') \<and> view w' = (view w)\<lparr>v_pod := leftPod sv q\<rparr>"
    and "\<exists>w'. UpdateArjStatus cl j w = (Inr (), w') \<and> view w' = (view w)\<lparr>v_arj := Some j\<rparr>"
  using assms unfolding job_laws_def by blast+

lemma getOr_fetched: "f w = (fetched x, w) \<Longrightarrow> getOr f w = (Ok x, w)"
  by (cases x) (simp_all add: getOr_def fetched_def go_simps)

lemma ignoreExists_external: "f s = (Inr (), t) \<Longrightarrow> ignoreExists (external f) s = (Ok (), t)"
  by (simp add: ignoreExists_def go_simps)

section \<open>The reconciler implements its specification\<close>

lemma podFor_Ok: "scheme_laws sch \<Longrightarrow> ToPod env (Some ar) (Some arj) (Some sch) = Ok (podFor env sch ar arj)"
  using ToPod_total [of sch env ar arj] by (auto simp: podFor_def)

lemma claimFor_Ok: "scheme_laws sch \<Longrightarrow> ToPersistentVolumeClaim (Some ar) (Some arj) (Some sch) = Ok (claimFor sch ar arj)"
  by (simp add: claimFor_def ToPersistentVolumeClaim_def scheme_lawsD(2) namedMeta_def zeroMeta_def)

lemma zero_phases [simp]:
  "PvcPhase zeroPvc = NoClaimPhase" "PvcMeta zeroPvc = zeroMeta" "PodPhaseOf zeroPod = NoPodPhase" "PodMeta zeroPod = zeroMeta"
  by (simp_all add: zeroPvc_def zeroPod_def)

lemma reconcilePod_refines:
  assumes laws: "job_laws cl sv key view" and sch: "scheme_laws sch"
  shows "\<exists>w'. reconcilePod env cl (Some sch) key ar arj w = (Ok (), w') \<and> view w' = podStep env sv sch ar arj (view w)"
proof (cases "v_pod (view w)")
  case None
  have g: "getOr (GetPod cl key) w = (Ok None, w)"
    using getOr_fetched [of "GetPod cl key" w "v_pod (view w)"] job_lawsD(4) [OF laws, of w] None by simp
  obtain w1 where c: "CreatePod cl (podFor env sch ar arj) w = (Inr (), w1)"
      and w1: "view w1 = (view w)\<lparr>v_pod := Some (admitPod sv (podFor env sch ar arj))\<rparr>"
    using job_lawsD(6) [OF laws None] by blast
  obtain w2 where u: "UpdateArjStatus cl (setPodPhase NoPodPhase arj) w1 = (Inr (), w2)"
      and w2: "view w2 = (view w1)\<lparr>v_arj := Some (setPodPhase NoPodPhase arj)\<rparr>"
    using job_lawsD(9) [OF laws] by blast
  show ?thesis
    using None w1 w2
    by (auto simp: reconcilePod_def andThen_def g lift_res_def podFor_Ok [OF sch] ignoreExists_external c
        ignore_external u Let_def ret_def podStep_def)
next
  case (Some pod)
  have g: "getOr (GetPod cl key) w = (Ok (Some pod), w)"
    using getOr_fetched [of "GetPod cl key" w "v_pod (view w)"] job_lawsD(4) [OF laws, of w] Some by simp
  obtain w2 where u: "UpdateArjStatus cl (setPodPhase (PodPhaseOf pod) arj) w = (Inr (), w2)"
      and w2: "view w2 = (view w)\<lparr>v_arj := Some (setPodPhase (PodPhaseOf pod) arj)\<rparr>"
    using job_lawsD(9) [OF laws] by blast
  obtain w3 where d: "DeletePod cl pod w = (Inr (), w3)" and w3: "view w3 = (view w)\<lparr>v_pod := leftPod sv pod\<rparr>"
    using job_lawsD(8) [OF laws] by blast
  show ?thesis
    using Some w2 w3
    by (auto simp: reconcilePod_def andThen_def g ret_def ignore_external u d Let_def podStep_def)
qed

lemma createClaim_refines:
  assumes laws: "job_laws cl sv key view" and none: "v_pvc (view w) = None"
  shows "\<exists>w1. (case c of None \<Rightarrow> ret () | Some pvc \<Rightarrow> ignoreExists (external (CreatePvc cl pvc))) w = (Ok (), w1) \<and>
    view w1 = (case c of None \<Rightarrow> view w | Some p \<Rightarrow> (view w)\<lparr>v_pvc := Some (admitPvc sv p)\<rparr>)"
proof (cases c)
  case (Some p)
  obtain w1 where "CreatePvc cl p w = (Inr (), w1)" "view w1 = (view w)\<lparr>v_pvc := Some (admitPvc sv p)\<rparr>"
    using job_lawsD(5) [OF laws none] by blast
  then show ?thesis using Some by (intro exI [of _ w1]) (simp add: ignoreExists_external)
qed (simp add: ret_def)

lemma ReconcileJob_refines:
  assumes laws: "job_laws cl sv key view" and sch: "scheme_laws sch"
  shows "\<exists>w'. ReconcileJob env cl (Some sch) key w = (Ok (), w') \<and> view w' = jobStep env sv sch (view w)"
proof -
  have g: "getOr (GetArj cl key) w = (Ok (v_arj (view w)), w)" "getOr (GetAr cl key) w = (Ok (v_ar (view w)), w)"
      "getOr (GetPvc cl key) w = (Ok (v_pvc (view w)), w)" for w
    using getOr_fetched job_lawsD(1-3) [OF laws, of w] by metis+
  show ?thesis
  proof (cases "\<exists>arj ar. v_arj (view w) = Some arj \<and> v_ar (view w) = Some ar \<and>
      \<not> IsBeingDeleted (Some (ArjMeta arj)) \<and> \<not> IsBeingDeleted (Some (ArMeta ar))")
    case False
    then show ?thesis
      by (cases "v_arj (view w)"; cases "v_ar (view w)")
         (auto simp: ReconcileJob_def andThen_def g ret_def jobStep_def)
  next
    case True
    then obtain arj ar where a: "v_arj (view w) = Some arj" "v_ar (view w) = Some ar"
        "\<not> IsBeingDeleted (Some (ArjMeta arj))" "\<not> IsBeingDeleted (Some (ArMeta ar))" by blast
    note run = ReconcileJob_def andThen_def g a ret_def lift_res_def claimFor_Ok [OF sch] Let_def jobStep_def
    show ?thesis
    proof (cases "v_pvc (view w)")
      case None
      obtain w1 where w1: "(case claimFor sch ar arj of None \<Rightarrow> ret () | Some pvc \<Rightarrow> ignoreExists (external (CreatePvc cl pvc))) w = (Ok (), w1)"
          "view w1 = (case claimFor sch ar arj of None \<Rightarrow> view w | Some p \<Rightarrow> (view w)\<lparr>v_pvc := Some (admitPvc sv p)\<rparr>)"
        using createClaim_refines [OF laws None] by blast
      obtain w2 where u: "UpdateArjStatus cl (setClaimPhase NoClaimPhase arj) w1 = (Inr (), w2)"
          and w2: "view w2 = (view w1)\<lparr>v_arj := Some (setClaimPhase NoClaimPhase arj)\<rparr>"
        using job_lawsD(9) [OF laws] by blast
      obtain w3 where w3: "reconcilePod env cl (Some sch) key ar arj w1 = (Ok (), w3)" "view w3 = podStep env sv sch ar arj (view w1)"
        using reconcilePod_refines [OF laws sch] by blast
      show ?thesis
        using None w1 w2 w3 by (auto simp: run ignore_external u)
    next
      case (Some pvc)
      obtain w2 where u: "UpdateArjStatus cl (setClaimPhase (PvcPhase pvc) arj) w = (Inr (), w2)"
          and w2: "view w2 = (view w)\<lparr>v_arj := Some (setClaimPhase (PvcPhase pvc) arj)\<rparr>"
        using job_lawsD(9) [OF laws] by blast
      obtain w3 where d: "DeletePvc cl pvc w = (Inr (), w3)" and w3: "view w3 = (view w)\<lparr>v_pvc := leftPvc sv pvc\<rparr>"
        using job_lawsD(7) [OF laws] by blast
      obtain w4 where w4: "reconcilePod env cl (Some sch) key ar arj w = (Ok (), w4)" "view w4 = podStep env sv sch ar arj (view w)"
        using reconcilePod_refines [OF laws sch] by blast
      show ?thesis
        using Some w2 w3 w4 by (auto simp: run ignore_external u d)
    qed
  qed
qed

section \<open>Progress of a job\<close>

text \<open>
  A job under way: job and runner exist and stay, no claim or pod is being deleted, lost or unknown,
  and the server starts claims and pods in good order.
\<close>

definition goodPvc :: "PersistentVolumeClaim \<Rightarrow> bool" where
  "goodPvc p \<longleftrightarrow> \<not> IsBeingDeleted (Some (PvcMeta p)) \<and> PvcPhase p \<noteq> ClaimLost"

definition goodPod :: "Pod \<Rightarrow> bool" where
  "goodPod p \<longleftrightarrow> \<not> IsBeingDeleted (Some (PodMeta p)) \<and> PodPhaseOf p \<noteq> PodUnknown"

definition good_server :: "server \<Rightarrow> bool" where
  "good_server sv \<longleftrightarrow> (\<forall>p. goodPvc (admitPvc sv p)) \<and> (\<forall>p. goodPod (admitPod sv p))"

definition under_way :: "ActionsRunner \<Rightarrow> ObjectMeta \<Rightarrow> job_view \<Rightarrow> bool" where
  "under_way ar jm v \<longleftrightarrow> v_ar v = Some ar \<and> \<not> IsBeingDeleted (Some (ArMeta ar)) \<and>
     (\<exists>arj. v_arj v = Some arj \<and> ArjMeta arj = jm) \<and> \<not> IsBeingDeleted (Some jm) \<and>
     (\<forall>p. v_pvc v = Some p \<longrightarrow> goodPvc p) \<and> (\<forall>p. v_pod v = Some p \<longrightarrow> goodPod p)"

definition claimPhaseOf :: "job_view \<Rightarrow> ClaimPhase" where
  "claimPhaseOf v = (case v_pvc v of None \<Rightarrow> NoClaimPhase | Some p \<Rightarrow> PvcPhase p)"

definition podPhaseOf :: "job_view \<Rightarrow> PodPhase" where
  "podPhaseOf v = (case v_pod v of None \<Rightarrow> NoPodPhase | Some p \<Rightarrow> PodPhaseOf p)"

definition claimMissing :: "job_view \<Rightarrow> bool" where
  "claimMissing v \<longleftrightarrow> v_pvc v = None \<and> HasActionsRunnerRequestedStorage (v_ar v)"

definition claimStale :: "job_view \<Rightarrow> bool" where
  "claimStale v \<longleftrightarrow> (\<forall>j. v_arj v = Some j \<longrightarrow> PersistentVolumeClaimPhase (ArjStatus j) \<noteq> claimPhaseOf v)"

definition podStale :: "job_view \<Rightarrow> bool" where
  "podStale v \<longleftrightarrow> (\<forall>j. v_arj v = Some j \<longrightarrow> JobPodPhase (ArjStatus j) \<noteq> podPhaseOf v)"

definition job_pending :: "job_view \<Rightarrow> nat" where
  "job_pending v = (if claimMissing v then 2 else 0) + (if claimStale v then 1 else 0) +
     (if v_pod v = None then 2 else 0) + (if podStale v then 1 else 0)"

lemma claimFor_None_iff:
  "scheme_laws sch \<Longrightarrow> claimFor sch ar arj = None \<longleftrightarrow> \<not> HasActionsRunnerRequestedStorage (Some ar)"
  by (simp add: claimFor_def ToPersistentVolumeClaim_def scheme_lawsD(2) namedMeta_def zeroMeta_def)

lemma set_phase_simps [simp]:
  "ArjMeta (setClaimPhase p j) = ArjMeta j" "ArjMeta (setPodPhase q j) = ArjMeta j"
  "PersistentVolumeClaimPhase (ArjStatus (setClaimPhase p j)) = p"
  "JobPodPhase (ArjStatus (setClaimPhase p j)) = JobPodPhase (ArjStatus j)"
  "JobPodPhase (ArjStatus (setPodPhase q j)) = q"
  "PersistentVolumeClaimPhase (ArjStatus (setPodPhase q j)) = PersistentVolumeClaimPhase (ArjStatus j)"
  by (simp_all add: setClaimPhase_def setPodPhase_def)

lemmas view_defs = claimMissing_def claimStale_def podStale_def claimPhaseOf_def podPhaseOf_def job_pending_def

lemma podStep_progress:
  assumes sv: "good_server sv" and v: "under_way ar jm v" "v_arj v = Some arj"
  shows "under_way ar jm (podStep env sv sch ar arj v)"
    and "v_pvc (podStep env sv sch ar arj v) = v_pvc v"
    and "\<not> claimStale v \<Longrightarrow> \<not> claimStale (podStep env sv sch ar arj v)"
    and "(if v_pod (podStep env sv sch ar arj v) = None then 2 else 0) + (if podStale (podStep env sv sch ar arj v) then 1 else 0)
       \<le> ((if v_pod v = None then 2 else 0) + (if podStale v then 1 else 0)) - (1::nat)"
proof -
  have adm: "goodPod (admitPod sv p)" for p using sv by (simp add: good_server_def)
  show "under_way ar jm (podStep env sv sch ar arj v)"
    using v adm by (cases "v_pod v") (auto simp: podStep_def under_way_def goodPod_def Let_def)
  show "v_pvc (podStep env sv sch ar arj v) = v_pvc v"
    by (cases "v_pod v") (auto simp: podStep_def Let_def)
  show "\<not> claimStale v \<Longrightarrow> \<not> claimStale (podStep env sv sch ar arj v)"
    using v(2) by (cases "v_pod v"; cases "v_pvc v") (auto simp: podStep_def Let_def claimStale_def claimPhaseOf_def)
  show "(if v_pod (podStep env sv sch ar arj v) = None then 2 else 0) + (if podStale (podStep env sv sch ar arj v) then 1 else 0)
       \<le> ((if v_pod v = None then 2 else 0) + (if podStale v then 1 else 0)) - (1::nat)"
  proof (cases "v_pod v")
    case None
    then show ?thesis using v(2) by (auto simp: podStep_def Let_def podStale_def podPhaseOf_def)
  next
    case (Some p)
    then have "goodPod p" using v(1) by (simp add: under_way_def)
    then show ?thesis using v(2) Some by (auto simp: podStep_def podStale_def podPhaseOf_def goodPod_def)
  qed
qed

lemma claim_created:
  assumes sch: "scheme_laws sch" and sv: "good_server sv" and v: "under_way ar jm v" "v_pvc v = None"
    and v1_def: "v1 = (case claimFor sch ar arj of None \<Rightarrow> v | Some p \<Rightarrow> v\<lparr>v_pvc := Some (admitPvc sv p)\<rparr>)"
  shows "under_way ar jm v1" and "\<not> claimMissing v1" and "v_pod v1 = v_pod v" and "v_arj v1 = v_arj v"
    and "\<not> claimMissing v \<Longrightarrow> v1 = v"
proof -
  have ar: "v_ar v = Some ar" using v(1) by (simp add: under_way_def)
  show "under_way ar jm v1"
    using v sv by (auto simp: v1_def under_way_def good_server_def split: option.splits)
  show "\<not> claimMissing v1"
    using claimFor_None_iff [OF sch, of ar arj] ar v(2) by (auto simp: v1_def claimMissing_def split: option.splits)
  show "v_pod v1 = v_pod v" "v_arj v1 = v_arj v" by (auto simp: v1_def split: option.splits)
  show "\<not> claimMissing v \<Longrightarrow> v1 = v"
    using claimFor_None_iff [OF sch, of ar arj] ar v(2) by (auto simp: v1_def claimMissing_def split: option.splits)
qed

lemma under_way_status:
  "under_way ar jm v \<Longrightarrow> ArjMeta j = jm \<Longrightarrow> under_way ar jm (v\<lparr>v_arj := Some j\<rparr>)"
  by (simp add: under_way_def)

lemma podStep_missing: "v_pvc (podStep env sv sch ar arj v) = v_pvc v \<and> v_ar (podStep env sv sch ar arj v) = v_ar v"
  by (cases "v_pod v") (auto simp: podStep_def Let_def)

lemma jobStep_without_claim:
  assumes sch: "scheme_laws sch" and sv: "good_server sv" and v: "under_way ar jm v" "v_pvc v = None"
  shows "under_way ar jm (jobStep env sv sch v) \<and> job_pending (jobStep env sv sch v) \<le> job_pending v - 1"
proof -
  obtain arj where arj: "v_arj v = Some arj" "ArjMeta arj = jm" using v(1) by (auto simp: under_way_def)
  define v1 where "v1 = (case claimFor sch ar arj of None \<Rightarrow> v | Some p \<Rightarrow> v\<lparr>v_pvc := Some (admitPvc sv p)\<rparr>)"
  note c = claim_created [OF sch sv v v1_def]
  have step: "jobStep env sv sch v = (if PersistentVolumeClaimPhase (ArjStatus arj) \<noteq> NoClaimPhase
      then v1\<lparr>v_arj := Some (setClaimPhase NoClaimPhase arj)\<rparr> else podStep env sv sch ar arj v1)"
    using v arj by (simp add: jobStep_def under_way_def v1_def Let_def)
  show ?thesis
  proof (cases "PersistentVolumeClaimPhase (ArjStatus arj) \<noteq> NoClaimPhase")
    case True
    have stale: "claimStale v" using True arj v(2) by (simp add: claimStale_def claimPhaseOf_def)
    let ?r = "v1\<lparr>v_arj := Some (setClaimPhase NoClaimPhase arj)\<rparr>"
    have "claimMissing ?r = claimMissing v1" "podStale ?r = podStale v" "v_pod ?r = v_pod v"
      using c(3,4) arj by (simp_all add: claimMissing_def podStale_def podPhaseOf_def)
    moreover have "claimStale ?r \<Longrightarrow> claimMissing v"
      using c(5) v(2) by (cases "claimMissing v") (simp_all add: claimStale_def claimPhaseOf_def)
    ultimately show ?thesis
      using True step stale c(1,2) arj(2) by (auto simp: job_pending_def intro: under_way_status)
  next
    case False
    have fresh: "\<not> claimStale v" using False arj v(2) by (simp add: claimStale_def claimPhaseOf_def)
    have arj1: "v_arj v1 = Some arj" using c(4) arj by simp
    note p = podStep_progress [OF sv c(1) arj1, of env sch]
    let ?r = "podStep env sv sch ar arj v1"
    have "\<not> claimMissing ?r" using c(2) podStep_missing [of env sv sch ar arj v1] by (simp add: claimMissing_def)
    moreover have "claimStale ?r \<Longrightarrow> claimMissing v" using p(3) c(5) fresh by blast
    moreover have "podStale v1 = podStale v" using c(3,4) by (simp add: podStale_def podPhaseOf_def)
    ultimately show ?thesis
      using False step fresh p(1,4) c(3) by (auto simp: job_pending_def split: if_splits)
  qed
qed

lemma jobStep_with_claim:
  assumes sv: "good_server sv" and v: "under_way ar jm v" "v_pvc v = Some pvc"
  shows "under_way ar jm (jobStep env sv sch v) \<and> job_pending (jobStep env sv sch v) \<le> job_pending v - 1"
proof -
  obtain arj where arj: "v_arj v = Some arj" "ArjMeta arj = jm" using v(1) by (auto simp: under_way_def)
  have good: "goodPvc pvc" using v by (simp add: under_way_def)
  have step: "jobStep env sv sch v = (if PersistentVolumeClaimPhase (ArjStatus arj) \<noteq> PvcPhase pvc
      then v\<lparr>v_arj := Some (setClaimPhase (PvcPhase pvc) arj)\<rparr> else podStep env sv sch ar arj v)"
    using v arj good by (simp add: jobStep_def under_way_def goodPvc_def)
  have miss: "\<not> claimMissing v" using v(2) by (simp add: claimMissing_def)
  show ?thesis
  proof (cases "PersistentVolumeClaimPhase (ArjStatus arj) \<noteq> PvcPhase pvc")
    case True
    then have "claimStale v" using arj v(2) by (simp add: claimStale_def claimPhaseOf_def)
    then show ?thesis
      using True step v arj by (auto simp: view_defs intro: under_way_status)
  next
    case False
    then have fresh: "\<not> claimStale v" using arj v(2) by (simp add: claimStale_def claimPhaseOf_def)
    note p = podStep_progress [OF sv v(1) arj(1), of env sch]
    have "\<not> claimMissing (podStep env sv sch ar arj v)"
      using v(2) podStep_missing [of env sv sch ar arj v] by (simp add: claimMissing_def)
    then show ?thesis
      using False step p(1,4) p(3) [OF fresh] miss fresh by (auto simp: job_pending_def)
  qed
qed

lemma jobStep_progress:
  assumes "scheme_laws sch" and "good_server sv" and "under_way ar jm v"
  shows "under_way ar jm (jobStep env sv sch v) \<and> job_pending (jobStep env sv sch v) \<le> job_pending v - 1"
  using jobStep_without_claim [OF assms] jobStep_with_claim [OF assms(2,3)] by (cases "v_pvc v") auto

fun jobTimes :: "conv_env \<Rightarrow> 'w arj_client \<Rightarrow> Scheme \<Rightarrow> NamespacedName \<Rightarrow> nat \<Rightarrow> ('w, unit) go" where
  "jobTimes env cl sch key 0 = ret ()"
| "jobTimes env cl sch key (Suc n) = andThen (ReconcileJob env cl (Some sch) key) (\<lambda>_. jobTimes env cl sch key n)"

lemma jobTimes_progress:
  assumes laws: "job_laws cl sv key view" and sch: "scheme_laws sch" and sv: "good_server sv"
  shows "under_way ar jm (view w) \<Longrightarrow> \<exists>w'. jobTimes env cl sch key n w = (Ok (), w') \<and>
    under_way ar jm (view w') \<and> job_pending (view w') \<le> job_pending (view w) - n"
proof (induction n arbitrary: w)
  case (Suc n)
  obtain w1 where w1: "ReconcileJob env cl (Some sch) key w = (Ok (), w1)" "view w1 = jobStep env sv sch (view w)"
    using ReconcileJob_refines [OF laws sch] by blast
  note p = jobStep_progress [OF sch sv Suc.prems, of env, folded w1(2)]
  obtain w2 where "jobTimes env cl sch key n w1 = (Ok (), w2)" "under_way ar jm (view w2)"
      "job_pending (view w2) \<le> job_pending (view w1) - n"
    using Suc.IH p by blast
  then show ?case using w1(1) conjunct2 [OF p] by (intro exI [of _ w2]) (simp add: andThen_def)
qed (auto simp: ret_def)

section \<open>Properties\<close>


text \<open>A server that keeps what it is given, starts phases as pending and forgets what is deleted.\<close>

definition demo_server :: server where
  "demo_server = \<lparr>admitPvc = (\<lambda>p. p\<lparr>PvcMeta := (PvcMeta p)\<lparr>DeletionTimestamp := None\<rparr>, PvcPhase := ClaimPending\<rparr>),
     admitPod = (\<lambda>p. p\<lparr>PodMeta := (PodMeta p)\<lparr>DeletionTimestamp := None\<rparr>, PodPhaseOf := PodPending\<rparr>),
     leftPvc = (\<lambda>p. None), leftPod = (\<lambda>p. None)\<rparr>"

definition demo_arj_client :: "job_view arj_client" where
  "demo_arj_client = \<lparr>
     GetArj = (\<lambda>k v. (fetched (v_arj v), v)), GetAr = (\<lambda>k v. (fetched (v_ar v), v)),
     GetPvc = (\<lambda>k v. (fetched (v_pvc v), v)), GetPod = (\<lambda>k v. (fetched (v_pod v), v)),
     CreatePvc = (\<lambda>p v. (Inr (), v\<lparr>v_pvc := Some (admitPvc demo_server p)\<rparr>)),
     CreatePod = (\<lambda>p v. (Inr (), v\<lparr>v_pod := Some (admitPod demo_server p)\<rparr>)),
     DeletePvc = (\<lambda>p v. (Inr (), v\<lparr>v_pvc := None\<rparr>)), DeletePod = (\<lambda>p v. (Inr (), v\<lparr>v_pod := None\<rparr>)),
     UpdateArjStatus = (\<lambda>j v. (Inr (), v\<lparr>v_arj := Some j\<rparr>))\<rparr>"

lemma demo_job_laws: "job_laws demo_arj_client demo_server key (\<lambda>v. v)"
  by (simp add: job_laws_def demo_arj_client_def demo_server_def)

definition demo_view :: job_view where
  "demo_view = \<lparr>v_arj = Some demo_job, v_ar = Some (demo_runner []), v_pvc = None, v_pod = None\<rparr>"




text \<open>
  Claim C36. A claim or a pod is deleted only when it is lost or unknown and the job's status already
  says so, and nothing at all is written while the runner or the job is missing or being deleted.
\<close>

theorem job_deletes_only_recorded_losses:
  assumes "job_laws cl sv key view" and "scheme_laws sch"
    and "ReconcileJob env cl (Some sch) key w = (Ok (), w')"
  shows "(\<forall>p. v_pvc (view w) = Some p \<and> v_pvc (view w') \<noteq> Some p \<longrightarrow>
       PvcPhase p = ClaimLost \<and> (\<exists>j. v_arj (view w) = Some j \<and> PersistentVolumeClaimPhase (ArjStatus j) = ClaimLost)) \<and>
     (\<forall>p. v_pod (view w) = Some p \<and> v_pod (view w') \<noteq> Some p \<longrightarrow>
       PodPhaseOf p = PodUnknown \<and> (\<exists>j. v_arj (view w) = Some j \<and> JobPodPhase (ArjStatus j) = PodUnknown)) \<and>
     (IsBeingDeleted (map_option ArMeta (v_ar (view w))) \<or> IsBeingDeleted (map_option ArjMeta (v_arj (view w))) \<longrightarrow>
       view w' = view w)"
proof -
  have v: "view w' = jobStep env sv sch (view w)"
    using ReconcileJob_refines [OF assms(1,2), of env w] assms(3) by auto
  have pod: "v_pod (podStep env sv sch ar arj u) \<noteq> Some p \<Longrightarrow> v_pod u = Some p \<Longrightarrow>
      PodPhaseOf p = PodUnknown \<and> JobPodPhase (ArjStatus arj) = PodUnknown" for ar arj u p
    by (auto simp: podStep_def split: if_splits)
  let ?v = "view w"
  show ?thesis
  proof (cases "\<exists>arj ar. v_arj ?v = Some arj \<and> v_ar ?v = Some ar \<and>
      \<not> IsBeingDeleted (Some (ArjMeta arj)) \<and> \<not> IsBeingDeleted (Some (ArMeta ar))")
    case False
    then have "view w' = ?v"
      by (cases "v_arj ?v"; cases "v_ar ?v") (auto simp: v jobStep_def)
    then show ?thesis by auto
  next
    case True
    then obtain arj ar where a: "v_arj ?v = Some arj" "v_ar ?v = Some ar"
        "\<not> IsBeingDeleted (Some (ArjMeta arj))" "\<not> IsBeingDeleted (Some (ArMeta ar))" by blast
    show ?thesis
    proof (cases "v_pvc ?v")
      case None
      then show ?thesis
        using a pod podStep_missing
        by (auto simp: v jobStep_def Let_def split: if_splits option.splits)
    next
      case (Some pvc)
      then show ?thesis
        using a pod [of ar arj ?v] podStep_missing [of env sv sch ar arj ?v]
        by (auto simp: v jobStep_def split: if_splits)
    qed
  qed
qed

theorem job_deletes_only_recorded_losses_witness:
  "\<exists>w'. ReconcileJob demo_env demo_arj_client (Some demo_scheme) demo_rs_key (demo_view\<lparr>v_ar := None\<rparr>) = (Ok (), w') \<and>
     w' = demo_view\<lparr>v_ar := None\<rparr>"
proof -
  obtain w' where r: "ReconcileJob demo_env demo_arj_client (Some demo_scheme) demo_rs_key (demo_view\<lparr>v_ar := None\<rparr>) = (Ok (), w')"
    using ReconcileJob_refines [OF demo_job_laws demo_scheme_laws] by blast
  show ?thesis
    using job_deletes_only_recorded_losses [OF demo_job_laws demo_scheme_laws r] r
    by (auto simp: IsBeingDeleted_def demo_view_def)
qed

end
