(* ===== verification/Runner_Reconciler.thy ===== *)
theory Runner_Reconciler
  imports Wire Job_Reconciler Metrics
begin

text \<open>
  The runner reconciler (\<^verbatim>\<open>operator/internal/controller/actionsrunner/reconciler.go\<close>) with its collection of
  wires (\<^verbatim>\<open>wire/collection.go\<close>). Its state is the cluster, seen through the client parameters, the
  registry of wires, the flag \<^verbatim>\<open>gone\<close> and whether the event channel is closed. A wire is kept in the
  registry and reached through its key, as the pointers of the code are.
\<close>

section \<open>State\<close>

record ('w, 'o) objs =
  objGet :: "NamespacedName \<Rightarrow> 'w \<Rightarrow> (goerr + 'o) \<times> 'w"
  objCreate :: "'o \<Rightarrow> 'w \<Rightarrow> (goerr + unit) \<times> 'w"
  objUpdate :: "'o \<Rightarrow> 'w \<Rightarrow> (goerr + unit) \<times> 'w"
  objDelete :: "'o \<Rightarrow> 'w \<Rightarrow> (goerr + unit) \<times> 'w"

record 'w ar_client =
  cAr :: "('w, ActionsRunner) objs"
  cCm :: "('w, ConfigMap) objs"
  cSec :: "('w, SecretObj) objs"
  cPdb :: "('w, PodDisruptionBudget) objs"
  cArj :: "('w, ActionsRunnerJob) objs"
  cProm :: "'w prom"

record ('w, 'f, 'c) operator =
  kworld :: 'w
  registry :: "NamespacedName \<rightharpoonup> ('f, 'c) wire"
  eventsClosed :: bool
  gone :: bool

text \<open>What the reconciler is configured with; \<open>newFac\<close> is the zero value of the facades.\<close>

record ('q, 'f, 'c) ar_config =
  fac :: "'f facade_api"
  wlibs :: "('q, 'c) wire_libs"
  newFac :: 'f
  js :: dot_json
  scheme :: "Scheme option"

definition onCluster :: "('w \<Rightarrow> (goerr + 'a) \<times> 'w) \<Rightarrow> (('w, 'f, 'c) operator, 'a) go" where
  "onCluster f = zoom kworld (\<lambda>w s. s\<lparr>kworld := w\<rparr>) (external f)"

definition onProm :: "('w \<Rightarrow> 'w option) \<Rightarrow> (('w, 'f, 'c) operator, unit) go" where
  "onProm f = zoom kworld (\<lambda>w s. s\<lparr>kworld := w\<rparr>) (reporting f)"

text \<open>Run a method of the wire registered under a key.\<close>

definition onWire :: "NamespacedName \<Rightarrow> (('f, 'c) wire, 'a) go \<Rightarrow> (('w, 'f, 'c) operator, 'a) go" where
  "onWire key m s = (case registry s key of
       None \<Rightarrow> (Panic ''nil pointer dereference'', s)
     | Some w \<Rightarrow> (case m w of (r, w') \<Rightarrow> (r, s\<lparr>registry := (registry s)(key \<mapsto> w')\<rparr>)))"

section \<open>The collection\<close>

definition keyOf :: "ActionsRunner \<Rightarrow> NamespacedName" where
  "keyOf ar = \<lparr>KeyNamespace = MetaNamespace (ArMeta ar), KeyName = MetaName (ArMeta ar)\<rparr>"

definition CollDestroy :: "'f facade_api \<Rightarrow> (('f, 'c) wire, unit) go" where
  "CollDestroy fa = andThen (logged (Close fa)) (\<lambda>_. Destroy fa)"

text \<open>Whether a valid wire is registered; an invalid one is destroyed and stays registered.\<close>

definition GetWire :: "('q, 'f, 'c) ar_config \<Rightarrow> ActionsRunner option \<Rightarrow> (('w, 'f, 'c) operator, bool) go" where
  "GetWire cfg actionsRunner =
     andThen (lift_res (nonNil ''ActionsRunner'' actionsRunner)) (\<lambda>ar.
     andThen ask (\<lambda>s. case registry s (keyOf ar) of
         None \<Rightarrow> ret False
       | Some w \<Rightarrow> if Valid w then ret True
                   else andThen (logged (onWire (keyOf ar) (CollDestroy (fac cfg)))) (\<lambda>_. ret False)))"

definition newWire :: "('q, 'f, 'c) ar_config \<Rightarrow> ActionsRunner \<Rightarrow> Files option \<Rightarrow> bool \<Rightarrow> ('f, 'c) wire" where
  "newWire cfg ar dotFiles closed = \<lparr>wRunner = ar, wDotFiles = dotFiles, wFac = newFac cfg, jobRequests = None,
     loopClose = ChNil, invalid = False, listening = False, validator = None, notifierClosed = closed, events = 0, counted = []\<rparr>"

definition MakeWire ::
    "('q, 'f, 'c) ar_config \<Rightarrow> ActionsRunner option \<Rightarrow> Files option \<Rightarrow> (('w, 'f, 'c) operator, unit) go" where
  "MakeWire cfg actionsRunner dotFiles =
     andThen (lift_res (nonNil ''ActionsRunner'' actionsRunner)) (\<lambda>ar.
     andThen ask (\<lambda>s. case Init (fac cfg) (wlibs cfg) (newWire cfg ar dotFiles (eventsClosed s)) of
         (Ok _, w) \<Rightarrow> upd (\<lambda>s. s\<lparr>registry := (registry s)(keyOf ar \<mapsto> w)\<rparr>)
       | (Err e, _) \<Rightarrow> fail e
       | (Panic p, _) \<Rightarrow> panic p))"

definition WireFor ::
    "('q, 'f, 'c) ar_config \<Rightarrow> ActionsRunner option \<Rightarrow> Files option \<Rightarrow> (('w, 'f, 'c) operator, unit) go" where
  "WireFor cfg actionsRunner dotFiles =
     andThen (GetWire cfg actionsRunner) (\<lambda>found. if found then ret () else MakeWire cfg actionsRunner dotFiles)"

definition TryDestroy :: "('q, 'f, 'c) ar_config \<Rightarrow> NamespacedName \<Rightarrow> (('w, 'f, 'c) operator, unit) go" where
  "TryDestroy cfg key s = (case registry s key of
       None \<Rightarrow> (Ok (), s)
     | Some w \<Rightarrow> (fst (CollDestroy (fac cfg) w), s\<lparr>registry := (registry s)(key := None)\<rparr>))"

text \<open>Shutdown: no more events, and every wire is closed.\<close>

definition Deinit :: "('q, 'f, 'c) ar_config \<Rightarrow> ('w, 'f, 'c) operator \<Rightarrow> ('w, 'f, 'c) operator" where
  "Deinit cfg s = s\<lparr>gone := True, eventsClosed := True,
     registry := (\<lambda>k. map_option (\<lambda>w. snd (logged (Close (fac cfg)) (w\<lparr>notifierClosed := True\<rparr>))) (registry s k))\<rparr>"

section \<open>The reconciler\<close>

definition runnerEventFilter :: "kind event \<Rightarrow> bool" where
  "runnerEventFilter e = (case EventObject e of
       Some k \<Rightarrow> if k \<in> {KConfigMap, KSecret, KPodDisruptionBudget, KActionsRunnerJob}
                 then kind_of_event e = EvUpdate \<or> kind_of_event e = EvDelete else True
     | None \<Rightarrow> True)"

definition find_obj :: "('w, 'o) objs \<Rightarrow> NamespacedName \<Rightarrow> (('w, 'f, 'c) operator, 'o option) go" where
  "find_obj c key = zoom kworld (\<lambda>w s. s\<lparr>kworld := w\<rparr>) (getOr (objGet c key))"

text \<open>An unrecoverable error of the wire: the stored identity is deleted, and the error is returned.\<close>

definition dropIdentity :: "'w ar_client \<Rightarrow> ConfigMap \<Rightarrow> SecretObj \<Rightarrow> goerr \<Rightarrow> (('w, 'f, 'c) operator, unit) go" where
  "dropIdentity cl cm sec err =
     (if \<not> IsUnrecoverable err then fail err
      else andThen (logged (onCluster (objDelete (cCm cl) cm))) (\<lambda>_.
           andThen (logged (onCluster (objDelete (cSec cl) sec))) (\<lambda>_. fail err)))"

definition storeIdentity ::
    "('q, 'f, 'c) ar_config \<Rightarrow> 'w ar_client \<Rightarrow> ActionsRunner \<Rightarrow> ConfigMap \<Rightarrow> SecretObj \<Rightarrow> (('w, 'f, 'c) operator, unit) go" where
  "storeIdentity cfg cl ar cm sec =
     andThen ask (\<lambda>s. let df = (case registry s (keyOf ar) of None \<Rightarrow> None | Some w \<Rightarrow> wDotFiles w) in
     andThen (if IsZero zeroConfigMap (Some cm)
       then andThen (lift_res (ToConfigMap (js cfg) df (Some ar) (scheme cfg))) (\<lambda>d. ignoreExists (onCluster (objCreate (cCm cl) d)))
       else ret ()) (\<lambda>_.
     andThen (if IsZero zeroSecret (Some sec)
       then andThen (lift_res (ToSecret (js cfg) df (Some ar) (scheme cfg))) (\<lambda>d. ignoreExists (onCluster (objCreate (cSec cl) d)))
       else ret ()) (\<lambda>_.
     andThen (lift_res (ToConfigMap (js cfg) df (Some ar) (scheme cfg))) (\<lambda>dcm.
     andThen (onCluster (objUpdate (cCm cl) dcm)) (\<lambda>_.
     andThen (lift_res (ToSecret (js cfg) df (Some ar) (scheme cfg))) (\<lambda>dsec.
     onCluster (objUpdate (cSec cl) dsec)))))))"

text \<open>The budget; the result tells whether to go on.\<close>

definition reconcileBudget ::
    "('q, 'f, 'c) ar_config \<Rightarrow> 'w ar_client \<Rightarrow> NamespacedName \<Rightarrow> ActionsRunner \<Rightarrow> (('w, 'f, 'c) operator, bool) go" where
  "reconcileBudget cfg cl key ar =
     andThen (find_obj (cPdb cl) key) (\<lambda>found.
     let pdb = (case found of None \<Rightarrow> zeroPdb | Some p \<Rightarrow> p) in
     if IsBeingDeleted (Some (PdbMeta pdb)) then ret False else
     andThen (lift_res (ToPodDisruptionBudget (Some ar) (scheme cfg))) (\<lambda>des.
     andThen (case CalculateReconciliationAction zeroPdb (Some pdb) (Some des) of
         ReconciliationActionCreate \<Rightarrow> ignoreExists (onCluster (objCreate (cPdb cl) des))
       | ReconciliationActionUpdate \<Rightarrow> if PdbSpec pdb = PdbSpec des then ret ()
           else ignoreNotFound (onCluster (objUpdate (cPdb cl) des))
       | ReconciliationActionDelete \<Rightarrow> ignoreNotFound (onCluster (objDelete (cPdb cl) des))
       | ReconciliationActionNothing \<Rightarrow> ret ()) (\<lambda>_. ret True)))"

definition completed :: "ActionsRunnerJob \<Rightarrow> bool" where
  "completed arj \<longleftrightarrow> PersistentVolumeClaimPhase (ArjStatus arj) = ClaimLost \<or>
     JobPodPhase (ArjStatus arj) \<in> {PodSucceeded, PodFailed, PodUnknown}"

definition reconcileJobOf ::
    "('q, 'f, 'c) ar_config \<Rightarrow> 'w ar_client \<Rightarrow> NamespacedName \<Rightarrow> ActionsRunner \<Rightarrow> (('w, 'f, 'c) operator, unit) go" where
  "reconcileJobOf cfg cl key ar =
     andThen (find_obj (cArj cl) key) (\<lambda>found. case found of
         None \<Rightarrow> andThen (onWire (keyOf ar) takeJobRequest) (\<lambda>taken.
           if taken then
             andThen (lift_res (ToActionsRunnerJob (Some ar) (scheme cfg))) (\<lambda>des.
             andThen (ignoreExists (onCluster (objCreate (cArj cl) des))) (\<lambda>_.
             onProm (SetGitHubActionsJobAlive (cProm cl) (RepoName (Repository (ArSpec ar))) (MetaName (ArjMeta des)))))
           else andThen ask (\<lambda>s.
             if map_option Listening (registry s (keyOf ar)) = Some False
             then andThen (onWire (keyOf ar) Listen) (\<lambda>_. ret ()) else ret ()))
       | Some arj \<Rightarrow>
           if IsBeingDeleted (Some (ArjMeta arj)) then ret ()
           else if \<not> completed arj then ret ()
           else andThen (ignoreNotFound (onCluster (objDelete (cArj cl) arj))) (\<lambda>_.
             onProm (SetGitHubActionsJobDone (cProm cl) (RepoName (Repository (ArSpec ar))) (MetaName (ArjMeta arj)))))"

text \<open>From the registration on, for the runner and the identity objects that were read.\<close>

definition reconcileWire ::
    "('q, 'f, 'c) ar_config \<Rightarrow> 'w ar_client \<Rightarrow> NamespacedName \<Rightarrow> ActionsRunner \<Rightarrow> ConfigMap \<Rightarrow> SecretObj \<Rightarrow>
     (('w, 'f, 'c) operator, unit) go" where
  "reconcileWire cfg cl key ar cm sec =
     attempt (WireFor cfg (Some ar) None) (\<lambda>r. case r of
         Inl err \<Rightarrow> dropIdentity cl cm sec err
       | Inr _ \<Rightarrow>
           andThen (storeIdentity cfg cl ar cm sec) (\<lambda>_.
           andThen (reconcileBudget cfg cl key ar) (\<lambda>go_on.
           if go_on then reconcileJobOf cfg cl key ar else ret ())))"

text \<open>For a runner that exists and is not being deleted.\<close>

definition reconcileIdentity ::
    "('q, 'f, 'c) ar_config \<Rightarrow> 'w ar_client \<Rightarrow> NamespacedName \<Rightarrow> ActionsRunner \<Rightarrow> (('w, 'f, 'c) operator, unit) go" where
  "reconcileIdentity cfg cl key ar =
     andThen (find_obj (cCm cl) key) (\<lambda>fcm. let cm = (case fcm of None \<Rightarrow> zeroConfigMap | Some c \<Rightarrow> c) in
     if IsBeingDeleted (Some (CmMeta cm)) then ret () else
     andThen (find_obj (cSec cl) key) (\<lambda>fsec. let sec = (case fsec of None \<Rightarrow> zeroSecret | Some c \<Rightarrow> c) in
     if IsBeingDeleted (Some (SecMeta sec)) then ret () else reconcileWire cfg cl key ar cm sec))"

definition ReconcileRunner ::
    "('q, 'f, 'c) ar_config \<Rightarrow> 'w ar_client \<Rightarrow> NamespacedName \<Rightarrow> (('w, 'f, 'c) operator, unit) go" where
  "ReconcileRunner cfg cl key =
     andThen ask (\<lambda>s0. if gone s0 then ret () else
     andThen (find_obj (cAr cl) key) (\<lambda>far. case far of
         None \<Rightarrow> TryDestroy cfg key
       | Some ar \<Rightarrow> if IsBeingDeleted (Some (ArMeta ar)) then ret () else reconcileIdentity cfg cl key ar))"

section \<open>Frames\<close>

text \<open>
  What the client promises about the job stored under the key: reads change nothing, and only
  creating and deleting a job changes it.
\<close>

definition job_frame :: "'w ar_client \<Rightarrow> NamespacedName \<Rightarrow> ('w \<Rightarrow> ActionsRunnerJob option) \<Rightarrow> bool" where
  "job_frame cl key arj_of \<longleftrightarrow>
     (\<forall>w. objGet (cArj cl) key w = (fetched (arj_of w), w)) \<and>
     (\<forall>k w. arj_of (snd (objGet (cAr cl) k w)) = arj_of w) \<and>
     (\<forall>k w. arj_of (snd (objGet (cCm cl) k w)) = arj_of w) \<and>
     (\<forall>k w. arj_of (snd (objGet (cSec cl) k w)) = arj_of w) \<and>
     (\<forall>k w. arj_of (snd (objGet (cPdb cl) k w)) = arj_of w) \<and>
     (\<forall>x w. arj_of (snd (objCreate (cCm cl) x w)) = arj_of w) \<and>
     (\<forall>x w. arj_of (snd (objUpdate (cCm cl) x w)) = arj_of w) \<and>
     (\<forall>x w. arj_of (snd (objDelete (cCm cl) x w)) = arj_of w) \<and>
     (\<forall>x w. arj_of (snd (objCreate (cSec cl) x w)) = arj_of w) \<and>
     (\<forall>x w. arj_of (snd (objUpdate (cSec cl) x w)) = arj_of w) \<and>
     (\<forall>x w. arj_of (snd (objDelete (cSec cl) x w)) = arj_of w) \<and>
     (\<forall>x w. arj_of (snd (objCreate (cPdb cl) x w)) = arj_of w) \<and>
     (\<forall>x w. arj_of (snd (objUpdate (cPdb cl) x w)) = arj_of w) \<and>
     (\<forall>x w. arj_of (snd (objDelete (cPdb cl) x w)) = arj_of w) \<and> unmetered (cProm cl) arj_of"

definition job_at :: "('w \<Rightarrow> ActionsRunnerJob option) \<Rightarrow> ('w, 'f, 'c) operator \<Rightarrow> ActionsRunnerJob option" where
  "job_at arj_of s = arj_of (kworld s)"

lemma keeps_onCluster_job [intro]: "(\<And>w. arj_of (snd (f w)) = arj_of w) \<Longrightarrow> keeps (job_at arj_of) (onCluster f)"
  by (rule keepsI) (auto simp: job_at_def onCluster_def zoom_def external_def split: prod.splits sum.splits, (metis snd_conv)+)

lemma keeps_onCluster_registry [simp, intro]: "keeps registry (onCluster f)"
  by (rule keepsI) (simp add: onCluster_def zoom_def split: prod.splits)

lemma keeps_onProm_registry [simp, intro]: "keeps registry (onProm f)"
  by (rule keepsI) (simp add: onProm_def zoom_def split: prod.splits)

lemma keeps_find_job [intro]: "(\<And>w. arj_of (snd (objGet c key w)) = arj_of w) \<Longrightarrow> keeps (job_at arj_of) (find_obj c key)"
  by (rule keepsI)
     (auto simp: job_at_def find_obj_def zoom_def getOr_def go_simps split: prod.splits sum.splits, (metis snd_conv)+)

lemma keeps_find_registry [simp, intro]: "keeps registry (find_obj c key)"
  by (rule keepsI) (simp add: find_obj_def zoom_def split: prod.splits)

lemma keeps_filters [intro]:
  "keeps g m \<Longrightarrow> keeps g (ignoreExists m)" "keeps g m \<Longrightarrow> keeps g (ignoreNotFound m)" "keeps g m \<Longrightarrow> keeps g (logged m)"
  by (auto simp: ignoreExists_def ignoreNotFound_def logged_def intro!: keeps_attempt split: sum.splits option.splits)

lemma keeps_let_ask: "(\<And>s. keeps g (k s)) \<Longrightarrow> keeps g (andThen ask k)"
  by (rule keeps_andThen) auto

lemma storeIdentity_keeps:
  "keeps registry (storeIdentity cfg cl ar cm sec)"
  "job_frame cl key arj_of \<Longrightarrow> keeps (job_at arj_of) (storeIdentity cfg cl ar cm sec)"
  unfolding storeIdentity_def Let_def
  by (intro keeps_andThen keeps_if keeps_filters keeps_onCluster_registry keeps_basic)
     (intro keeps_andThen keeps_if keeps_filters keeps_onCluster_job keeps_basic; simp add: job_frame_def)

lemma reconcileBudget_keeps:
  "keeps registry (reconcileBudget cfg cl key ar)"
  "job_frame cl key arj_of \<Longrightarrow> keeps (job_at arj_of) (reconcileBudget cfg cl key ar)"
proof -
  show "keeps registry (reconcileBudget cfg cl key ar)"
    unfolding reconcileBudget_def Let_def
    by (intro keeps_andThen keeps_if keeps_find_registry keeps_basic)
       (auto split: ReconciliationAction.splits)
  assume f: "job_frame cl key arj_of"
  have c: "keeps (job_at arj_of) (onCluster (objCreate (cPdb cl) x))" "keeps (job_at arj_of) (onCluster (objUpdate (cPdb cl) x))"
    "keeps (job_at arj_of) (onCluster (objDelete (cPdb cl) x))" "keeps (job_at arj_of) (find_obj (cPdb cl) key)" for x
    using f by (auto simp: job_frame_def intro!: keeps_onCluster_job keeps_find_job)
  show "keeps (job_at arj_of) (reconcileBudget cfg cl key ar)"
    unfolding reconcileBudget_def Let_def
    by (intro keeps_andThen keeps_if c keeps_basic) (auto intro!: keeps_filters c split: ReconciliationAction.splits)
qed

lemma dropIdentity_job: "job_frame cl key arj_of \<Longrightarrow> keeps (job_at arj_of) (dropIdentity cl cm sec e)"
  unfolding dropIdentity_def
  by (intro keeps_andThen keeps_if keeps_filters keeps_onCluster_job keeps_basic; simp add: job_frame_def)

lemma onWire_job: "keeps (job_at arj_of) (onWire k m)"
  by (rule keepsI) (simp add: job_at_def onWire_def split: option.splits prod.splits)

lemma WireFor_job: "keeps (job_at arj_of) (WireFor cfg ar df)"
proof -
  have "keeps (job_at arj_of) (GetWire cfg ar)"
    unfolding GetWire_def
    by (intro keeps_andThen keeps_basic) (auto intro!: keeps_andThen keeps_filters onWire_job split: option.splits)
  moreover have "keeps (job_at arj_of) (MakeWire cfg ar df)"
    unfolding MakeWire_def
    by (intro keeps_andThen keeps_basic)
       (auto intro!: keepsI simp: job_at_def go_simps split: prod.splits res.splits)
  ultimately show ?thesis unfolding WireFor_def by (intro keeps_andThen keeps_if keeps_basic)
qed

lemma TryDestroy_job: "keeps (job_at arj_of) (TryDestroy cfg key)"
  by (rule keepsI) (simp add: job_at_def TryDestroy_def split: option.splits)


section \<open>Where a job can change\<close>

lemma changes_andThen:
  assumes "keeps g m" and "andThen m k s = (r, s')" and "g s' \<noteq> g s"
  shows "\<exists>x s1. m s = (Ok x, s1) \<and> g s1 = g s \<and> k x s1 = (r, s')"
  using assms keepsD [OF assms(1)] by (fastforce simp: andThen_def split: prod.splits res.splits)

lemma changes_attempt:
  assumes "keeps g m" and "attempt m k s = (r, s')" and "g s' \<noteq> g s"
  shows "\<exists>x s1. (m s = (Ok x, s1) \<and> k (Inr x) s1 = (r, s') \<or> (\<exists>e. m s = (Err e, s1) \<and> k (Inl e) s1 = (r, s'))) \<and> g s1 = g s"
  using assms keepsD [OF assms(1)] by (fastforce simp: attempt_def split: prod.splits res.splits)

lemma find_frame:
  assumes "job_frame cl key arj_of"
  shows "keeps (job_at arj_of) (find_obj (cAr cl) key)" "keeps (job_at arj_of) (find_obj (cCm cl) key)"
    "keeps (job_at arj_of) (find_obj (cSec cl) key)" "keeps (job_at arj_of) (find_obj (cArj cl) key)"
  using assms by (auto simp: job_frame_def intro!: keeps_find_job)

text \<open>
  A reconciliation that changes the job got a wire for the runner it read, and changed the job in
  its last part.
\<close>

lemma reconcileWire_changes:
  assumes f: "job_frame cl key arj_of"
    and run: "reconcileWire cfg cl key ar cm sec s = (r, s')" and ch: "job_at arj_of s' \<noteq> job_at arj_of s"
  shows "\<exists>s1 s2. WireFor cfg (Some ar) None s = (Ok (), s1) \<and> registry s2 = registry s1 \<and>
     job_at arj_of s2 = job_at arj_of s \<and> reconcileJobOf cfg cl key ar s2 = (r, s')"
proof -
  let ?j = "job_at arj_of"
  let ?k = "\<lambda>go_on. if go_on then reconcileJobOf cfg cl key ar else ret ()"
  have ne: "WireFor cfg (Some ar) None s \<noteq> (Err e, s1)" for e s1
    using run ch keepsD [OF WireFor_job] keepsD [OF dropIdentity_job [OF f]]
    by (fastforce simp: reconcileWire_def attempt_def)
  obtain s1 where w: "WireFor cfg (Some ar) None s = (Ok (), s1)" "?j s1 = ?j s"
    and k4: "andThen (storeIdentity cfg cl ar cm sec) (\<lambda>_. andThen (reconcileBudget cfg cl key ar) ?k) s1 = (r, s')"
    using ne changes_attempt [OF WireFor_job run [unfolded reconcileWire_def] ch] by auto
  obtain s2 where st: "storeIdentity cfg cl ar cm sec s1 = (Ok (), s2)" "?j s2 = ?j s1"
    and k5: "andThen (reconcileBudget cfg cl key ar) ?k s2 = (r, s')"
    using changes_andThen [OF storeIdentity_keeps(2) [OF f] k4] ch w(2) by auto
  obtain go_on s3 where bu: "reconcileBudget cfg cl key ar s2 = (Ok go_on, s3)" "?j s3 = ?j s2" and k6: "?k go_on s3 = (r, s')"
    using changes_andThen [OF reconcileBudget_keeps(2) [OF f] k5] ch w(2) st(2) by auto
  have "go_on" using k6 ch w(2) st(2) bu(2) by (auto simp: ret_def split: if_splits)
  moreover have "registry s3 = registry s1"
    using keepsD [OF storeIdentity_keeps(1) st(1)] keepsD [OF reconcileBudget_keeps(1) bu(1)] by simp
  ultimately show ?thesis using w st(2) bu(2) k6 by (intro exI [of _ s1] exI [of _ s3]) simp
qed

lemma reconcileIdentity_changes:
  assumes f: "job_frame cl key arj_of"
    and run: "reconcileIdentity cfg cl key ar s = (r, s')" and ch: "job_at arj_of s' \<noteq> job_at arj_of s"
  shows "\<exists>cm sec s0. reconcileWire cfg cl key ar cm sec s0 = (r, s') \<and> job_at arj_of s0 = job_at arj_of s \<and>
     registry s0 = registry s"
proof -
  let ?j = "job_at arj_of"
  note fr = find_frame [OF f]
  obtain fcm sb where b: "find_obj (cCm cl) key s = (Ok fcm, sb)" "?j sb = ?j s" and
    k2: "(let cm = (case fcm of None \<Rightarrow> zeroConfigMap | Some c \<Rightarrow> c) in
     if IsBeingDeleted (Some (CmMeta cm)) then ret () else
     andThen (find_obj (cSec cl) key) (\<lambda>fsec. let sec = (case fsec of None \<Rightarrow> zeroSecret | Some c \<Rightarrow> c) in
     if IsBeingDeleted (Some (SecMeta sec)) then ret () else reconcileWire cfg cl key ar cm sec)) sb = (r, s')"
    using changes_andThen [OF fr(2) run [unfolded reconcileIdentity_def] ch] by blast
  define cm where "cm = (case fcm of None \<Rightarrow> zeroConfigMap | Some c \<Rightarrow> c)"
  have "\<not> IsBeingDeleted (Some (CmMeta cm))"
    using k2 ch b(2) by (auto simp: ret_def Let_def cm_def simp del: split_paired_Ex)
  then have k3: "andThen (find_obj (cSec cl) key) (\<lambda>fsec. let sec = (case fsec of None \<Rightarrow> zeroSecret | Some c \<Rightarrow> c) in
     if IsBeingDeleted (Some (SecMeta sec)) then ret () else reconcileWire cfg cl key ar cm sec) sb = (r, s')"
    using k2 by (simp add: cm_def [symmetric])
  have "?j s' \<noteq> ?j sb" using ch b(2) by simp
  from changes_andThen [OF fr(3) k3 this] obtain fsec s0 where
    c: "find_obj (cSec cl) key sb = (Ok fsec, s0)" "?j s0 = ?j sb" and
    k4: "(let sec = (case fsec of None \<Rightarrow> zeroSecret | Some c \<Rightarrow> c) in
     if IsBeingDeleted (Some (SecMeta sec)) then ret () else reconcileWire cfg cl key ar cm sec) s0 = (r, s')" by blast
  define sec where "sec = (case fsec of None \<Rightarrow> zeroSecret | Some c \<Rightarrow> c)"
  have "reconcileWire cfg cl key ar cm sec s0 = (r, s')"
    using k4 ch b(2) c(2) by (auto simp: ret_def Let_def sec_def [symmetric] split: if_splits)
  then show ?thesis
    using keepsD [OF keeps_find_registry b(1)] keepsD [OF keeps_find_registry c(1)] b(2) c(2) by auto
qed

lemma ReconcileRunner_changes:
  fixes cfg :: "('q, 'f, 'c) ar_config" and cl :: "'w ar_client"
  assumes f: "job_frame cl key arj_of"
    and run: "ReconcileRunner cfg cl key s = (r, s')" and ch: "job_at arj_of s' \<noteq> job_at arj_of s"
  obtains ar and sa s0 s1 s2 :: "('w, 'f, 'c) operator" where "find_obj (cAr cl) key s = (Ok (Some ar), sa)" "\<not> gone s" "\<not> IsBeingDeleted (Some (ArMeta ar))"
    "WireFor cfg (Some ar) None s0 = (Ok (), s1)" "registry s0 = registry s" "registry s2 = registry s1"
    "job_at arj_of s2 = job_at arj_of s" "reconcileJobOf cfg cl key ar s2 = (r, s')"
proof -
  let ?j = "job_at arj_of"
  have g: "\<not> gone s" using run ch by (auto simp: ReconcileRunner_def andThen_def ask_def ret_def split: if_splits)
  have "andThen (find_obj (cAr cl) key) (\<lambda>far. case far of None \<Rightarrow> TryDestroy cfg key
       | Some ar \<Rightarrow> if IsBeingDeleted (Some (ArMeta ar)) then ret () else reconcileIdentity cfg cl key ar) s = (r, s')"
    using run g by (simp add: ReconcileRunner_def andThen_def [of ask] ask_def)
  from changes_andThen [OF find_frame(1) [OF f] this ch] obtain far sa where
    a: "find_obj (cAr cl) key s = (Ok far, sa)" "?j sa = ?j s" and
    k: "(case far of None \<Rightarrow> TryDestroy cfg key
       | Some ar \<Rightarrow> if IsBeingDeleted (Some (ArMeta ar)) then ret () else reconcileIdentity cfg cl key ar) sa = (r, s')"
    by blast
  have "far \<noteq> None" using k ch a(2) keepsD [OF TryDestroy_job, of cfg key sa r s' arj_of] by (cases far) auto
  then obtain ar where ar: "far = Some ar" by blast
  have d: "\<not> IsBeingDeleted (Some (ArMeta ar))" using k ar ch a(2) by (auto simp: ret_def)
  have ch': "?j s' \<noteq> ?j sa" using ch a(2) by simp
  obtain cm sec s0 where i: "reconcileWire cfg cl key ar cm sec s0 = (r, s')" "?j s0 = ?j sa" "registry s0 = registry sa"
    using reconcileIdentity_changes [OF f _ ch', of cfg ar r] k ar d by auto
  have "?j s' \<noteq> ?j s0" using ch' i(2) by simp
  from reconcileWire_changes [OF f i(1) this] obtain s1 s2 where
    "WireFor cfg (Some ar) None s0 = (Ok (), s1)" "registry s2 = registry s1" "?j s2 = ?j s0"
    "reconcileJobOf cfg cl key ar s2 = (r, s')" by blast
  then show ?thesis
    using that [of ar sa s0 s1 s2] a ar g d i keepsD [OF keeps_find_registry a(1)] by auto
qed


section \<open>Jobs come from pending requests and go when completed\<close>

lemma keeps_onRunnerFile: "keeps wview (onRunnerFile g)"
  by (rule keepsI) (simp add: onRunnerFile_def wview_def split: option.splits)

lemma init_wview: "keeps wview (initDotFiles libs)" "keeps wview (initGH fa)" "keeps wview (initADO fa ev)"
proof -
  show "keeps wview (initDotFiles libs)"
    unfolding initDotFiles_def by (intro keeps_andThen keeps_if keeps_basic) (simp add: keeps_def upd_def wview_def)
  show "keeps wview (initGH fa)"
    unfolding initGH_def by (intro keeps_andThen keeps_onFac keeps_basic keeps_onRunnerFile)
  show "keeps wview (initADO fa ev)"
    unfolding initADO_def
    by (intro keeps_andThen keeps_onFac) (auto intro!: keeps_andThen keeps_onFiles keeps_basic keeps_onRunnerFile)
qed

text \<open>A successful initialisation fills in the channel and the validator where they are nil.\<close>

lemma Init_result:
  assumes "Init fa libs w0 = (Ok u, w)"
  shows "wview w = (wRunner w0, Some (case jobRequests w0 of None \<Rightarrow> 0 | Some n \<Rightarrow> n), events w0,
     Some (case validator w0 of None \<Rightarrow> NewPolicyValidator | Some c \<Rightarrow> c), notifierClosed w0)"
proof -
  have "wireInit fa libs w0 = (Ok u, w)"
    using assms by (auto simp: Init_def attempt_def ret_def andThen_def fail_def split: prod.splits res.splits)
  then obtain w1 w2 w3 w4 w5 w6 where
    i: "initDotFiles libs w0 = (Ok (), w1)" "initGH fa w1 = (Ok (), w2)" "initADO fa RunnerEventRegister w2 = (Ok (), w3)" and
    o: "onFiles (InitForRun fa (Labels (ArSpec (wRunner w3)))) w3 = (Ok (), w4)"
      "onFac (InitAzureDevOpsTaskAgentSession fa) w4 = (Ok (), w5)" "onFac (DeinitAzureDevOpsTaskAgentSession fa) w5 = (Ok (), w6)" and
    e: "andThen (upd (\<lambda>s. if jobRequests s = None then s\<lparr>jobRequests := Some 0\<rparr> else s)) (\<lambda>_.
      upd (\<lambda>s. if validator s = None then s\<lparr>validator := Some NewPolicyValidator\<rparr> else s)) w6 = (Ok u, w)"
    by (auto simp: wireInit_def andThen_Ok_iff ask_def)
  have "wview w6 = wview w0"
    using keepsD [OF init_wview(1) i(1)] keepsD [OF init_wview(2) i(2)] keepsD [OF init_wview(3) i(3)]
      keepsD [OF keeps_onFiles o(1)] keepsD [OF keeps_onFac o(2)] keepsD [OF keeps_onFac o(3)] by simp
  moreover have "wview w = (wRunner w6, Some (case jobRequests w6 of None \<Rightarrow> 0 | Some n \<Rightarrow> n), events w6,
     Some (case validator w6 of None \<Rightarrow> NewPolicyValidator | Some c \<Rightarrow> c), notifierClosed w6)"
    using e by (cases "jobRequests w6"; cases "validator w6") (auto simp: andThen_def upd_def wview_def)
  ultimately show ?thesis by (simp add: wview_def)
qed

lemma onWire_others: "onWire key m s = (r, s') \<Longrightarrow> k \<noteq> key \<Longrightarrow> registry s' k = registry s k"
  by (auto simp: onWire_def split: option.splits prod.splits)

lemma GetWire_result:
  assumes "GetWire cfg (Some ar) s = (Ok found, s0)"
  shows "(found \<longrightarrow> s0 = s \<and> (\<exists>w. registry s (keyOf ar) = Some w \<and> Valid w)) \<and>
     (\<forall>k. k \<noteq> keyOf ar \<longrightarrow> registry s0 k = registry s k)"
proof (cases "registry s (keyOf ar)")
  case None
  then show ?thesis using assms by (simp add: GetWire_def andThen_def lift_res_def ask_def ret_def)
next
  case (Some w)
  show ?thesis
  proof (cases "Valid w")
    case True
    then show ?thesis using assms Some by (simp add: GetWire_def andThen_def lift_res_def ask_def ret_def)
  next
    case False
    then have "andThen (logged (onWire (keyOf ar) (CollDestroy (fac cfg)))) (\<lambda>_. ret False) s = (Ok found, s0)"
      using assms Some by (simp add: GetWire_def andThen_def [of ask] andThen_def [of "lift_res _"] lift_res_def ask_def)
    then show ?thesis
      using onWire_others [of "keyOf ar" "CollDestroy (fac cfg)" s]
      by (auto simp: logged_def attempt_def andThen_def ret_def split: prod.splits res.splits)
  qed
qed

text \<open>A wire for the runner is the valid one that was registered, untouched, or a new one with no request.\<close>

lemma WireFor_result:
  assumes "WireFor cfg (Some ar) None s = (Ok u, s1)"
  shows "\<exists>w. registry s1 (keyOf ar) = Some w \<and>
     (s1 = s \<and> Valid w \<or> (jobRequests w = Some 0 \<and> (\<forall>k. k \<noteq> keyOf ar \<longrightarrow> registry s1 k = registry s k)))"
proof -
  obtain found s0 where g: "GetWire cfg (Some ar) s = (Ok found, s0)"
    and m: "(if found then ret () else MakeWire cfg (Some ar) None) s0 = (Ok u, s1)"
    using assms by (auto simp: WireFor_def andThen_Ok_iff)
  note g0 = GetWire_result [OF g]
  show ?thesis
  proof (cases found)
    case True
    then show ?thesis using g0 m by (auto simp: ret_def)
  next
    case False
    then obtain w where "Init (fac cfg) (wlibs cfg) (newWire cfg ar None (eventsClosed s0)) = (Ok (), w)"
      "s1 = s0\<lparr>registry := (registry s0)(keyOf ar \<mapsto> w)\<rparr>"
      using m by (auto simp: MakeWire_def andThen_def lift_res_def ask_def upd_def fail_def panic_def split: prod.splits res.splits)
    then show ?thesis using Init_result [of "fac cfg"] g0 by (fastforce simp: wview_def newWire_def)
  qed
qed

lemma reconcileJobOf_absent:
  assumes f: "job_frame cl key arj_of" and none: "job_at arj_of s = None"
    and run: "reconcileJobOf cfg cl key ar s = (r, s')" and ch: "job_at arj_of s' \<noteq> None"
  shows "\<exists>w n. registry s (keyOf ar) = Some w \<and> jobRequests w = Some (Suc n) \<and>
     registry s' = (registry s)(keyOf ar \<mapsto> w\<lparr>jobRequests := Some n\<rparr>)"
proof -
  have fo: "find_obj (cArj cl) key s = (Ok None, s)"
    using f none by (simp add: find_obj_def zoom_def getOr_def fetched_def job_at_def job_frame_def go_simps)
  obtain taken s1 where t: "onWire (keyOf ar) takeJobRequest s = (Ok taken, s1)" and
    k: "(if taken then andThen (lift_res (ToActionsRunnerJob (Some ar) (scheme cfg))) (\<lambda>des.
             andThen (ignoreExists (onCluster (objCreate (cArj cl) des))) (\<lambda>_.
             onProm (SetGitHubActionsJobAlive (cProm cl) (RepoName (Repository (ArSpec ar))) (MetaName (ArjMeta des)))))
           else andThen ask (\<lambda>s. if map_option Listening (registry s (keyOf ar)) = Some False
             then andThen (onWire (keyOf ar) Listen) (\<lambda>_. ret ()) else ret ())) s1 = (r, s')"
    using run fo ch none keepsD [OF onWire_job, of "keyOf ar" takeJobRequest s _ s' arj_of]
    by (auto simp: reconcileJobOf_def andThen_def split: prod.splits res.splits)
  have j1: "job_at arj_of s1 = None" using keepsD [OF onWire_job t] none by simp
  have "keeps (job_at arj_of) (andThen ask (\<lambda>s. if map_option Listening (registry s (keyOf ar)) = Some False
             then andThen (onWire (keyOf ar) Listen) (\<lambda>_. ret ()) else ret ()) :: (('a, 'b, 'c) operator, unit) go)"
    by (intro keeps_andThen keeps_if onWire_job keeps_basic)
  with k j1 ch have taken by (auto dest: keepsD split: if_splits)
  then have reg: "registry s' = registry s1"
    using k keepsD [of registry "andThen (lift_res (ToActionsRunnerJob (Some ar) (scheme cfg)))
      (\<lambda>des. andThen (ignoreExists (onCluster (objCreate (cArj cl) des))) (\<lambda>_.
       onProm (SetGitHubActionsJobAlive (cProm cl) (RepoName (Repository (ArSpec ar))) (MetaName (ArjMeta des)))))" s1 r s']
    by (auto intro!: keeps_andThen keeps_filters)
  show ?thesis
    using t \<open>taken\<close> reg
    by (auto simp: onWire_def takeJobRequest_def split: option.splits prod.splits nat.splits)
qed

lemma reconcileJobOf_present:
  assumes f: "job_frame cl key arj_of" and job: "job_at arj_of s = Some arj"
    and run: "reconcileJobOf cfg cl key ar s = (r, s')" and ch: "job_at arj_of s' \<noteq> Some arj"
  shows "completed arj \<and> \<not> IsBeingDeleted (Some (ArjMeta arj))"
proof -
  have "find_obj (cArj cl) key s = (Ok (Some arj), s)"
    using f job by (simp add: find_obj_def zoom_def getOr_def fetched_def job_at_def job_frame_def go_simps)
  then show ?thesis
    using run job ch by (auto simp: reconcileJobOf_def andThen_def ret_def split: if_splits)
qed

section \<open>The registry under a reconciliation\<close>

definition pending :: "(NamespacedName \<rightharpoonup> ('f, 'c) wire) \<Rightarrow> NamespacedName \<Rightarrow> nat" where
  "pending reg k = (case reg k of None \<Rightarrow> 0 | Some w \<Rightarrow> (case jobRequests w of None \<Rightarrow> 0 | Some n \<Rightarrow> n))"

definition runner_ok :: "('q, 'c) wire_libs \<Rightarrow> ActionsRunner \<Rightarrow> bool" where
  "runner_ok libs ar \<longleftrightarrow> (\<forall>r\<in>policy_rules (Policy (ArSpec ar)). admissible (engine libs) r)"

text \<open>A wire whose policy was admitted by the webhook and whose cached rules are what they compile to.\<close>

definition wire_ok :: "('q, 'c) wire_libs \<Rightarrow> ('f, 'c) wire \<Rightarrow> bool" where
  "wire_ok libs w \<longleftrightarrow> runner_ok libs (wRunner w) \<and> (\<forall>c. validator w = Some c \<longrightarrow> cache_sound (engine libs) c)"

text \<open>
  What a reconciliation does to the registry: no request appears, and the wires stay in order.
\<close>

definition tame :: "('q, 'c) wire_libs \<Rightarrow> ('w, 'f, 'c) operator \<Rightarrow> ('w, 'f, 'c) operator \<Rightarrow> bool" where
  "tame libs s s' \<longleftrightarrow> (\<forall>k. pending (registry s') k \<le> pending (registry s) k) \<and>
     ((\<forall>w\<in>ran (registry s). wire_ok libs w) \<longrightarrow> (\<forall>w\<in>ran (registry s'). wire_ok libs w))"

lemma tame_order: "reflp (tame libs)" "transp (tame libs)"
  by (auto simp: reflp_def transp_def tame_def intro: order_trans)

lemma stays_keeps:
  assumes "\<And>s s'. registry s' = registry s \<Longrightarrow> R s s'" and "keeps registry m"
  shows "stays R m"
  by (rule staysI) (use assms in \<open>simp add: keeps_def\<close>)

lemma tame_registry: "registry s' = registry s \<Longrightarrow> tame libs s s'"
  by (simp add: tame_def)

text \<open>Relations on the registry that wires and their calls respect, reconciliations respect.\<close>

lemma reconcileJobOf_stays:
  assumes R: "reflp R" "transp R" and reg: "\<And>s s'. registry s' = registry s \<Longrightarrow> R s s'"
    and w: "stays R (onWire (keyOf ar) takeJobRequest)" "stays R (onWire (keyOf ar) Listen)"
  shows "stays R (reconcileJobOf cfg cl key ar)"
proof -
  note c = stays_andThen [OF R(2)] stays_basic [OF R(1)] stays_attempt [OF R(2)]
    stays_keeps [OF reg keeps_find_registry] stays_keeps [OF reg keeps_onCluster_registry] stays_keeps [OF reg keeps_onProm_registry]
  show ?thesis
    unfolding reconcileJobOf_def ignoreExists_def ignoreNotFound_def
    by (intro c) (auto intro!: c w split: option.splits sum.splits)
qed

lemma reconcileIdentity_stays:
  assumes R: "reflp R" "transp R" and reg: "\<And>s s'. registry s' = registry s \<Longrightarrow> R s s'"
    and w: "stays R (WireFor cfg (Some ar) None)" "stays R (onWire (keyOf ar) takeJobRequest)" "stays R (onWire (keyOf ar) Listen)"
  shows "stays R (reconcileIdentity cfg cl key ar)"
proof -
  note c = stays_andThen [OF R(2)] stays_basic [OF R(1)] stays_attempt [OF R(2)]
    stays_keeps [OF reg keeps_find_registry] stays_keeps [OF reg keeps_onCluster_registry]
    stays_keeps [OF reg storeIdentity_keeps(1)] stays_keeps [OF reg reconcileBudget_keeps(1)]
    reconcileJobOf_stays [OF R reg w(2,3)]
  show ?thesis
    unfolding reconcileIdentity_def reconcileWire_def dropIdentity_def logged_def Let_def
    by (intro c) (auto intro!: c w(1) split: sum.splits)
qed

lemma stays_onWire:
  fixes m :: "(('f, 'c) wire, 'a) go"
  assumes "\<And>w. wire_ok libs w \<Longrightarrow> wire_ok libs (snd (m w))"
    and "\<And>w. jobRequests (snd (m w)) = jobRequests w \<or> (\<exists>n. jobRequests w = Some (Suc n) \<and> jobRequests (snd (m w)) = Some n)"
  shows "stays (tame libs :: ('w, 'f, 'c) operator \<Rightarrow> _) (onWire key m)"
proof (rule staysI)
  fix s :: "('w, 'f, 'c) operator"
  show "tame libs s (snd (onWire key m s))"
  proof (cases "registry s key")
    case (Some w)
    obtain r w' where m: "m w = (r, w')" by fastforce
    have "(case jobRequests w' of None \<Rightarrow> 0 | Some n \<Rightarrow> n) \<le> (case jobRequests w of None \<Rightarrow> 0 | Some n \<Rightarrow> n)"
      using assms(2) [of w] m by (auto split: option.splits)
    moreover have "wire_ok libs w \<Longrightarrow> wire_ok libs w'" using assms(1) [of w] m by simp
    ultimately show ?thesis
      using Some m by (auto simp: onWire_def tame_def pending_def ran_def split: if_splits)
  qed (simp add: onWire_def tame_def)
qed

lemma keeps_wview_tame: "keeps wview m \<Longrightarrow> stays (tame libs) (onWire key m)"
  by (rule stays_onWire) (auto simp: keeps_def wview_def wire_ok_def)

lemma keeps_Close: "keeps wview (Close fa)"
proof -
  have "keeps wview (closeChan :: (('a, 'b) wire, unit) go)"
    by (rule keepsI) (simp add: closeChan_def wview_def split: chan.splits)
  then show ?thesis unfolding Close_def by (intro keeps_andThen keeps_if keeps_onFac keeps_basic)
qed

lemma keeps_CollDestroy: "keeps wview (CollDestroy fa)"
  unfolding CollDestroy_def Destroy_def
  by (intro keeps_andThen keeps_logged keeps_Close init_wview keeps_onFac)

lemma MakeWire_tame:
  fixes cfg :: "('q, 'f, 'c) ar_config"
  assumes "runner_ok (wlibs cfg) ar"
  shows "stays (tame (wlibs cfg) :: ('w, 'f, 'c) operator \<Rightarrow> _) (MakeWire cfg (Some ar) df)"
proof (rule staysI)
  fix s :: "('w, 'f, 'c) operator"
  obtain r w where i: "Init (fac cfg) (wlibs cfg) (newWire cfg ar df (eventsClosed s)) = (r, w)" by fastforce
  show "tame (wlibs cfg) s (snd (MakeWire cfg (Some ar) df s))"
  proof (cases r)
    case (Ok u)
    then have "jobRequests w = Some 0" "wire_ok (wlibs cfg) w"
      using Init_result [of "fac cfg" "wlibs cfg"] i assms
      by (auto simp: wview_def newWire_def wire_ok_def NewPolicyValidator_def cache_sound_def)
    then show ?thesis
      using i Ok by (auto simp: MakeWire_def go_simps tame_def pending_def ran_def split: if_splits)
  qed (use i in \<open>simp_all add: MakeWire_def go_simps tame_def\<close>)
qed

lemma WireFor_tame:
  assumes "runner_ok (wlibs cfg) ar"
  shows "stays (tame (wlibs cfg)) (WireFor cfg (Some ar) df)"
proof -
  note c = stays_andThen [OF tame_order(2)] stays_basic [OF tame_order(1)] stays_attempt [OF tame_order(2)]
  have "stays (tame (wlibs cfg)) (GetWire cfg (Some ar))"
    unfolding GetWire_def logged_def
    by (intro c) (auto intro!: c keeps_wview_tame keeps_CollDestroy split: option.splits)
  then show ?thesis
    unfolding WireFor_def by (intro c) (auto intro!: c MakeWire_tame [OF assms])
qed

lemma wire_calls_tame: "stays (tame libs) (onWire k takeJobRequest)" "stays (tame libs) (onWire k Listen)"
proof -
  show "stays (tame libs) (onWire k takeJobRequest)"
    by (rule stays_onWire) (auto simp: takeJobRequest_def wire_ok_def split: option.splits nat.splits)
  show "stays (tame libs) (onWire k Listen)"
    by (rule keeps_wview_tame)
       (auto intro!: keepsI simp: Listen_def listenOpen_def listenMark_def wview_def go_simps)
qed

text \<open>What the runners the client returns have gone through: the admission webhook, and their own key.\<close>

definition admitted_runners :: "('q, 'c) wire_libs \<Rightarrow> 'w ar_client \<Rightarrow> bool" where
  "admitted_runners libs cl \<longleftrightarrow>
     (\<forall>k w ar w'. objGet (cAr cl) k w = (Inr ar, w') \<longrightarrow> keyOf ar = k \<and> runner_ok libs ar)"

lemma find_admitted:
  assumes "admitted_runners libs cl" and "find_obj (cAr cl) k s = (Ok (Some ar), s')"
  shows "keyOf ar = k \<and> runner_ok libs ar"
proof -
  have "\<exists>w'. objGet (cAr cl) k (kworld s) = (Inr ar, w')"
    using assms(2) by (auto simp: find_obj_def getOr_def go_simps split: prod.splits sum.splits if_splits)
  then show ?thesis using assms(1) unfolding admitted_runners_def by blast
qed

lemma ReconcileRunner_tame:
  assumes "admitted_runners (wlibs cfg) cl" and run: "ReconcileRunner cfg cl key s = (r, s')"
  shows "tame (wlibs cfg) s s'"
proof -
  let ?t = "tame (wlibs cfg)"
  have i: "stays ?t (reconcileIdentity cfg cl key ar)" if "runner_ok (wlibs cfg) ar" for ar
    by (rule reconcileIdentity_stays [OF tame_order tame_registry WireFor_tame [OF that] wire_calls_tame])
  have d: "stays ?t (TryDestroy cfg key)"
    by (rule staysI) (auto simp: TryDestroy_def tame_def pending_def ran_def split: option.splits)
  show ?thesis
  proof (cases "gone s")
    case False
    then have run': "andThen (find_obj (cAr cl) key) (\<lambda>far. case far of None \<Rightarrow> TryDestroy cfg key
       | Some ar \<Rightarrow> if IsBeingDeleted (Some (ArMeta ar)) then ret () else reconcileIdentity cfg cl key ar) s = (r, s')"
      using run by (simp add: ReconcileRunner_def andThen_def [of ask] ask_def)
    obtain x s1 where f: "find_obj (cAr cl) key s = (x, s1)" by fastforce
    have "?t s s1" by (rule tame_registry [OF keepsD [OF keeps_find_registry f]])
    moreover have "?t s1 s'"
      using run' f reflpD [OF tame_order(1)] staysD [OF d] staysD [OF i] find_admitted [OF assms(1)]
      by (fastforce simp: andThen_def ret_def split: res.splits option.splits if_splits)
    ultimately show ?thesis by (rule transpD [OF tame_order(2)])
  qed (use run reflpD [OF tame_order(1)] in \<open>auto simp: ReconcileRunner_def go_simps\<close>)
qed

end
