(* ===== verification/Operator.thy ===== *)
theory Operator
  imports Runner_Reconciler
begin

text \<open>
  The operator as a whole: reconciliations, the turns of the listeners and the surroundings interleave
  in any order. Two counters per runner are kept beside the state, of the job requests that arrived
  and satisfy the policy, and of the jobs that reconciliations created.
\<close>

section \<open>A turn of a listener\<close>

text \<open>The message a turn fetches.\<close>

definition fetchedMessage :: "'f facade_api \<Rightarrow> 64 word option \<Rightarrow> ('f, 'c) wire \<Rightarrow> TaskAgentMessage option" where
  "fetchedMessage fa lastId w = (case andThen (onFiles (RefreshForRun fa)) (\<lambda>_. onFac (GetMessage fa lastId)) w of
       (Ok found, _) \<Rightarrow> found | _ \<Rightarrow> None)"

definition admits :: "'f facade_api \<Rightarrow> ('q, 'c) wire_libs \<Rightarrow> 64 word option \<Rightarrow> ('f, 'c) wire \<Rightarrow> bool" where
  "admits fa libs lastId w \<longleftrightarrow> (\<exists>ta msg. fetchedMessage fa lastId w = Some ta \<and> toMessage ta = Ok msg \<and>
     allowed_request libs (Policy (ArSpec (wRunner w))) msg)"

text \<open>What a turn may leave behind, seen from the wire it started on.\<close>

definition turned :: "('q, 'c) wire_libs \<Rightarrow> ('f, 'c) wire \<Rightarrow> bool \<Rightarrow> ('f, 'c) wire \<Rightarrow> bool" where
  "turned libs w allowed w' \<longleftrightarrow> wRunner w' = wRunner w \<and> wire_ok libs w' \<and>
     (jobRequests w' = jobRequests w \<or> allowed \<and> jobRequests w = Some 0 \<and> jobRequests w' = Some 1)"

lemma turned_view: "turned libs w b u \<Longrightarrow> wview t = wview u \<Longrightarrow> turned libs w b t"
  by (auto simp: turned_def wview_def wire_ok_def)

lemma andThen_view:
  assumes "keeps wview m" and "andThen m k s = (r, s')"
  obtains "wview s' = wview s" | x s1 where "m s = (Ok x, s1)" "wview s1 = wview s" "k x s1 = (r, s')"
  using assms keepsD [OF assms(1)] by (fastforce simp: andThen_def split: prod.splits res.splits)

lemma dispatchMessage_turned:
  assumes ok: "wire_ok libs w" and run: "dispatchMessage fa libs l msg w = (r, w')"
  shows "turned libs w (allowed_request libs (Policy (ArSpec (wRunner w))) msg) w'"
    (is "turned libs w ?b w'")
proof -
  have here: "turned libs w ?b w" using ok by (simp add: turned_def)
  let ?ack = "acknowledge fa l msg"
  show ?thesis
  proof (cases "MsgTypeOf msg = MessageTypePipelineAgentJobRequest")
    case False
    then have "?ack w = (r, w')" using run by (simp add: dispatchMessage_def)
    then show ?thesis using keepsD [OF keeps_acknowledge] turned_view [OF here] by blast
  next
    case job: True
    show ?thesis
    proof (cases "decodePajr libs (MsgBody msg)")
      case (Inl e)
      then have "w' = w" using run job by (auto simp: dispatchMessage_def must_def toPipelineAgentJobRequest_def go_simps)
      then show ?thesis using here by simp
    next
      case (Inr pajr)
      obtain v u where v: "validate libs pajr w = (v, u)" by fastforce
      have l: "listens (engine libs) w w" using ok by (simp add: listens_def wire_ok_def)
      note u = validate_listens(1) [OF l v]
      have tu: "turned libs w ?b u" using u ok by (simp add: turned_def listens_def wire_ok_def)
      have rest: "(case v of Ok x \<Rightarrow> (case x of None \<Rightarrow> handOver
          | Some rule \<Rightarrow> andThen (logged (onPolicyViolation fa libs (Some pajr) (Some rule))) (\<lambda>_. ?ack)) u
        | Err e \<Rightarrow> (Panic ''panic(err)'', u) | Panic p \<Rightarrow> (Panic p, u)) = (r, w')"
        using run job Inr v
        by (auto simp: dispatchMessage_def must_def toPipelineAgentJobRequest_def go_simps split: res.splits option.splits)
      show ?thesis
      proof (cases "v = Ok None")
        case True
        then have "?b"
          using validate_listens(2) [OF l v, of None] ok job Inr by (auto simp: wire_ok_def runner_ok_def allowed_request_def)
        then show ?thesis
          using rest True tu u by (auto simp: handOver_def turned_def wire_ok_def listens_def split: if_splits)
      next
        case False
        have "keeps wview (andThen (logged (onPolicyViolation fa libs (Some pajr) (Some rule))) (\<lambda>_. ?ack))" for rule
          by (intro keeps_andThen keeps_logged keeps_violation keeps_acknowledge)
        then have "wview w' = wview u"
          using rest False keepsD by (fastforce split: res.splits option.splits)
        then show ?thesis using tu turned_view by blast
      qed
    qed
  qed
qed

lemma wire_ok_view: "wire_ok libs w \<Longrightarrow> wview u = wview w \<Longrightarrow> wire_ok libs u"
  by (simp add: wire_ok_def wview_def)

lemma handleTaMessage_turned:
  assumes ok: "wire_ok libs w" and run: "handleTaMessage fa libs ta w = (r, w')"
  shows "turned libs w (\<exists>msg. toMessage ta = Ok msg \<and> allowed_request libs (Policy (ArSpec (wRunner w))) msg) w'"
  using run
proof (cases rule: handleTaMessage_cases)
  case (1 msg u)
  have "wRunner u = wRunner w" using 1(2) by (simp add: wview_def)
  with dispatchMessage_turned [OF wire_ok_view [OF ok 1(2)] 1(4)] 1(1,2) show ?thesis by (simp add: turned_def wview_def)
qed (use ok in \<open>simp add: turned_def\<close>)

lemma listenTurn_turned:
  assumes ok: "wire_ok libs w" and run: "listenTurn fa libs lastId w = (r, w')"
  shows "turned libs w (admits fa libs lastId w) w'"
proof -
  have here: "wview u = wview w \<Longrightarrow> turned libs w b u" for u b using ok by (auto simp: turned_def wview_def wire_ok_def)
  from run have "andThen (must (onFiles (RefreshForRun fa))) (\<lambda>_. andThen (must (onFac (GetMessage fa lastId))) (\<lambda>found.
     case found of None \<Rightarrow> ret (TurnNext lastId) | Some ta \<Rightarrow> handleTaMessage fa libs ta)) w = (r, w')"
    by (simp add: listenTurn_def)
  from andThen_view [OF keeps_must [OF keeps_onFiles] this] show ?thesis
  proof cases
    case 1
    then show ?thesis by (rule here)
  next
    case (2 x w1)
    from andThen_view [OF keeps_must [OF keeps_onFac] 2(3)] show ?thesis
    proof cases
      case 1
      then show ?thesis using 2(2) by (intro here) simp
    next
      case (2 found w2)
      have v: "wview w2 = wview w" using 2(2) \<open>wview w1 = wview w\<close> by simp
      have f: "fetchedMessage fa lastId w = found"
        using 2(1) \<open>must _ w = (Ok x, w1)\<close> by (simp add: fetchedMessage_def andThen_def)
      show ?thesis
      proof (cases found)
        case None
        then show ?thesis using 2(3) v by (intro here) (simp add: ret_def)
      next
        case (Some ta)
        have ok2: "wire_ok libs w2" using ok v by (simp add: wview_def wire_ok_def)
        have "handleTaMessage fa libs ta w2 = (r, w')" using 2(3) Some by simp
        from handleTaMessage_turned [OF ok2 this] show ?thesis
          using v f Some by (auto simp: turned_def admits_def wview_def)
      qed
    qed
  qed
qed

section \<open>Runs of the operator\<close>

record ('w, 'f, 'c) run =
  op :: "('w, 'f, 'c) operator"
  arrived :: "NamespacedName \<Rightarrow> nat"
  created :: "NamespacedName \<Rightarrow> nat"

text \<open>
  A step: a reconciliation, a turn of the listener of a registered wire, any other method call that
  leaves the requests of a wire alone (opening and closing the loop, the session, the service behind the
  facades moving on), any change of the cluster by others, or the shutdown.
\<close>

inductive op_step ::
    "('q, 'f, 'c) ar_config \<Rightarrow> 'w ar_client \<Rightarrow> (NamespacedName \<Rightarrow> 'w \<Rightarrow> ActionsRunnerJob option) \<Rightarrow>
     ('w, 'f, 'c) run \<Rightarrow> ('w, 'f, 'c) run \<Rightarrow> bool"
  for cfg cl arj_of where
  reconcile: "ReconcileRunner cfg cl key (op x) = (r, s') \<Longrightarrow>
     op_step cfg cl arj_of x (x\<lparr>op := s', created := (created x)(key := created x key +
       (if job_at (arj_of key) (op x) = None \<and> job_at (arj_of key) s' \<noteq> None then 1 else 0))\<rparr>)"
| turn: "registry (op x) key = Some w \<Longrightarrow> listenTurn (fac cfg) (wlibs cfg) lastId w = (r, w') \<Longrightarrow>
     op_step cfg cl arj_of x (x\<lparr>op := (op x)\<lparr>registry := (registry (op x))(key \<mapsto> w')\<rparr>,
       arrived := (arrived x)(key := arrived x key + (if admits (fac cfg) (wlibs cfg) lastId w then 1 else 0))\<rparr>)"
| wire: "registry (op x) key = Some w \<Longrightarrow> wview w' = wview w \<Longrightarrow>
     op_step cfg cl arj_of x (x\<lparr>op := (op x)\<lparr>registry := (registry (op x))(key \<mapsto> w')\<rparr>\<rparr>)"
| cluster: "op_step cfg cl arj_of x (x\<lparr>op := (op x)\<lparr>kworld := world\<rparr>\<rparr>)"
| shutdown: "op_step cfg cl arj_of x (x\<lparr>op := Deinit cfg (op x)\<rparr>)"

inductive_cases op_stepE: "op_step cfg cl arj_of x y"

definition op_start :: "('w, 'f, 'c) run \<Rightarrow> bool" where
  "op_start x \<longleftrightarrow> registry (op x) = Map.empty \<and> arrived x = (\<lambda>_. 0) \<and> created x = (\<lambda>_. 0)"

text \<open>Every job created and every request pending stands for a request of its own that arrived.\<close>

definition backed :: "('q, 'c) wire_libs \<Rightarrow> ('w, 'f, 'c) run \<Rightarrow> bool" where
  "backed libs x \<longleftrightarrow> (\<forall>k. created x k + pending (registry (op x)) k \<le> arrived x k) \<and>
     (\<forall>w\<in>ran (registry (op x)). wire_ok libs w)"

definition op_laws :: "('q, 'f, 'c) ar_config \<Rightarrow> 'w ar_client \<Rightarrow> (NamespacedName \<Rightarrow> 'w \<Rightarrow> ActionsRunnerJob option) \<Rightarrow> bool" where
  "op_laws cfg cl arj_of \<longleftrightarrow> admitted_runners (wlibs cfg) cl \<and> (\<forall>key. job_frame cl key (arj_of key))"

text \<open>A reconciliation that makes a job appear takes a pending request.\<close>

lemma created_from_pending:
  fixes s :: "('w, 'f, 'c) operator"
  assumes "admitted_runners (wlibs cfg) cl" and f: "job_frame cl key arj_of"
    and run: "ReconcileRunner cfg cl key s = (r, s')" and none: "job_at arj_of s = None" and some: "job_at arj_of s' \<noteq> None"
  shows "pending (registry s) key = Suc (pending (registry s') key)"
proof -
  have ch: "job_at arj_of s' \<noteq> job_at arj_of s" using none some by simp
  obtain ar and sa s0 s1 s2 :: "('w, 'f, 'c) operator" where
    a: "find_obj (cAr cl) key s = (Ok (Some ar), sa)" "\<not> gone s" "\<not> IsBeingDeleted (Some (ArMeta ar))" and w: "WireFor cfg (Some ar) None s0 = (Ok (), s1)"
    and reg: "registry s0 = registry s" "registry s2 = registry s1" and j: "job_at arj_of s2 = job_at arj_of s"
    and k: "reconcileJobOf cfg cl key ar s2 = (r, s')"
    by (rule ReconcileRunner_changes [OF f run ch])
  have key: "keyOf ar = key" using find_admitted [OF assms(1) a(1)] by simp
  obtain v n where v: "registry s2 key = Some v" "jobRequests v = Some (Suc n)"
      "registry s' = (registry s2)(key \<mapsto> v\<lparr>jobRequests := Some n\<rparr>)"
    using reconcileJobOf_absent [OF f _ k some] j none key by auto
  have "s1 = s0" using WireFor_result [OF w] v(1,2) reg(2) key by auto
  then show ?thesis using v reg by (simp add: pending_def)
qed

lemma pending_upd:
  "wview w' = wview w \<Longrightarrow> reg k = Some w \<Longrightarrow> pending (reg(k \<mapsto> w')) k' = pending reg k'"
  by (auto simp: pending_def wview_def)

lemma ran_upd_ok:
  "\<forall>w\<in>ran reg. wire_ok libs w \<Longrightarrow> wire_ok libs w' \<Longrightarrow> \<forall>w\<in>ran (reg(k \<mapsto> w')). wire_ok libs w"
  by (auto simp: ran_def split: if_splits)

lemma Deinit_view:
  fixes s :: "('w, 'f, 'c) operator"
  shows "map_option wview (registry (Deinit cfg s) k) =
    map_option (\<lambda>w. wview (w\<lparr>notifierClosed := True\<rparr>)) (registry s k)"
proof -
  have "wview (snd (logged (Close (fac cfg)) w)) = wview w" for w :: "('f, 'c) wire"
    by (rule keepsD [OF keeps_logged [OF keeps_Close] prod.collapse [symmetric]])
  then show ?thesis by (simp add: Deinit_def option.map_comp comp_def)
qed

lemma Deinit_backed:
  assumes "backed libs x"
  shows "pending (registry (Deinit cfg (op x))) k = pending (registry (op x)) k"
    and "\<forall>w\<in>ran (registry (Deinit cfg (op x))). wire_ok libs w"
proof -
  show "pending (registry (Deinit cfg (op x))) k = pending (registry (op x)) k"
    using Deinit_view [of cfg "op x" k]
    by (cases "registry (op x) k"; cases "registry (Deinit cfg (op x)) k") (auto simp: pending_def wview_def)
  show "\<forall>w\<in>ran (registry (Deinit cfg (op x))). wire_ok libs w"
  proof
    fix w assume "w \<in> ran (registry (Deinit cfg (op x)))"
    then obtain k where k: "registry (Deinit cfg (op x)) k = Some w" by (auto simp: ran_def)
    then obtain v where "registry (op x) k = Some v" "wview w = wview (v\<lparr>notifierClosed := True\<rparr>)"
      using Deinit_view [of cfg "op x" k] by (cases "registry (op x) k") auto
    then show "wire_ok libs w" using assms by (auto simp: backed_def ran_def wire_ok_def wview_def)
  qed
qed

lemma op_step_backed:
  assumes laws: "op_laws cfg cl arj_of" and inv: "backed (wlibs cfg) x" and step: "op_step cfg cl arj_of x y"
  shows "backed (wlibs cfg) y"
  using step
proof cases
  case (reconcile key r s')
  have adm: "admitted_runners (wlibs cfg) cl" and f: "job_frame cl key (arj_of key)" using laws by (auto simp: op_laws_def)
  note t = ReconcileRunner_tame [OF adm reconcile(2)]
  have "created y k + pending (registry s') k \<le> arrived x k" for k
  proof -
    have "created x k + pending (registry (op x)) k \<le> arrived x k" "pending (registry s') k \<le> pending (registry (op x)) k"
      using inv t by (simp_all add: backed_def tame_def)
    then show ?thesis
      using created_from_pending [OF adm f reconcile(2)] reconcile(1) by (cases "k = key") auto
  qed
  then show ?thesis using inv t reconcile(1) by (simp add: backed_def tame_def)
next
  case (turn key w lastId r w')
  have ok: "wire_ok (wlibs cfg) w" using inv turn(2) by (auto simp: backed_def ran_def)
  note t = listenTurn_turned [OF ok turn(3)]
  have "created x k + pending ((registry (op x))(key \<mapsto> w')) k \<le> arrived y k" for k
  proof -
    have "created x k + pending (registry (op x)) k \<le> arrived x k" using inv by (simp add: backed_def)
    then show ?thesis using t turn(1,2) by (auto simp: turned_def pending_def)
  qed
  moreover have "\<forall>v\<in>ran ((registry (op x))(key \<mapsto> w')). wire_ok (wlibs cfg) v"
    using inv t by (intro ran_upd_ok) (simp_all add: backed_def turned_def)
  ultimately show ?thesis using turn(1) by (simp add: backed_def)
next
  case (wire key w w')
  have "wire_ok (wlibs cfg) w'" using inv wire(2,3) by (auto simp: backed_def ran_def wire_ok_def wview_def)
  then have "\<forall>v\<in>ran ((registry (op x))(key \<mapsto> w')). wire_ok (wlibs cfg) v"
    using inv by (intro ran_upd_ok) (simp_all add: backed_def)
  then show ?thesis
    using inv wire(1,2) pending_upd [OF wire(3), of "registry (op x)" key] by (simp add: backed_def)
next
  case (cluster world)
  then show ?thesis using inv by (simp add: backed_def)
next
  case shutdown
  then show ?thesis using Deinit_backed [OF inv, of cfg] inv by (simp add: backed_def)
qed

interpretation op_runs: transition_system op_start "op_step cfg cl arj_of"
    "\<lambda>x. op_laws cfg cl arj_of \<longrightarrow> backed (wlibs cfg) x"
  for cfg :: "('q, 'f, 'c) ar_config" and cl :: "'w ar_client" and arj_of
proof unfold_locales
  fix s :: "('w, 'f, 'c) run"
  assume "op_start s"
  then show "op_laws cfg cl arj_of \<longrightarrow> backed (wlibs cfg) s" by (simp add: op_start_def backed_def pending_def)
qed (use op_step_backed in blast)

section \<open>A cluster to run on\<close>

text \<open>A cluster with one runner and its identity, whose state is the job under the runner's key.\<close>

definition demo_key_of_runner :: NamespacedName where
  "demo_key_of_runner = \<lparr>KeyNamespace = ''ns'', KeyName = ''ar''\<rparr>"

definition still :: "(NamespacedName \<Rightarrow> 'o option) \<Rightarrow> ('w, 'o) objs" where
  "still f = \<lparr>objGet = (\<lambda>k w. (fetched (f k), w)), objCreate = (\<lambda>x w. (Inr (), w)), objUpdate = (\<lambda>x w. (Inr (), w)),
     objDelete = (\<lambda>x w. (Inr (), w))\<rparr>"

text \<open>A cluster that holds the job and the series of the metrics.\<close>

type_synonym demo_world = "ActionsRunnerJob option \<times> (collector \<times> string list \<rightharpoonup> int)"

definition onSeries :: "('x \<Rightarrow> 'x option) \<Rightarrow> 'a \<times> 'x \<Rightarrow> ('a \<times> 'x) option" where
  "onSeries f w = map_option (Pair (fst w)) (f (snd w))"

definition demo_cluster :: "demo_world ar_client" where
  "demo_cluster = \<lparr>
     cAr = still (\<lambda>k. if k = demo_key_of_runner then Some (demo_runner []) else None),
     cCm = still (\<lambda>k. None), cSec = still (\<lambda>k. None), cPdb = still (\<lambda>k. None),
     cArj = \<lparr>objGet = (\<lambda>k w. (fetched (fst w), w)), objCreate = (\<lambda>x w. (Inr (), (Some x, snd w))),
       objUpdate = (\<lambda>x w. (Inr (), (Some x, snd w))), objDelete = (\<lambda>x w. (Inr (), (None, snd w)))\<rparr>,
     cProm = \<lparr>mustRegister = (\<lambda>cs. onSeries (mustRegister demo_prom cs)), gaugeSet = (\<lambda>c ls v. onSeries (gaugeSet demo_prom c ls v)),
       gaugeSetToCurrentTime = (\<lambda>c ls. onSeries (gaugeSetToCurrentTime demo_prom c ls)),
       counterInc = (\<lambda>c ls. onSeries (counterInc demo_prom c ls))\<rparr>\<rparr>"

definition demo_config :: "(string, TaskAgentMessage list, string) ar_config" where
  "demo_config = \<lparr>fac = demo_facades, wlibs = demo_libs\<lparr>generateKey := Inr demo_key\<rparr>, newFac = [job_message ''main''],
     js = \<lparr>marshalRunner = (\<lambda>x. Inr ''{}''), unmarshalRunner = (\<lambda>b. Inr (FRunner zeroFiles)),
       marshalCredentials = (\<lambda>x. Inr ''{}''), unmarshalCredentials = (\<lambda>b. Inr (FCredentials zeroFiles)),
       marshalRSA = (\<lambda>x. Inr ''{}''), unmarshalRSA = (\<lambda>b. Inr (FRSAParameters zeroFiles))\<rparr>,
     scheme = Some demo_scheme\<rparr>"

lemma demo_cluster_frame: "job_frame demo_cluster key fst"
  by (simp add: job_frame_def demo_cluster_def still_def)
     (auto simp: unmetered_def onSeries_def demo_prom_def)

lemma demo_cluster_series: "prom_law (cProm demo_cluster) snd (\<lambda>w. 7)"
  by (auto simp: prom_law_def demo_cluster_def onSeries_def demo_prom_def)

lemma demo_cluster_admitted: "admitted_runners (wlibs demo_config) demo_cluster"
  by (auto simp: admitted_runners_def demo_cluster_def still_def fetched_def keyOf_def demo_key_of_runner_def demo_runner_def
      zeroMeta_def runner_ok_def policy_rules_def emptySpec_def)

lemma demo_op_laws: "op_laws demo_config demo_cluster (\<lambda>k. fst)"
  by (simp add: op_laws_def demo_cluster_frame demo_cluster_admitted)

definition demo_op :: "ActionsRunnerJob option \<Rightarrow> (demo_world, TaskAgentMessage list, string) operator" where
  "demo_op job = \<lparr>kworld = (job, Map.empty), registry = Map.empty, eventsClosed = False, gone = False\<rparr>"

definition demo_new_wire :: "(TaskAgentMessage list, string) wire" where
  "demo_new_wire = snd (Init demo_facades (wlibs demo_config) (newWire demo_config (demo_runner []) None False))"

lemma demo_runner_simps [simp]:
  "keyOf (demo_runner caps) = demo_key_of_runner" "IsBeingDeleted (Some (ArMeta (demo_runner caps))) = False"
  "ControllerOwner (namedMeta (ArMeta (demo_runner caps))) = None"
  "Labels (ArSpec (demo_runner caps)) = None" "Policy (ArSpec (demo_runner caps)) = \<lparr>Must = None, MustNot = None\<rparr>"
  by (simp_all add: keyOf_def demo_key_of_runner_def demo_runner_def zeroMeta_def IsBeingDeleted_def namedMeta_def emptySpec_def)

lemma demo_Init: "Init demo_facades (wlibs demo_config) (newWire demo_config (demo_runner []) None False) = (Ok (), demo_new_wire)"
  by (simp add: demo_new_wire_def Init_def wireInit_def initDotFiles_def NewRSAParameters_def demo_config_def demo_key_def newWire_def
      initGH_def initADO_def onFac_def onFiles_def onRunnerFile_def demo_facades_def go_simps)

lemma demo_config_simps [simp]:
  "fac demo_config = demo_facades" "scheme demo_config = Some demo_scheme"
  "marshalRunner (js demo_config) r = Inr ''{}''" "marshalCredentials (js demo_config) c = Inr ''{}''"
  "marshalRSA (js demo_config) x = Inr ''{}''"
  by (simp_all add: demo_config_def)

lemma demo_cluster_gets [simp]:
  "find_obj (cAr demo_cluster) demo_key_of_runner s = (Ok (Some (demo_runner [])), s)"
  "find_obj (cCm demo_cluster) k s = (Ok None, s)" "find_obj (cSec demo_cluster) k s = (Ok None, s)"
  "find_obj (cPdb demo_cluster) k s = (Ok None, s)" "find_obj (cArj demo_cluster) k s = (Ok (fst (kworld s)), s)"
  "onCluster (objCreate (cCm demo_cluster) cm) s = (Ok (), s)" "onCluster (objUpdate (cCm demo_cluster) cm) s = (Ok (), s)"
  "onCluster (objCreate (cSec demo_cluster) sec) s = (Ok (), s)" "onCluster (objUpdate (cSec demo_cluster) sec) s = (Ok (), s)"
  "onCluster (objCreate (cPdb demo_cluster) b) s = (Ok (), s)" "onCluster (objUpdate (cPdb demo_cluster) b) s = (Ok (), s)"
  "onCluster (objDelete (cPdb demo_cluster) b) s = (Ok (), s)"
  "onCluster (objCreate (cArj demo_cluster) j) s = (Ok (), s\<lparr>kworld := (Some j, snd (kworld s))\<rparr>)"
  "onCluster (objDelete (cArj demo_cluster) j) s = (Ok (), s\<lparr>kworld := (None, snd (kworld s))\<rparr>)"
  "onProm (SetGitHubActionsJobAlive (cProm demo_cluster) r n) s = (Ok (), s\<lparr>kworld := (fst (kworld s),
     (snd (kworld s))((githubActionsJobAliveGauge, [r, n]) \<mapsto> 1, (githubActionsJobStartedTimestampGauge, [r, n]) \<mapsto> 7))\<rparr>)"
  "onProm (SetGitHubActionsJobDone (cProm demo_cluster) r n) s = (Ok (), s\<lparr>kworld := (fst (kworld s),
     (snd (kworld s))((githubActionsJobAliveGauge, [r, n]) \<mapsto> 0, (githubActionsJobFinishedTimestampGauge, [r, n]) \<mapsto> 7))\<rparr>)"
  by (simp_all add: demo_cluster_def still_def find_obj_def onCluster_def getOr_def fetched_def go_simps onProm_def reporting_def
      SetGitHubActionsJobAlive_def SetGitHubActionsJobDone_def onSeries_def demo_prom_def split: option.splits)

lemma demo_WireFor:
  "WireFor demo_config (Some (demo_runner [])) None (demo_op job) =
     (Ok (), (demo_op job)\<lparr>registry := [demo_key_of_runner \<mapsto> demo_new_wire]\<rparr>)"
  using demo_Init by (simp add: WireFor_def GetWire_def MakeWire_def go_simps demo_op_def)

lemma demo_converters:
  "\<exists>cm. ToConfigMap (js demo_config) (Some df) (Some (demo_runner [])) (Some demo_scheme) = Ok cm"
  "\<exists>sec. ToSecret (js demo_config) (Some df) (Some (demo_runner [])) (Some demo_scheme) = Ok sec"
  "\<exists>pdb. ToPodDisruptionBudget (Some (demo_runner [])) (Some demo_scheme) = Ok pdb"
  by (simp_all add: ToConfigMap_def ToSecret_def ToPodDisruptionBudget_def demo_scheme_def)

lemma demo_identity_and_budget:
  assumes "registry s demo_key_of_runner = Some w" "wDotFiles w = Some df"
  shows "storeIdentity demo_config demo_cluster (demo_runner []) zeroConfigMap zeroSecret s = (Ok (), s)"
    and "reconcileBudget demo_config demo_cluster k (demo_runner []) s = (Ok True, s)"
proof -
  obtain cm sec pdb where c: "ToConfigMap (js demo_config) (Some df) (Some (demo_runner [])) (Some demo_scheme) = Ok cm"
    "ToSecret (js demo_config) (Some df) (Some (demo_runner [])) (Some demo_scheme) = Ok sec"
    "ToPodDisruptionBudget (Some (demo_runner [])) (Some demo_scheme) = Ok pdb"
    using demo_converters(1) [of df] demo_converters(2) [of df] demo_converters(3) by blast
  show "storeIdentity demo_config demo_cluster (demo_runner []) zeroConfigMap zeroSecret s = (Ok (), s)"
    using assms by (simp add: storeIdentity_def Let_def c go_simps ignoreExists_def)
  show "reconcileBudget demo_config demo_cluster k (demo_runner []) s = (Ok True, s)"
    by (simp add: reconcileBudget_def Let_def c go_simps zeroPdb_def zeroMeta_def IsBeingDeleted_def ignoreExists_def ignoreNotFound_def
        split: ReconciliationAction.splits)
qed

lemma zero_not_deleted [simp]:
  "IsBeingDeleted (Some (CmMeta zeroConfigMap)) = False" "IsBeingDeleted (Some (SecMeta zeroSecret)) = False"
  by (simp_all add: zeroConfigMap_def zeroSecret_def zeroMeta_def IsBeingDeleted_def)

lemma demo_reconcile:
  assumes "\<not> gone s" "WireFor demo_config (Some (demo_runner [])) None s = (Ok (), s1)"
    "registry s1 demo_key_of_runner = Some w" "wDotFiles w = Some df"
  shows "ReconcileRunner demo_config demo_cluster demo_key_of_runner s =
     reconcileJobOf demo_config demo_cluster demo_key_of_runner (demo_runner []) s1"
proof -
  have "reconcileWire demo_config demo_cluster demo_key_of_runner (demo_runner []) zeroConfigMap zeroSecret s =
     reconcileJobOf demo_config demo_cluster demo_key_of_runner (demo_runner []) s1"
    by (simp add: reconcileWire_def andThen_def attempt_def assms(2) demo_identity_and_budget [OF assms(3,4)])
  then show ?thesis
    using assms(1) by (simp add: ReconcileRunner_def reconcileIdentity_def andThen_def ask_def)
qed

lemma demo_new_wire_fields:
  "wRunner demo_new_wire = demo_runner []" "wFac demo_new_wire = [job_message ''main'']" "jobRequests demo_new_wire = Some 0"
  "validator demo_new_wire = Some NewPolicyValidator" "Valid demo_new_wire" "\<not> listening demo_new_wire"
  "\<not> notifierClosed demo_new_wire" "\<exists>df. wDotFiles demo_new_wire = Some df"
  by (simp_all add: demo_new_wire_def Init_def wireInit_def initDotFiles_def NewRSAParameters_def demo_config_def demo_key_def newWire_def
      initGH_def initADO_def onFac_def onFiles_def onRunnerFile_def demo_facades_def Valid_def go_simps)

lemma demo_turn:
  assumes "wRunner w = demo_runner []" "wFac w = [job_message ''main'']" "jobRequests w = Some 0"
    "validator w = Some NewPolicyValidator" "\<not> notifierClosed w"
  shows "\<exists>w2. listenTurn demo_facades (wlibs demo_config) None w = (Ok TurnBreak, w2) \<and> jobRequests w2 = Some 1 \<and>
     wDotFiles w2 = wDotFiles w \<and> Valid w2 = Valid w"
  using assms
  by (simp add: listenTurn_def handleTaMessage_def countEvent_def dispatchMessage_def must_def onFiles_def onFac_def go_simps toMessage_def demo_facades_def
      job_message_def MessageTypePipelineAgentJobRequest_def toPipelineAgentJobRequest_def validate_def Validate_def demo_config_def
      demo_libs_def NewPolicyValidator_def handOver_def Valid_def)

section \<open>Properties\<close>

text \<open>
  Claim C1. No job without a request of its own that the policy allows: in every run of the operator, however
  reconciliations, listener turns, other calls on wires, changes of the cluster and the shutdown are
  interleaved, the jobs that reconciliations of a runner created, together with the requests still
  pending on its wire, are at most the job requests that arrived for it and satisfied the policy of
  the runner its wire was made for. The client returns runners under their key and past the
  admission webhook.
\<close>

theorem jobs_backed_by_admitted_requests:
  assumes "admitted_runners (wlibs cfg) cl" and "\<forall>key. job_frame cl key (arj_of key)"
    and "op_start x" and "rtranclp (op_step cfg cl arj_of) x y"
  shows "created y k + pending (registry (op y)) k \<le> arrived y k"
  using op_runs.reachable_inv [OF assms(3,4)] assms(1,2) by (simp add: op_laws_def backed_def)

theorem jobs_backed_by_admitted_requests_witness:
  "\<exists>x y. op_start x \<and> rtranclp (op_step demo_config demo_cluster (\<lambda>k. fst)) x y \<and>
     created y demo_key_of_runner = 1 \<and> arrived y demo_key_of_runner \<ge> 1"
proof -
  let ?step = "op_step demo_config demo_cluster (\<lambda>k. fst)"
  let ?k = demo_key_of_runner
  let ?x = "\<lparr>op = demo_op None, arrived = (\<lambda>_. 0), created = (\<lambda>_. 0)\<rparr>"
  obtain df where df: "wDotFiles demo_new_wire = Some df" using demo_new_wire_fields(8) by blast
  define w1 where "w1 = demo_new_wire\<lparr>loopClose := ChOpen, listening := True\<rparr>"
  define s1 where "s1 = (demo_op None)\<lparr>registry := [?k \<mapsto> w1]\<rparr>"
  have "ReconcileRunner demo_config demo_cluster ?k (demo_op None) = (Ok (), s1)"
    using demo_new_wire_fields df
    by (subst demo_reconcile [OF _ demo_WireFor]) (simp_all add: demo_op_def reconcileJobOf_def go_simps onWire_def takeJobRequest_def
      Listening_def Listen_def listenOpen_def listenMark_def s1_def w1_def)
  then have 1: "?step ?x \<lparr>op = s1, arrived = (\<lambda>_. 0), created = (\<lambda>_. 0)\<rparr>"
    using op_step.reconcile [of demo_config demo_cluster ?k ?x "Ok ()" s1 "\<lambda>k. fst"] by (simp add: job_at_def s1_def demo_op_def fun_upd_idem)
  obtain w2 where w2: "listenTurn demo_facades (wlibs demo_config) None w1 = (Ok TurnBreak, w2)" "jobRequests w2 = Some 1"
      "wDotFiles w2 = Some df" "Valid w2"
    using demo_turn [of w1] demo_new_wire_fields df by (auto simp: w1_def Valid_def)
  define s2 where "s2 = s1\<lparr>registry := (registry s1)(?k \<mapsto> w2)\<rparr>"
  obtain n where 2: "?step \<lparr>op = s1, arrived = (\<lambda>_. 0), created = (\<lambda>_. 0)\<rparr> \<lparr>op = s2, arrived = n, created = (\<lambda>_. 0)\<rparr>"
    using op_step.turn [of "\<lparr>op = s1, arrived = (\<lambda>_. 0), created = (\<lambda>_. 0)\<rparr>" ?k w1 demo_config None "Ok TurnBreak" w2 demo_cluster "\<lambda>k. fst"] w2(1)
    by (simp add: s1_def s2_def)
  have "WireFor demo_config (Some (demo_runner [])) None s2 = (Ok (), s2)"
    using w2 by (simp add: WireFor_def GetWire_def go_simps s2_def)
  then have "ReconcileRunner demo_config demo_cluster ?k s2 =
      reconcileJobOf demo_config demo_cluster ?k (demo_runner []) s2"
    using w2 by (intro demo_reconcile) (simp_all add: s2_def s1_def demo_op_def)
  moreover obtain s3 where "reconcileJobOf demo_config demo_cluster ?k (demo_runner []) s2 = (Ok (), s3)" "fst (kworld s3) \<noteq> None"
    using w2 by (simp add: reconcileJobOf_def go_simps onWire_def takeJobRequest_def s2_def s1_def demo_op_def ignoreExists_def
        ToActionsRunnerJob_def demo_scheme_def namedMeta_def zeroMeta_def)
  ultimately have 3: "?step \<lparr>op = s2, arrived = n, created = (\<lambda>_. 0)\<rparr> \<lparr>op = s3, arrived = n, created = (\<lambda>_. 0)(?k := 1)\<rparr>"
    using op_step.reconcile [of demo_config demo_cluster ?k "\<lparr>op = s2, arrived = n, created = (\<lambda>_. 0)\<rparr>" "Ok ()" s3 "\<lambda>k. fst"]
    by (simp add: job_at_def s2_def s1_def demo_op_def)
  have run: "rtranclp ?step ?x \<lparr>op = s3, arrived = n, created = (\<lambda>_. 0)(?k := 1)\<rparr>"
    by (rule rtranclp.rtrancl_into_rtrancl, rule rtranclp.rtrancl_into_rtrancl, rule r_into_rtranclp) (fact 1, fact 2, fact 3)
  have "op_start ?x" by (simp add: op_start_def demo_op_def)
  from jobs_backed_by_admitted_requests [OF demo_cluster_admitted _ this run, of ?k] demo_cluster_frame run this
  show ?thesis by (intro exI [of _ ?x] exI [of _ "\<lparr>op = s3, arrived = n, created = (\<lambda>_. 0)(?k := 1)\<rparr>"]) simp
qed


text \<open>
  Claim C11. A job disappears only when it is over: a reconciliation of a runner that leaves its job other than
  it was found that job in a final phase (the claim lost, or the pod succeeded, failed or unknown), not
  yet being deleted, and the operator not shutting down.
\<close>

theorem job_deleted_only_when_completed:
  assumes "job_frame cl key arj_of" and "ReconcileRunner cfg cl key s = (r, s')"
    and "job_at arj_of s = Some arj" and "job_at arj_of s' \<noteq> Some arj"
  shows "(PersistentVolumeClaimPhase (ArjStatus arj) = ClaimLost \<or>
      JobPodPhase (ArjStatus arj) \<in> {PodSucceeded, PodFailed, PodUnknown}) \<and>
     \<not> IsBeingDeleted (Some (ArjMeta arj)) \<and> \<not> gone s"
proof -
  have ch: "job_at arj_of s' \<noteq> job_at arj_of s" using assms(3,4) by simp
  show ?thesis
  proof (rule ReconcileRunner_changes [OF assms(1,2) ch])
    fix ar s2
    assume "\<not> gone s" "job_at arj_of s2 = job_at arj_of s" "reconcileJobOf cfg cl key ar s2 = (r, s')"
    then show ?thesis
      using reconcileJobOf_present [OF assms(1) _ _ assms(4), of s2] assms(3) by (simp add: completed_def)
  qed
qed

definition demo_done :: ActionsRunnerJob where
  "demo_done = demo_job\<lparr>ArjStatus := \<lparr>PersistentVolumeClaimPhase = ClaimBound, JobPodPhase = PodSucceeded\<rparr>\<rparr>"

lemma demo_reconcile_done:
  "ReconcileRunner demo_config demo_cluster demo_key_of_runner (demo_op (Some demo_done)) =
     (Ok (), (demo_op None)\<lparr>kworld := (None, [(githubActionsJobAliveGauge, [RepoName (Repository (ArSpec (demo_runner []))), ''ar'']) \<mapsto> 0,
        (githubActionsJobFinishedTimestampGauge, [RepoName (Repository (ArSpec (demo_runner []))), ''ar'']) \<mapsto> 7]),
      registry := [demo_key_of_runner \<mapsto> demo_new_wire]\<rparr>)"
proof -
  obtain df where df: "wDotFiles demo_new_wire = Some df" using demo_new_wire_fields(8) by blast
  then show ?thesis
    by (subst demo_reconcile [OF _ demo_WireFor])
       (simp_all add: demo_op_def reconcileJobOf_def go_simps demo_done_def demo_job_def IsBeingDeleted_def zeroMeta_def completed_def
          ignoreNotFound_def)
qed

theorem job_deleted_only_when_completed_witness:
  "\<exists>s'. ReconcileRunner demo_config demo_cluster demo_key_of_runner (demo_op (Some demo_done)) = (Ok (), s') \<and>
     job_at fst s' = None \<and> (PersistentVolumeClaimPhase (ArjStatus demo_done) = ClaimLost \<or>
       JobPodPhase (ArjStatus demo_done) \<in> {PodSucceeded, PodFailed, PodUnknown})"
proof -
  have "job_at fst (demo_op (Some demo_done)) = Some demo_done" by (simp add: job_at_def demo_op_def)
  from job_deleted_only_when_completed [OF demo_cluster_frame demo_reconcile_done this] demo_reconcile_done show ?thesis
    by (simp add: job_at_def demo_op_def)
qed

section \<open>The gauges of the jobs\<close>

lemma onProm_result:
  "f (kworld s) = Some y \<Longrightarrow> onProm f s = (r, s') \<Longrightarrow> kworld s' = y"
  by (auto simp: onProm_def zoom_def reporting_def)

lemma created_job_reported:
  assumes f: "job_frame cl key arj_of" and p: "prom_law (cProm cl) val now" and none: "job_at arj_of s = None"
    and run: "reconcileJobOf cfg cl key ar s = (Ok (), s')" and ch: "job_at arj_of s' \<noteq> None"
  shows "\<exists>des t. ToActionsRunnerJob (Some ar) (scheme cfg) = Ok des \<and> t \<le> now (kworld s') \<and>
     val (kworld s') (githubActionsJobAliveGauge, [RepoName (Repository (ArSpec ar)), MetaName (ArjMeta des)]) = Some 1 \<and>
     val (kworld s') (githubActionsJobStartedTimestampGauge, [RepoName (Repository (ArSpec ar)), MetaName (ArjMeta des)]) = Some t"
proof -
  have fo: "find_obj (cArj cl) key s = (Ok None, s)"
    using f none by (simp add: find_obj_def zoom_def getOr_def fetched_def job_at_def job_frame_def go_simps)
  have listens: "keeps (job_at arj_of) (andThen ask (\<lambda>s. if map_option Listening (registry s (keyOf ar)) = Some False
      then andThen (onWire (keyOf ar) Listen) (\<lambda>_. ret ()) else ret ()) :: (('a, 'b, 'c) operator, unit) go)"
    by (intro keeps_andThen keeps_if onWire_job keeps_basic)
  obtain taken s1 where t: "onWire (keyOf ar) takeJobRequest s = (Ok taken, s1)" and
    k: "(if taken then andThen (lift_res (ToActionsRunnerJob (Some ar) (scheme cfg))) (\<lambda>des.
             andThen (ignoreExists (onCluster (objCreate (cArj cl) des))) (\<lambda>_.
             onProm (SetGitHubActionsJobAlive (cProm cl) (RepoName (Repository (ArSpec ar))) (MetaName (ArjMeta des)))))
           else andThen ask (\<lambda>s. if map_option Listening (registry s (keyOf ar)) = Some False
             then andThen (onWire (keyOf ar) Listen) (\<lambda>_. ret ()) else ret ())) s1 = (Ok (), s')"
    using run fo by (auto simp: reconcileJobOf_def andThen_def split: prod.splits res.splits)
  have taken using k ch keepsD [OF onWire_job t, of arj_of] keepsD [OF listens] none by (auto split: if_splits)
  with k obtain des s2 where des: "ToActionsRunnerJob (Some ar) (scheme cfg) = Ok des"
    "onProm (SetGitHubActionsJobAlive (cProm cl) (RepoName (Repository (ArSpec ar))) (MetaName (ArjMeta des))) s2 = (Ok (), s')"
    by (auto simp: andThen_Ok_iff lift_res_def)
  obtain y t' where "SetGitHubActionsJobAlive (cProm cl) (RepoName (Repository (ArSpec ar))) (MetaName (ArjMeta des)) (kworld s2) = Some y"
      "t' \<le> now y" "job_series val (RepoName (Repository (ArSpec ar))) (MetaName (ArjMeta des)) y =
        (Some 1, Some t', snd (snd (job_series val (RepoName (Repository (ArSpec ar))) (MetaName (ArjMeta des)) (kworld s2))))"
    using job_alive_series [OF p] by blast
  with onProm_result [OF this(1) des(2)] des(1) show ?thesis by (auto simp: job_series_def)
qed

lemma deleted_job_reported:
  assumes f: "job_frame cl key arj_of" and p: "prom_law (cProm cl) val now" and job: "job_at arj_of s = Some arj"
    and run: "reconcileJobOf cfg cl key ar s = (Ok (), s')" and ch: "job_at arj_of s' \<noteq> Some arj"
  shows "\<exists>t. t \<le> now (kworld s') \<and>
     val (kworld s') (githubActionsJobAliveGauge, [RepoName (Repository (ArSpec ar)), MetaName (ArjMeta arj)]) = Some 0 \<and>
     val (kworld s') (githubActionsJobFinishedTimestampGauge, [RepoName (Repository (ArSpec ar)), MetaName (ArjMeta arj)]) = Some t"
proof -
  have "find_obj (cArj cl) key s = (Ok (Some arj), s)"
    using f job by (simp add: find_obj_def zoom_def getOr_def fetched_def job_at_def job_frame_def go_simps)
  then obtain s2 where d:
    "onProm (SetGitHubActionsJobDone (cProm cl) (RepoName (Repository (ArSpec ar))) (MetaName (ArjMeta arj))) s2 = (Ok (), s')"
    using run job ch by (auto simp: reconcileJobOf_def andThen_def ret_def split: if_splits prod.splits res.splits)
  obtain y t' where "SetGitHubActionsJobDone (cProm cl) (RepoName (Repository (ArSpec ar))) (MetaName (ArjMeta arj)) (kworld s2) = Some y"
      "t' \<le> now y" "job_series val (RepoName (Repository (ArSpec ar))) (MetaName (ArjMeta arj)) y =
        (Some 0, fst (snd (job_series val (RepoName (Repository (ArSpec ar))) (MetaName (ArjMeta arj)) (kworld s2))), Some t')"
    using job_done_series [OF p] by blast
  with onProm_result [OF this(1) d] show ?thesis by (auto simp: job_series_def)
qed

text \<open>
  Claim C40. The gauges follow the job: with a Prometheus client that keeps what it is told, a reconciliation that
  succeeds and made the job of its runner leaves the job's alive gauge at 1 and its start stamped no later than now; one that
  succeeds and deleted it leaves that gauge at 0 and the end stamped. The series is labelled with the name of the
  repository and of the job.
\<close>

theorem job_gauges_follow_the_job:
  assumes "job_frame cl key arj_of" and "prom_law (cProm cl) val now"
    and "ReconcileRunner cfg cl key s = (Ok (), s')" and "job_at arj_of s' \<noteq> job_at arj_of s"
  shows "\<exists>ar name t. fst (objGet (cAr cl) key (kworld s)) = Inr ar \<and> t \<le> now (kworld s') \<and>
     (case job_at arj_of s of
        None \<Rightarrow> map_res (\<lambda>des. MetaName (ArjMeta des)) (ToActionsRunnerJob (Some ar) (scheme cfg)) = Ok name \<and>
          val (kworld s') (githubActionsJobAliveGauge, [RepoName (Repository (ArSpec ar)), name]) = Some 1 \<and>
          val (kworld s') (githubActionsJobStartedTimestampGauge, [RepoName (Repository (ArSpec ar)), name]) = Some t
      | Some arj \<Rightarrow> name = MetaName (ArjMeta arj) \<and>
          val (kworld s') (githubActionsJobAliveGauge, [RepoName (Repository (ArSpec ar)), name]) = Some 0 \<and>
          val (kworld s') (githubActionsJobFinishedTimestampGauge, [RepoName (Repository (ArSpec ar)), name]) = Some t)"
proof (rule ReconcileRunner_changes [OF assms(1,3,4)])
  fix ar sa s2
  assume a: "find_obj (cAr cl) key s = (Ok (Some ar), sa)" and j: "job_at arj_of s2 = job_at arj_of s"
    and k: "reconcileJobOf cfg cl key ar s2 = (Ok (), s')"
  have g: "fst (objGet (cAr cl) key (kworld s)) = Inr ar"
    using a by (auto simp: find_obj_def zoom_def getOr_def go_simps split: prod.splits sum.splits if_splits)
  show ?thesis
  proof (cases "job_at arj_of s")
    case None
    with created_job_reported [OF assms(1,2) _ k] j assms(4) g show ?thesis by fastforce
  next
    case (Some arj)
    with deleted_job_reported [OF assms(1,2) _ k, of arj] j assms(4) g show ?thesis by fastforce
  qed
qed

theorem job_gauges_follow_the_job_witness:
  "\<exists>s' name. ReconcileRunner demo_config demo_cluster demo_key_of_runner (demo_op (Some demo_done)) = (Ok (), s') \<and>
     job_at fst s' = None \<and> snd (kworld s') (githubActionsJobAliveGauge, [RepoName (Repository (ArSpec (demo_runner []))), name]) = Some 0"
proof -
  let ?s = "demo_op (Some demo_done)"
  obtain s' where s': "ReconcileRunner demo_config demo_cluster demo_key_of_runner ?s = (Ok (), s')" "job_at fst s' = None"
    by (simp add: demo_reconcile_done job_at_def)
  have "job_at fst s' \<noteq> job_at fst ?s" using s'(2) by (simp add: job_at_def demo_op_def)
  from job_gauges_follow_the_job [OF demo_cluster_frame demo_cluster_series s'(1) this] s' show ?thesis
    by (auto simp: demo_op_def job_at_def demo_cluster_def still_def fetched_def)
qed

lemma WireFor_others:
  fixes s :: "('w, 'f, 'c) operator"
  assumes "WireFor cfg (Some ar) df s = (r, s1)" and "k \<noteq> keyOf ar"
  shows "registry s1 k = registry s k"
proof -
  let ?R = "\<lambda>(s :: ('w, 'f, 'c) operator) (t :: ('w, 'f, 'c) operator). registry t k = registry s k"
  have R: "reflp ?R" "transp ?R" by (auto simp: reflp_def transp_def)
  note c = stays_andThen [OF R(2)] stays_basic [OF R(1)] stays_attempt [OF R(2)]
  have "stays ?R (onWire (keyOf ar) (CollDestroy (fac cfg)))"
    by (rule staysI) (rule onWire_others [OF prod.collapse [symmetric] assms(2)])
  then have "stays ?R (GetWire cfg (Some ar))"
    unfolding GetWire_def logged_def res_simps andThen_lift_Ok by (intro c) (auto intro!: c split: option.splits)
  moreover have "stays ?R (MakeWire cfg (Some ar) df)"
    using assms(2) by (auto intro!: staysI simp: MakeWire_def go_simps split: prod.splits res.splits)
  ultimately have "stays ?R (WireFor cfg (Some ar) df)" unfolding WireFor_def by (intro c) (auto intro!: c)
  then have "registry (snd (WireFor cfg (Some ar) df s)) k = registry s k" unfolding stays_def by (rule spec)
  then show ?thesis using assms(1) by simp
qed

definition unrefreshed :: "NamespacedName \<Rightarrow> ('w, 'f, 'c) operator \<Rightarrow> ('w, 'f, 'c) operator \<Rightarrow> bool" where
  "unrefreshed key s s' \<longleftrightarrow> (\<forall>w. registry s key = Some w \<and> Valid w \<longrightarrow>
     (\<exists>w'. registry s' key = Some w' \<and> Valid w' \<and> wRunner w' = wRunner w))"

lemma reconcileIdentity_unrefreshed:
  "stays (unrefreshed key :: ('w, 'f, 'c) operator \<Rightarrow> _) (reconcileIdentity cfg cl key' ar)"
proof (rule reconcileIdentity_stays)
  show "reflp (unrefreshed key :: ('w, 'f, 'c) operator \<Rightarrow> _)" "transp (unrefreshed key :: ('w, 'f, 'c) operator \<Rightarrow> _)"
    by (auto simp: unrefreshed_def reflp_def transp_def)
  show "stays (unrefreshed key :: ('w, 'f, 'c) operator \<Rightarrow> _) (WireFor cfg (Some ar) None)"
  proof (rule staysI)
    fix s :: "('w, 'f, 'c) operator"
    obtain r s1 where w: "WireFor cfg (Some ar) None s = (r, s1)" by fastforce
    show "unrefreshed key s (snd (WireFor cfg (Some ar) None s))"
    proof (cases "keyOf ar = key \<and> (\<exists>w. registry s key = Some w \<and> Valid w)")
      case True
      then have "s1 = s" using w by (auto simp: WireFor_def GetWire_def go_simps)
      then show ?thesis using w by (auto simp: unrefreshed_def)
    next
      case False
      have "k \<noteq> keyOf ar \<Longrightarrow> registry s1 k = registry s k" for k by (rule WireFor_others [OF w])
      then show ?thesis using w False by (auto simp: unrefreshed_def)
    qed
  qed
qed (auto intro!: staysI simp: unrefreshed_def onWire_def Valid_def takeJobRequest_def Listen_def listenOpen_def listenMark_def go_simps
    split: option.splits nat.splits)

text \<open>
  Claim C37. A registered valid wire is never refreshed: whatever runner a reconciliation reads, the wire it leaves
  registered under the key still carries the runner, and so the policy, it was made for. A changed policy
  takes effect only after the wire has become invalid or the operator was restarted.
\<close>

theorem valid_wire_keeps_its_policy:
  assumes "registry s key = Some w" and "Valid w"
    and "ReconcileRunner cfg cl key s = (r, s')" and "registry s' key = Some w'"
  shows "wRunner w' = wRunner w \<and> Valid w'"
proof -
  have run: "andThen (find_obj (cAr cl) key) (\<lambda>far. case far of None \<Rightarrow> TryDestroy cfg key
     | Some ar \<Rightarrow> if IsBeingDeleted (Some (ArMeta ar)) then ret () else reconcileIdentity cfg cl key ar) s = (r, s') \<or> s' = s"
    using assms(3) by (auto simp: ReconcileRunner_def andThen_def [of ask] ask_def ret_def split: if_splits)
  obtain x s1 where f: "find_obj (cAr cl) key s = (x, s1)" by fastforce
  have s1: "registry s1 = registry s" by (rule keepsD [OF keeps_find_registry f])
  have "unrefreshed key s1 s'" if "x = Ok (Some ar)" "reconcileIdentity cfg cl key ar s1 = (r, s')" for ar
    by (rule staysD [OF reconcileIdentity_unrefreshed that(2)])
  moreover have "registry s' key = None" if "TryDestroy cfg key s1 = (r, s')"
    using that assms(1) s1 by (auto simp: TryDestroy_def)
  ultimately show ?thesis
    using run f assms s1
    by (auto simp: andThen_def ret_def unrefreshed_def split: res.splits option.splits if_splits)
qed

theorem valid_wire_keeps_its_policy_witness:
  "\<exists>s'. snd (ReconcileRunner demo_config demo_cluster demo_key_of_runner
      ((demo_op None)\<lparr>registry := [demo_key_of_runner \<mapsto> demo_wire []]\<rparr>)) = s' \<and>
     Policy (ArSpec (wRunner (the (registry s' demo_key_of_runner)))) = \<lparr>Must = Some [''.ref''], MustNot = None\<rparr> \<and>
     Policy (ArSpec (demo_runner [])) = \<lparr>Must = None, MustNot = None\<rparr>"
proof -
  let ?s = "(demo_op None)\<lparr>registry := [demo_key_of_runner \<mapsto> demo_wire []]\<rparr>"
  have "WireFor demo_config (Some (demo_runner [])) None ?s = (Ok (), ?s)"
    by (simp add: WireFor_def GetWire_def go_simps Valid_def demo_wire_def)
  then have "ReconcileRunner demo_config demo_cluster demo_key_of_runner ?s =
      reconcileJobOf demo_config demo_cluster demo_key_of_runner (demo_runner []) ?s"
    by (rule demo_reconcile [rotated, where df = zeroFiles and w = "demo_wire []"]) (simp_all add: demo_op_def, simp add: demo_wire_def)
  moreover obtain s' w' where "reconcileJobOf demo_config demo_cluster demo_key_of_runner (demo_runner []) ?s = (Ok (), s')"
      "registry s' demo_key_of_runner = Some w'"
    by (simp add: reconcileJobOf_def go_simps onWire_def takeJobRequest_def Listening_def Listen_def listenOpen_def listenMark_def
        demo_op_def demo_wire_def)
  ultimately show ?thesis
    using valid_wire_keeps_its_policy [of ?s demo_key_of_runner "demo_wire []" demo_config demo_cluster "Ok ()" s' w']
    by (simp add: Valid_def demo_wire_def)
qed

end
