(* ===== verification/Azure_Devops.thy ===== *)
theory Azure_Devops
  imports Wire_Util
begin

text \<open>
  The Azure DevOps facade (\<^verbatim>\<open>operator/internal/controller/actionsrunner/facades/ado.go\<close>) with the client
  assertion (\<^verbatim>\<open>util/jwt.go\<close>) and the decryption of messages (\<^verbatim>\<open>util/pkcs7.go\<close>). The Azure DevOps, JOSE, PKCS7
  and crypto libraries and the service behind them are parameters over a world. A pointer the code dereferences
  without a check is a panic when it is nil.
\<close>

section \<open>Values\<close>

record Connection =
  AuthorizationString :: string
  BaseUrl :: string

record TaskAgentAuthorization =
  AaClientId :: "string option"
  AaUrl :: "string option"
  AaExponent :: "bytes option"
  AaModulus :: "bytes option"

text \<open>The fields of a reference to an agent that a session copies and nothing else reads.\<close>

record agent_info =
  InfLinks :: "string option"
  InfAccessPoint :: "string option"
  InfEnabled :: "bool option"
  InfOsDescription :: "string option"
  InfProvisioningState :: "string option"
  InfStatus :: "string option"

record TaskAgent =
  TgId :: "int option"
  TgName :: "string option"
  TgVersion :: "string option"
  TgDisableUpdate :: "bool option"
  TgAuthorization :: "TaskAgentAuthorization option"
  TgLabels :: "string list option"
  TgProperties :: json
  TgInfo :: agent_info

definition noInfo :: agent_info where
  "noInfo = \<lparr>InfLinks = None, InfAccessPoint = None, InfEnabled = None, InfOsDescription = None, InfProvisioningState = None,
     InfStatus = None\<rparr>"

record SessionKey =
  SkEncrypted :: "bool option"
  SkValue :: "bytes option"

record TaskAgentSession =
  TsAgent :: "(agent_info \<times> int option \<times> string option \<times> string option) option"
  TsOwnerName :: "string option"
  TsSessionId :: "string option"
  TsEncryptionKey :: "SessionKey option"
  TsUseFips :: "bool option"

record assertion_claims =
  AcIssuer :: string
  AcSubject :: string
  AcAudience :: "string list"
  AcExpiry :: int
  AcNotBefore :: int
  AcIssuedAt :: int
  AcId :: string

record eci =
  EciContentType :: string
  EciAlgorithm :: string
  EciParameters :: bytes
  EciContent :: bytes

record ('k, 't, 'x) ado_api =
  clock :: "'x \<Rightarrow> int"
  newUuid :: "'x \<Rightarrow> string \<times> 'x"
  signAssertion :: "rsa_key option \<Rightarrow> assertion_claims \<Rightarrow> goerr + string"
  postForm :: "string \<Rightarrow> (string \<times> string) list \<Rightarrow> 'x \<Rightarrow> (goerr + oauth_response) \<times> 'x"
  eciDecrypt :: "eci \<Rightarrow> bytes \<Rightarrow> goerr + bytes"
  decryptOAEP :: "bool \<Rightarrow> rsa_key option \<Rightarrow> bytes \<Rightarrow> goerr + bytes"
  base64Decode :: "string \<Rightarrow> goerr + bytes"
  utf8Decode :: "bytes \<Rightarrow> goerr + string"
  newTaskAgentClient :: "Connection \<Rightarrow> 'x \<Rightarrow> (goerr + 'k) \<times> 'x"
  adoGetAgent :: "'k \<Rightarrow> int \<Rightarrow> int option \<Rightarrow> 'x \<Rightarrow> (goerr + TaskAgent) \<times> 'x"
  adoGetAgents :: "'k \<Rightarrow> int \<Rightarrow> string option \<Rightarrow> 'x \<Rightarrow> TaskAgent list option \<times> 'x"
  adoAddAgent :: "'k \<Rightarrow> int \<Rightarrow> TaskAgent \<Rightarrow> 'x \<Rightarrow> (goerr + TaskAgent) \<times> 'x"
  adoReplaceAgent :: "'k \<Rightarrow> int \<Rightarrow> int option \<Rightarrow> TaskAgent \<Rightarrow> 'x \<Rightarrow> (goerr + TaskAgent) \<times> 'x"
  adoDeleteAgent :: "'k \<Rightarrow> int \<Rightarrow> int option \<Rightarrow> 'x \<Rightarrow> (goerr + unit) \<times> 'x"
  adoCreateSession :: "'k \<Rightarrow> int \<Rightarrow> TaskAgentSession \<Rightarrow> 'x \<Rightarrow> (TaskAgentSession option \<times> goerr option) \<times> 'x"
  adoDeleteSession :: "'k \<Rightarrow> int \<Rightarrow> string option \<Rightarrow> 'x \<Rightarrow> (goerr + unit) \<times> 'x"
  adoGetMessage :: "'k \<Rightarrow> int \<Rightarrow> string option \<Rightarrow> 64 word option \<Rightarrow> 'x \<Rightarrow> (goerr + TaskAgentMessage option) \<times> 'x"
  adoDeleteMessage :: "'k \<Rightarrow> int \<Rightarrow> 64 word \<Rightarrow> string option \<Rightarrow> 'x \<Rightarrow> (goerr + unit) \<times> 'x"
  adoUpdateRequest :: "'k \<Rightarrow> int \<Rightarrow> 64 word option \<Rightarrow> string option \<Rightarrow> 'x \<Rightarrow> (goerr + unit) \<times> 'x"
  newTaskClient :: "Connection \<Rightarrow> 't"
  adoUpdateRecords :: "'t \<Rightarrow> TimelineRecord list \<Rightarrow> TaskPlan \<Rightarrow> string option \<Rightarrow> 'x \<Rightarrow> (TimelineRecord list option \<times> goerr option) \<times> 'x"
  adoRaisePlanEvent :: "'t \<Rightarrow> JobEvent \<Rightarrow> TaskPlan \<Rightarrow> 'x \<Rightarrow> (goerr + unit) \<times> 'x"

record ('k, 't, 'x) ado =
  RSAPrivateKey :: "rsa_key option"
  ConnectionOf :: "Connection option"
  TaskAgentClient :: "'k option"
  TaskAgentOf :: "TaskAgent option"
  BridgeConnection :: "Connection option"
  TaskAgentBridgeClient :: "'k option"
  TaskAgentSessionOf :: "TaskAgentSession option"
  PlanOf :: "TaskPlan option"
  TimelineOf :: "TimelineReference option"
  JobConnection :: "Connection option"
  TaskClient :: "'t option"
  cloud :: 'x

text \<open>What is fixed when the operator starts.\<close>

record ado_env =
  agentVersion :: string
  goos :: string
  goarch :: string

definition ownerName :: string where "ownerName = ''Kube Actions''"

definition poolId :: int where "poolId = 1"

definition agentLabelsBase :: "ado_env \<Rightarrow> string list" where
  "agentLabelsBase env = [''self-hosted'', goos env, goarch env]"

definition onCloud :: "('x \<Rightarrow> (goerr + 'a) \<times> 'x) \<Rightarrow> (('k, 't, 'x) ado, 'a) go" where
  "onCloud f = zoom cloud (\<lambda>x s. s\<lparr>cloud := x\<rparr>) (external f)"

text \<open>\<^verbatim>\<open>if p == nil { return errors.New(..) }\<close> and \<^verbatim>\<open>*p\<close>.\<close>

definition needs :: "string \<Rightarrow> ('s \<Rightarrow> 'a option) \<Rightarrow> ('s, 'a) go" where
  "needs name f = andThen ask (\<lambda>s. lift_res (nonNil name (f s)))"

definition deref :: "'a option \<Rightarrow> ('s, 'a) go" where
  "deref v = (case v of None \<Rightarrow> panic ''nil pointer dereference'' | Some x \<Rightarrow> ret x)"

section \<open>Assertions and encrypted content\<close>

definition minuteNs :: int where "minuteNs = 60 * 10 ^ 9"

definition ClientAssertion :: "('k, 't, 'x) ado_api \<Rightarrow> string \<Rightarrow> string \<Rightarrow> rsa_key option \<Rightarrow> (('k, 't, 'x) ado, string) go" where
  "ClientAssertion api clientId tokenEndpoint key =
     andThen ask (\<lambda>s. let now = clock api (cloud s) in
     andThen (onCloud (\<lambda>x. case newUuid api x of (u, x') \<Rightarrow> (Inr u, x'))) (\<lambda>jti.
     lift_res (fromSum (signAssertion api key
       \<lparr>AcIssuer = clientId, AcSubject = clientId, AcAudience = [tokenEndpoint], AcExpiry = now + (5 - 1) * minuteNs,
        AcNotBefore = now - 1 * minuteNs, AcIssuedAt = now, AcId = jti\<rparr>))))"

definition DecryptPKCS7 :: "('k, 't, 'x) ado_api \<Rightarrow> bytes \<Rightarrow> bytes \<Rightarrow> bytes \<Rightarrow> bytes res" where
  "DecryptPKCS7 api data iv key =
     fromSum (eciDecrypt api \<lparr>EciContentType = ''data'', EciAlgorithm = ''AES128CBC'', EciParameters = iv, EciContent = data\<rparr> key)"

section \<open>Agents\<close>

definition initAzureDevOpsConnection :: "string \<Rightarrow> string \<Rightarrow> (('k, 't, 'x) ado, unit) go" where
  "initAzureDevOpsConnection token url =
     (if token = [] then fail (ErrorString (''token == '' @ quoted []))
      else if url = [] then fail (ErrorString (''url == '' @ quoted []))
      else upd (\<lambda>s. s\<lparr>ConnectionOf := Some \<lparr>AuthorizationString = ''Bearer '' @ token, BaseUrl = url\<rparr>\<rparr>))"

definition initAzureDevOpsTaskAgentClient :: "('k, 't, 'x) ado_api \<Rightarrow> (('k, 't, 'x) ado, unit) go" where
  "initAzureDevOpsTaskAgentClient api =
     andThen (needs ''.Connection'' ConnectionOf) (\<lambda>c.
     andThen (onCloud (newTaskAgentClient api c)) (\<lambda>client.
     upd (\<lambda>s. s\<lparr>TaskAgentClient := Some client\<rparr>)))"

definition GetAgent :: "('k, 't, 'x) ado_api \<Rightarrow> (('k, 't, 'x) ado, TaskAgent) go" where
  "GetAgent api =
     andThen (needs ''.TaskAgentClient'' TaskAgentClient) (\<lambda>client.
     andThen ask (\<lambda>s.
     andThen (deref (TaskAgentOf s)) (\<lambda>ta.
     attempt (onCloud (adoGetAgent api client poolId (TgId ta))) (\<lambda>r. case r of
         Inr agent \<Rightarrow> ret agent
       | Inl err \<Rightarrow>
           andThen (onCloud (\<lambda>x. case adoGetAgents api client poolId (TgName ta) x of (as, x') \<Rightarrow> (Inr as, x'))) (\<lambda>agents.
           case agents of Some [agent] \<Rightarrow> ret agent | _ \<Rightarrow> fail err)))))"

definition AddAgent :: "('k, 't, 'x) ado_api \<Rightarrow> (('k, 't, 'x) ado, TaskAgent) go" where
  "AddAgent api =
     andThen (needs ''.TaskAgentClient'' TaskAgentClient) (\<lambda>client.
     andThen ask (\<lambda>s.
     andThen (deref (TaskAgentOf s)) (\<lambda>ta. onCloud (adoAddAgent api client poolId ta))))"

definition ReplaceAgent :: "('k, 't, 'x) ado_api \<Rightarrow> (('k, 't, 'x) ado, TaskAgent) go" where
  "ReplaceAgent api =
     andThen (needs ''.TaskAgentClient'' TaskAgentClient) (\<lambda>client.
     andThen ask (\<lambda>s.
     andThen (deref (TaskAgentOf s)) (\<lambda>ta. onCloud (adoReplaceAgent api client poolId (TgId ta) ta))))"

definition DeleteAgentOp :: "('k, 't, 'x) ado_api \<Rightarrow> (('k, 't, 'x) ado, unit) go" where
  "DeleteAgentOp api =
     andThen (needs ''.TaskAgentClient'' TaskAgentClient) (\<lambda>client.
     andThen ask (\<lambda>s.
     andThen (deref (TaskAgentOf s)) (\<lambda>ta. onCloud (adoDeleteAgent api client poolId (TgId ta)))))"

text \<open>Files and facade together: the files are reached through a pointer.\<close>

definition onAdo :: "('a, 'b) go \<Rightarrow> (Files option \<times> 'a, 'b) go" where
  "onAdo = zoom snd (\<lambda>a s. (fst s, a))"

definition dotFilesOf :: "(Files option \<times> 'a, Files) go" where
  "dotFilesOf = andThen ask (\<lambda>s. deref (fst s))"

definition setFiles :: "(Files \<Rightarrow> Files) \<Rightarrow> (Files option \<times> 'a, unit) go" where
  "setFiles f = upd (\<lambda>s. (map_option f (fst s), snd s))"

definition initRSAPrivateKey :: "(Files option \<times> ('k, 't, 'x) ado, unit) go" where
  "initRSAPrivateKey =
     andThen dotFilesOf (\<lambda>df.
     andThen (lift_res (ToRSAPrivateKey (FRSAParameters df))) (\<lambda>key.
     onAdo (upd (\<lambda>s. s\<lparr>RSAPrivateKey := Some key\<rparr>))))"

definition desiredAgent :: "ado_env \<Rightarrow> Files \<Rightarrow> string list \<Rightarrow> TaskAgent" where
  "desiredAgent env df labels = \<lparr>TgId = Some (AgentId (FRunner df)), TgName = Some (AgentName (FRunner df)),
     TgVersion = Some (agentVersion env), TgDisableUpdate = Some True,
     TgAuthorization = Some \<lparr>AaClientId = None, AaUrl = None, AaExponent = RsaExponent (FRSAParameters df),
       AaModulus = RsaModulus (FRSAParameters df)\<rparr>,
     TgLabels = Some labels, TgProperties = JNull, TgInfo = noInfo\<rparr>"

definition setAgentId :: "int option \<Rightarrow> ('k, 't, 'x) ado \<Rightarrow> ('k, 't, 'x) ado" where
  "setAgentId i s = s\<lparr>TaskAgentOf := map_option (\<lambda>a. a\<lparr>TgId := i\<rparr>) (TaskAgentOf s)\<rparr>"

text \<open>Register: replace the agent that is there, by id or by its unique name, or add one.\<close>

definition registerAgent :: "('k, 't, 'x) ado_api \<Rightarrow> (('k, 't, 'x) ado, TaskAgent) go" where
  "registerAgent api =
     attempt (GetAgent api) (\<lambda>found.
     andThen (upd (setAgentId (case found of Inr agent \<Rightarrow> TgId agent | Inl _ \<Rightarrow> None))) (\<lambda>_.
     andThen ask (\<lambda>s.
     andThen (deref (TaskAgentOf s)) (\<lambda>ta.
     attempt (if TgId ta = None then AddAgent api else ReplaceAgent api) (\<lambda>r. case r of
         Inr agent \<Rightarrow> ret agent
       | Inl err \<Rightarrow> andThen (upd (\<lambda>s. s\<lparr>TaskAgentOf := None\<rparr>)) (\<lambda>_. fail err))))))"

text \<open>What is kept of the registered agent, assignment by assignment.\<close>

definition rememberAgent :: "TaskAgent \<Rightarrow> (Files option \<times> ('k, 't, 'x) ado, unit) go" where
  "rememberAgent agent =
     andThen (deref (TgId agent)) (\<lambda>i.
     andThen (setFiles (\<lambda>df. df\<lparr>FRunner := (FRunner df)\<lparr>AgentId := i\<rparr>\<rparr>)) (\<lambda>_.
     andThen (deref (TgAuthorization agent)) (\<lambda>auth.
     andThen (deref (AaClientId auth)) (\<lambda>cid.
     andThen (setFiles (\<lambda>df. df\<lparr>FCredentials := (FCredentials df)\<lparr>CredData := (CredData (FCredentials df))\<lparr>ClientId := cid\<rparr>\<rparr>\<rparr>)) (\<lambda>_.
     andThen (deref (AaUrl auth)) (\<lambda>url.
     andThen (setFiles (\<lambda>df. df\<lparr>FCredentials := (FCredentials df)\<lparr>CredData := (CredData (FCredentials df))
       \<lparr>AuthorizationURL := url, OAuthEndpointURL := url,
        RequireFipsCryptography := (if GetPropertyValue (TgProperties agent) ''RequireFipsCryptography'' = Some (JBool True)
          then ''True'' else ''False'')\<rparr>\<rparr>\<rparr>)) (\<lambda>_.
     onAdo (upd (\<lambda>s. s\<lparr>TaskAgentOf := Some agent\<rparr>)))))))))"

definition initAzureDevOpsTaskAgent ::
    "('k, 't, 'x) ado_api \<Rightarrow> ado_env \<Rightarrow> string list \<Rightarrow> (Files option \<times> ('k, 't, 'x) ado, unit) go" where
  "initAzureDevOpsTaskAgent api env labels =
     andThen dotFilesOf (\<lambda>df.
     andThen (onAdo (upd (\<lambda>s. s\<lparr>TaskAgentOf := Some (desiredAgent env df labels)\<rparr>))) (\<lambda>_.
     andThen ask (\<lambda>s.
     if TaskAgentClient (snd s) = None then ret ()
     else andThen (onAdo (registerAgent api)) rememberAgent)))"

definition initAzureDevOpsBridgeConnection :: "('k, 't, 'x) ado_api \<Rightarrow> (Files option \<times> ('k, 't, 'x) ado, unit) go" where
  "initAzureDevOpsBridgeConnection api =
     andThen dotFilesOf (\<lambda>df. let d = CredData (FCredentials df) in
     andThen ask (\<lambda>s.
     andThen (onAdo (ClientAssertion api (ClientId d) (AuthorizationURL d) (RSAPrivateKey (snd s)))) (\<lambda>assertion.
     andThen (onAdo (zoom cloud (\<lambda>x s. s\<lparr>cloud := x\<rparr>) (AccessToken (postForm api) (OAuthEndpointURL d) assertion))) (\<lambda>token.
     onAdo (upd (\<lambda>s. s\<lparr>BridgeConnection := Some \<lparr>AuthorizationString = ''Bearer '' @ token, BaseUrl = ServerUrl (FRunner df)\<rparr>\<rparr>))))))"

definition initAzureDevOpsBridgeTaskAgentClient :: "('k, 't, 'x) ado_api \<Rightarrow> (('k, 't, 'x) ado, unit) go" where
  "initAzureDevOpsBridgeTaskAgentClient api =
     andThen (needs ''.BridgeConnection'' BridgeConnection) (\<lambda>c.
     andThen (onCloud (newTaskAgentClient api c)) (\<lambda>client.
     upd (\<lambda>s. s\<lparr>TaskAgentBridgeClient := Some client\<rparr>)))"

definition adoInitForCRUD ::
    "('k, 't, 'x) ado_api \<Rightarrow> ado_env \<Rightarrow> string slice \<Rightarrow> string \<Rightarrow> string \<Rightarrow> (Files option \<times> ('k, 't, 'x) ado, unit) go" where
  "adoInitForCRUD api env labels token url =
     andThen initRSAPrivateKey (\<lambda>_.
     andThen (onAdo (initAzureDevOpsConnection token url)) (\<lambda>_.
     andThen (onAdo (initAzureDevOpsTaskAgentClient api)) (\<lambda>_.
     initAzureDevOpsTaskAgent api env (agentLabelsBase env @ elems labels))))"

definition adoInitForRun ::
    "('k, 't, 'x) ado_api \<Rightarrow> ado_env \<Rightarrow> string slice \<Rightarrow> (Files option \<times> ('k, 't, 'x) ado, unit) go" where
  "adoInitForRun api env labels =
     andThen initRSAPrivateKey (\<lambda>_.
     andThen (initAzureDevOpsTaskAgent api env (agentLabelsBase env @ elems labels)) (\<lambda>_.
     andThen (initAzureDevOpsBridgeConnection api) (\<lambda>_.
     onAdo (initAzureDevOpsBridgeTaskAgentClient api))))"

definition adoRefreshForRun :: "('k, 't, 'x) ado_api \<Rightarrow> (Files option \<times> ('k, 't, 'x) ado, unit) go" where
  "adoRefreshForRun api =
     andThen (initAzureDevOpsBridgeConnection api) (\<lambda>_. onAdo (initAzureDevOpsBridgeTaskAgentClient api))"

section \<open>Sessions and messages\<close>

text \<open>A reply whose value and error may both be there.\<close>

definition onCloud2 :: "('x \<Rightarrow> ('a option \<times> goerr option) \<times> 'x) \<Rightarrow> (('k, 't, 'x) ado, 'a option \<times> goerr option) go" where
  "onCloud2 f = onCloud (\<lambda>x. case f x of (r, x') \<Rightarrow> (Inr r, x'))"

definition zeroUuid :: string where "zeroUuid = ''00000000-0000-0000-0000-000000000000''"

definition CreateAgentSession :: "('k, 't, 'x) ado_api \<Rightarrow> (('k, 't, 'x) ado, TaskAgentSession option \<times> goerr option) go" where
  "CreateAgentSession api =
     andThen ask (\<lambda>s. case TaskAgentOf s of
         None \<Rightarrow> ret (None, Some (ErrorString ''.TaskAgent == nil''))
       | Some ta \<Rightarrow> (case TaskAgentBridgeClient s of
           None \<Rightarrow> ret (None, Some (ErrorString ''.TaskAgentBridgeClient == nil''))
         | Some client \<Rightarrow> onCloud2 (adoCreateSession api client poolId
             \<lparr>TsAgent = Some (TgInfo ta, TgId ta, TgName ta, TgVersion ta), TsOwnerName = Some ownerName,
              TsSessionId = Some zeroUuid, TsEncryptionKey = None, TsUseFips = None\<rparr>)))"

text \<open>The decoding error that is passed over: the status of the agent as a number.\<close>

definition numericStatus :: "goerr \<Rightarrow> bool" where
  "numericStatus e = (e = UnmarshalTypeError ''TaskAgentReference'' ''agent.status'' ''number'')"

definition initSession :: "('k, 't, 'x) ado_api \<Rightarrow> (('k, 't, 'x) ado, unit) go" where
  "initSession api =
     andThen (CreateAgentSession api) (\<lambda>(found, err).
     if (case err of None \<Rightarrow> False | Some e \<Rightarrow> \<not> numericStatus e) then fail (the err) else
     andThen (deref found) (\<lambda>session.
     andThen (deref (TsEncryptionKey session)) (\<lambda>key.
     andThen (deref (SkEncrypted key)) (\<lambda>encrypted.
     if \<not> encrypted then upd (\<lambda>s. s\<lparr>TaskAgentSessionOf := Some session\<rparr>) else
     andThen (deref (TsUseFips session)) (\<lambda>fips.
     andThen (deref (SkValue key)) (\<lambda>cipher.
     andThen ask (\<lambda>s.
     andThen (lift_res (fromSum (decryptOAEP api fips (RSAPrivateKey s) cipher))) (\<lambda>k.
     upd (\<lambda>s. s\<lparr>TaskAgentSessionOf := Some (session\<lparr>TsEncryptionKey := Some (key\<lparr>SkValue := Some k\<rparr>)\<rparr>)\<rparr>)))))))))"

definition DeleteAgentSession :: "('k, 't, 'x) ado_api \<Rightarrow> (('k, 't, 'x) ado, unit) go" where
  "DeleteAgentSession api =
     andThen (needs ''.TaskAgentBridgeClient'' TaskAgentBridgeClient) (\<lambda>client.
     andThen (needs ''.TaskAgentSession'' TaskAgentSessionOf) (\<lambda>session.
     onCloud (adoDeleteSession api client poolId (TsSessionId session))))"

definition deinitSession :: "('k, 't, 'x) ado_api \<Rightarrow> (('k, 't, 'x) ado, unit) go" where
  "deinitSession api =
     andThen ask (\<lambda>s. if TaskAgentSessionOf s = None then ret () else
     andThen (DeleteAgentSession api) (\<lambda>_. upd (\<lambda>s. s\<lparr>TaskAgentSessionOf := None\<rparr>)))"

definition decryptMessage :: "('k, 't, 'x) ado_api \<Rightarrow> TaskAgentSession \<Rightarrow> TaskAgentMessage \<Rightarrow> (('k, 't, 'x) ado, TaskAgentMessage option) go" where
  "decryptMessage api session message = (case TaIv message of
       None \<Rightarrow> ret (Some message)
     | Some iv \<Rightarrow>
         andThen (deref (TaBody message)) (\<lambda>b.
         andThen (lift_res (fromSum (base64Decode api b))) (\<lambda>enc.
         andThen (deref (TsEncryptionKey session)) (\<lambda>key.
         andThen (deref (SkValue key)) (\<lambda>k.
         andThen (lift_res (DecryptPKCS7 api enc iv k)) (\<lambda>dec.
         andThen (lift_res (fromSum (utf8Decode api dec))) (\<lambda>body.
         ret (Some (message\<lparr>TaBody := Some body, TaIv := None\<rparr>)))))))))"

definition adoFetchMessage :: "('k, 't, 'x) ado_api \<Rightarrow> 64 word option \<Rightarrow> (('k, 't, 'x) ado, TaskAgentMessage option) go" where
  "adoFetchMessage api lastMessageId =
     andThen (needs ''.TaskAgentBridgeClient'' TaskAgentBridgeClient) (\<lambda>client.
     andThen (needs ''.TaskAgentSession'' TaskAgentSessionOf) (\<lambda>session.
     andThen (onCloud (adoGetMessage api client poolId (TsSessionId session) lastMessageId)) (\<lambda>found. case found of
         None \<Rightarrow> ret None
       | Some message \<Rightarrow> decryptMessage api session message)))"

definition adoAckMessage :: "('k, 't, 'x) ado_api \<Rightarrow> 64 word \<Rightarrow> (('k, 't, 'x) ado, unit) go" where
  "adoAckMessage api messageId =
     andThen (needs ''.TaskAgentBridgeClient'' TaskAgentBridgeClient) (\<lambda>client.
     andThen (needs ''.TaskAgentSession'' TaskAgentSessionOf) (\<lambda>session.
     onCloud (adoDeleteMessage api client poolId messageId (TsSessionId session))))"

section \<open>Reporting on a job\<close>

definition adoUpdateAgentRequest :: "('k, 't, 'x) ado_api \<Rightarrow> 64 word option option \<Rightarrow> string option \<Rightarrow> (('k, 't, 'x) ado, unit) go" where
  "adoUpdateAgentRequest api request orchestrationId =
     andThen (needs ''.TaskAgentBridgeClient'' TaskAgentBridgeClient) (\<lambda>client.
     andThen (lift_res (nonNil ''request'' request)) (\<lambda>requestId.
     onCloud (adoUpdateRequest api client poolId requestId orchestrationId)))"

definition initAzureDevOpsPlan :: "TaskPlan option \<Rightarrow> (('k, 't, 'x) ado, unit) go" where
  "initAzureDevOpsPlan plan =
     andThen (lift_res (nonNil ''plan'' plan)) (\<lambda>p.
     andThen (lift_res (nonNil ''plan.ScopeIdentifier'' (ScopeIdentifier p))) (\<lambda>_.
     andThen (lift_res (nonNil ''plan.PlanType'' (PlanType p))) (\<lambda>_.
     andThen (lift_res (nonNil ''plan.PlanId'' (PlanId p))) (\<lambda>_.
     upd (\<lambda>s. s\<lparr>PlanOf := plan\<rparr>)))))"

definition initAzureDevOpsTimeline :: "TimelineReference option \<Rightarrow> (('k, 't, 'x) ado, unit) go" where
  "initAzureDevOpsTimeline timeline =
     andThen (lift_res (nonNil ''timeline'' timeline)) (\<lambda>t.
     andThen (lift_res (nonNil ''timeline.Id'' (TimelineId t))) (\<lambda>_.
     upd (\<lambda>s. s\<lparr>TimelineOf := timeline\<rparr>)))"

definition initAzureDevOpsJobConnection :: "ServiceEndpoint list \<Rightarrow> (('k, 't, 'x) ado, unit) go" where
  "initAzureDevOpsJobConnection serviceEndpoints =
     andThen (lift_res (GetSystemVssConnectionEndpoint serviceEndpoints)) (\<lambda>se.
     andThen (lift_res (GetServiceEndpointAccessToken (Some se))) (\<lambda>accessToken.
     andThen (lift_res (GetServiceEndpointURL (Some se))) (\<lambda>url.
     upd (\<lambda>s. s\<lparr>JobConnection := Some \<lparr>AuthorizationString = ''Bearer '' @ accessToken, BaseUrl = url\<rparr>\<rparr>))))"

definition adoInitTaskClient ::
    "('k, 't, 'x) ado_api \<Rightarrow> TaskPlan option \<Rightarrow> TimelineReference option \<Rightarrow> ServiceEndpoint list \<Rightarrow> (('k, 't, 'x) ado, unit) go" where
  "adoInitTaskClient api plan timeline endpoints =
     andThen (initAzureDevOpsPlan plan) (\<lambda>_.
     andThen (initAzureDevOpsTimeline timeline) (\<lambda>_.
     andThen (initAzureDevOpsJobConnection endpoints) (\<lambda>_.
     upd (\<lambda>s. s\<lparr>TaskClient := map_option (newTaskClient api) (JobConnection s)\<rparr>))))"

definition adoUpdateRecord :: "('k, 't, 'x) ado_api \<Rightarrow> TimelineRecord list \<Rightarrow> (('k, 't, 'x) ado, TimelineRecord list \<times> goerr option) go" where
  "adoUpdateRecord api records =
     andThen ask (\<lambda>s. case PlanOf s of None \<Rightarrow> ret ([], Some (ErrorString ''.Plan == nil'')) | Some plan \<Rightarrow>
     (case TimelineOf s of None \<Rightarrow> ret ([], Some (ErrorString ''.Timeline == nil'')) | Some timeline \<Rightarrow>
     (case TaskClient s of None \<Rightarrow> ret ([], Some (ErrorString ''.TaskClient == nil'')) | Some client \<Rightarrow>
     andThen (onCloud2 (adoUpdateRecords api client records plan (TimelineId timeline))) (\<lambda>(res, err).
     ret (case res of None \<Rightarrow> [] | Some rs \<Rightarrow> rs, err)))))"

definition adoRaiseEvent :: "('k, 't, 'x) ado_api \<Rightarrow> JobEvent option \<Rightarrow> (('k, 't, 'x) ado, unit) go" where
  "adoRaiseEvent api eventData =
     andThen (needs ''.Plan'' PlanOf) (\<lambda>plan.
     andThen (needs ''.TaskClient'' TaskClient) (\<lambda>client.
     andThen (lift_res (nonNil ''eventData'' eventData)) (\<lambda>e.
     onCloud (adoRaisePlanEvent api client e plan))))"

section \<open>A pool of agents\<close>

text \<open>What the service answers for an agent it was given: an id, an authorization, and the name, labels and key as sent.\<close>

definition answers :: "TaskAgent \<Rightarrow> int \<Rightarrow> TaskAgent \<Rightarrow> bool" where
  "answers a i b \<longleftrightarrow> TgId b = Some i \<and> TgName b = TgName a \<and> TgLabels b = TgLabels a \<and>
     (\<exists>auth cid url. TgAuthorization b = Some auth \<and> AaClientId auth = Some cid \<and> AaUrl auth = Some url \<and>
        AaExponent auth = AaExponent (the (TgAuthorization a)) \<and> AaModulus auth = AaModulus (the (TgAuthorization a)))"

text \<open>
  The documented behaviour of the agents of a pool: lookup by id and by name, adding under a new id when
  the name is free, and replacing in place.
\<close>

definition agent_service :: "('k, 't, 'x) ado_api \<Rightarrow> ('x \<Rightarrow> int \<rightharpoonup> TaskAgent) \<Rightarrow> bool" where
  "agent_service api pool \<longleftrightarrow>
     (\<forall>k i x. adoGetAgent api k poolId (Some i) x =
        ((case pool x i of None \<Rightarrow> Inl (WrappedError (Some ''TaskAgentNotFoundException'')) | Some a \<Rightarrow> Inr a), x)) \<and>
     (\<forall>k n x. \<exists>bs. adoGetAgents api k poolId (Some n) x = (Some bs, x) \<and> distinct bs \<and>
        set bs = {b. \<exists>i. pool x i = Some b \<and> TgName b = Some n}) \<and>
     (\<forall>k a x. (\<forall>b\<in>ran (pool x). TgName b \<noteq> TgName a) \<longrightarrow>
        (\<exists>i b x'. adoAddAgent api k poolId a x = (Inr b, x') \<and> pool x i = None \<and> answers a i b \<and> pool x' = (pool x)(i \<mapsto> b))) \<and>
     (\<forall>k i a x. pool x i \<noteq> None \<longrightarrow>
        (\<exists>b x'. adoReplaceAgent api k poolId (Some i) a x = (Inr b, x') \<and> answers a i b \<and> pool x' = (pool x)(i \<mapsto> b)))"

definition pool_ok :: "(int \<rightharpoonup> TaskAgent) \<Rightarrow> bool" where
  "pool_ok p \<longleftrightarrow> (\<forall>i a. p i = Some a \<longrightarrow> TgId a = Some i) \<and>
     (\<forall>i j a b. p i = Some a \<longrightarrow> p j = Some b \<longrightarrow> TgName a = TgName b \<longrightarrow> i = j)"

lemma agent_serviceD:
  assumes "agent_service api pool"
  shows "adoGetAgent api k poolId (Some i) x =
      ((case pool x i of None \<Rightarrow> Inl (WrappedError (Some ''TaskAgentNotFoundException'')) | Some a \<Rightarrow> Inr a), x)"
    and "\<exists>bs. adoGetAgents api k poolId (Some n) x = (Some bs, x) \<and> distinct bs \<and>
      set bs = {b. \<exists>i. pool x i = Some b \<and> TgName b = Some n}"
    and "(\<forall>b\<in>ran (pool x). TgName b \<noteq> TgName a) \<Longrightarrow>
      \<exists>i b x'. adoAddAgent api k poolId a x = (Inr b, x') \<and> pool x i = None \<and> answers a i b \<and> pool x' = (pool x)(i \<mapsto> b)"
    and "pool x i \<noteq> None \<Longrightarrow>
      \<exists>b x'. adoReplaceAgent api k poolId (Some i) a x = (Inr b, x') \<and> answers a i b \<and> pool x' = (pool x)(i \<mapsto> b)"
  using assms unfolding agent_service_def by blast+

text \<open>The agent that is looked up is the one with the id, or the only one of the name.\<close>

lemma GetAgent_finds:
  assumes sv: "agent_service api pool" and ok: "pool_ok (pool (cloud s))"
    and c: "TaskAgentClient s = Some client" and t: "TaskAgentOf s = Some ta" "TgId ta = Some i" "TgName ta = Some n"
  obtains (found) j b where "GetAgent api s = (Ok b, s)" "pool (cloud s) j = Some b" "TgId b = Some j"
      "j = i \<or> pool (cloud s) i = None \<and> TgName b = Some n"
    | (none) e where "GetAgent api s = (Err e, s)" "pool (cloud s) i = None" "\<forall>b\<in>ran (pool (cloud s)). TgName b \<noteq> Some n"
proof (cases "pool (cloud s) i")
  case (Some b)
  have "TgId b = Some i" using ok Some by (simp add: pool_ok_def)
  moreover have "GetAgent api s = (Ok b, s)"
    using c t agent_serviceD(1) [OF sv] Some by (simp add: GetAgent_def needs_def deref_def onCloud_def go_simps)
  ultimately show ?thesis using found Some by blast
next
  case None
  obtain bs where bs: "adoGetAgents api client poolId (Some n) (cloud s) = (Some bs, cloud s)" "distinct bs"
      "set bs = {b. \<exists>i. pool (cloud s) i = Some b \<and> TgName b = Some n}"
    using agent_serviceD(2) [OF sv] by blast
  have run: "GetAgent api s = (case bs of [b] \<Rightarrow> Ok b | _ \<Rightarrow> Err (WrappedError (Some ''TaskAgentNotFoundException'')), s)"
    using c t agent_serviceD(1) [OF sv] None bs(1)
    by (simp add: GetAgent_def needs_def deref_def onCloud_def go_simps split: list.splits)
  show ?thesis
  proof (cases "\<exists>j b. pool (cloud s) j = Some b \<and> TgName b = Some n")
    case True
    then obtain j b where j: "pool (cloud s) j = Some b" "TgName b = Some n" by blast
    have mem: "c \<in> set bs \<longleftrightarrow> c = b" for c using bs(3) j ok by (fastforce simp: pool_ok_def)
    then have "set bs = {b}" by blast
    then have "bs = [b]" using bs(2) by (cases bs; cases "tl bs") (auto simp: insert_eq_iff)
    then show ?thesis using found [of b j] run None j ok by (simp add: pool_ok_def)
  next
    case False
    then have "set bs = {}" using bs(3) by auto
    then have "bs = []" by simp
    then show ?thesis using none run None False by (auto simp: ran_def)
  qed
qed

text \<open>Registering gives the agent one place in the pool and leaves the others alone.\<close>

lemma registerAgent_once:
  assumes sv: "agent_service api pool" and ok: "pool_ok (pool (cloud s))" and c: "TaskAgentClient s = Some client"
    and t: "TaskAgentOf s = Some ta" "TgId ta = Some i" "TgName ta = Some n"
    and mine: "\<And>b. pool (cloud s) i = Some b \<Longrightarrow> TgName b = Some n"
  shows "\<exists>j b s'. registerAgent api s = (Ok b, s') \<and> answers ta j b \<and> pool (cloud s') = (pool (cloud s))(j \<mapsto> b) \<and>
     pool_ok (pool (cloud s')) \<and> (pool (cloud s) i \<noteq> None \<longrightarrow> j = i)"
proof (rule GetAgent_finds [OF sv ok c t])
  fix j b
  assume g: "GetAgent api s = (Ok b, s)" "pool (cloud s) j = Some b" "TgId b = Some j"
    "j = i \<or> pool (cloud s) i = None \<and> TgName b = Some n"
  let ?a = "ta\<lparr>TgId := Some j\<rparr>"
  have "pool (cloud s) j \<noteq> None" using g(2) by simp
  then obtain b' x' where r: "adoReplaceAgent api client poolId (Some j) ?a (cloud s) = (Inr b', x')" "answers ?a j b'"
      "pool x' = (pool (cloud s))(j \<mapsto> b')"
    using agent_serviceD(4) [OF sv] by blast
  have "registerAgent api s = (Ok b', s\<lparr>TaskAgentOf := Some ?a, cloud := x'\<rparr>)"
    using g t c r(1) by (simp add: registerAgent_def setAgentId_def ReplaceAgent_def needs_def deref_def onCloud_def go_simps)
  moreover have "answers ta j b'" using r(2) by (simp add: answers_def)
  moreover have "pool_ok (pool x')"
    using ok r(2,3) g mine t by (auto simp: pool_ok_def answers_def)
  ultimately show ?thesis using r(3) g(4) by (intro exI [of _ j] exI [of _ b']) auto
next
  fix e
  assume g: "GetAgent api s = (Err e, s)" "pool (cloud s) i = None" "\<forall>b\<in>ran (pool (cloud s)). TgName b \<noteq> Some n"
  let ?a = "ta\<lparr>TgId := None\<rparr>"
  have "\<forall>b\<in>ran (pool (cloud s)). TgName b \<noteq> TgName ?a" using g(3) t by simp
  then obtain j b' x' where r: "adoAddAgent api client poolId ?a (cloud s) = (Inr b', x')" "pool (cloud s) j = None"
      "answers ?a j b'" "pool x' = (pool (cloud s))(j \<mapsto> b')"
    using agent_serviceD(3) [OF sv] by blast
  have "registerAgent api s = (Ok b', s\<lparr>TaskAgentOf := Some ?a, cloud := x'\<rparr>)"
    using g t c r(1) by (simp add: registerAgent_def setAgentId_def AddAgent_def needs_def deref_def onCloud_def go_simps)
  moreover have "answers ta j b'" using r(3) by (simp add: answers_def)
  moreover have "pool_ok (pool x')"
    using ok r(2,3,4) g(3) t by (fastforce simp: pool_ok_def answers_def ran_def)
  ultimately show ?thesis using r(4) g(2) by (intro exI [of _ j] exI [of _ b']) auto
qed

lemma rememberAgent_Ok:
  assumes "TgId b = Some j" "TgAuthorization b = Some auth" "AaClientId auth = Some cid" "AaUrl auth = Some url"
  shows "\<exists>df'. rememberAgent b (Some df, s) = (Ok (), (Some df', s\<lparr>TaskAgentOf := Some b\<rparr>)) \<and> AgentId (FRunner df') = j \<and>
     AgentName (FRunner df') = AgentName (FRunner df)"
  using assms by (simp add: rememberAgent_def setFiles_def deref_def onAdo_def go_simps)

text \<open>A service that keeps its agents in a list, the id being the position from 1.\<close>

definition demo_answer :: "TaskAgent \<Rightarrow> int \<Rightarrow> TaskAgent" where
  "demo_answer a i = a\<lparr>TgId := Some i, TgAuthorization := Some ((the (TgAuthorization a))\<lparr>AaClientId := Some ''client'', AaUrl := Some ''https://oauth''\<rparr>)\<rparr>"

definition demo_pool :: "TaskAgent list \<Rightarrow> int \<rightharpoonup> TaskAgent" where
  "demo_pool xs i = (if 1 \<le> i \<and> i \<le> int (length xs) then Some (xs ! nat (i - 1)) else None)"

definition demo_ado :: "(unit, unit, TaskAgent list) ado_api" where
  "demo_ado = \<lparr>clock = (\<lambda>x. 0), newUuid = (\<lambda>x. (''uuid'', x)), signAssertion = (\<lambda>k c. Inr ''jwt''),
     postForm = (\<lambda>u f x. (Inr \<lparr>AccessTokenField = ''token'', ErrorField = [], ErrorDescription = []\<rparr>, x)),
     eciDecrypt = (\<lambda>e k. Inr (EciContent e)), decryptOAEP = (\<lambda>h k c. Inr c), base64Decode = (\<lambda>s. Inr (map (\<lambda>c. of_nat (of_char c)) s)),
     utf8Decode = (\<lambda>bs. Inr (map (\<lambda>b. char_of (unat b)) bs)), newTaskAgentClient = (\<lambda>c x. (Inr (), x)),
     adoGetAgent = (\<lambda>k p i x. ((case i of None \<Rightarrow> Inl (External ''404'') | Some i \<Rightarrow> (case demo_pool x i of
        None \<Rightarrow> Inl (WrappedError (Some ''TaskAgentNotFoundException'')) | Some a \<Rightarrow> Inr a)), x)),
     adoGetAgents = (\<lambda>k p n x. (Some (remdups (filter (\<lambda>a. TgName a = n) x)), x)),
     adoAddAgent = (\<lambda>k p a x. (Inr (demo_answer a (int (length x) + 1)), x @ [demo_answer a (int (length x) + 1)])),
     adoReplaceAgent = (\<lambda>k p i a x. (Inr (demo_answer a (the i)), x[nat (the i - 1) := demo_answer a (the i)])),
     adoDeleteAgent = (\<lambda>k p i x. (Inr (), x)), adoCreateSession = (\<lambda>k p s x. ((Some s, None), x)), adoDeleteSession = (\<lambda>k p i x. (Inr (), x)),
     adoGetMessage = (\<lambda>k p i l x. (Inr None, x)), adoDeleteMessage = (\<lambda>k p m i x. (Inr (), x)), adoUpdateRequest = (\<lambda>k p r o' x. (Inr (), x)),
     newTaskClient = (\<lambda>c. ()), adoUpdateRecords = (\<lambda>t rs p l x. ((Some rs, None), x)), adoRaisePlanEvent = (\<lambda>t e p x. (Inr (), x))\<rparr>"

lemma demo_answer_answers: "answers a i (demo_answer a i)"
  by (simp add: answers_def demo_answer_def)

lemma demo_pool_append: "demo_pool (xs @ [b]) = (demo_pool xs)(int (length xs) + 1 \<mapsto> b)"
  by (rule ext) (auto simp: demo_pool_def nth_append)

lemma demo_pool_update: "1 \<le> i \<Longrightarrow> i \<le> int (length xs) \<Longrightarrow> demo_pool (xs[nat (i - 1) := b]) = (demo_pool xs)(i \<mapsto> b)"
  by (rule ext) (auto simp: demo_pool_def nth_list_update)

lemma demo_pool_members: "(\<exists>i. demo_pool xs i = Some b) \<longleftrightarrow> b \<in> set xs"
proof
  assume "b \<in> set xs"
  then obtain n where "n < length xs" "xs ! n = b" by (auto simp: in_set_conv_nth)
  then show "\<exists>i. demo_pool xs i = Some b" by (intro exI [of _ "int n + 1"]) (simp add: demo_pool_def)
qed (auto simp: demo_pool_def split: if_splits)

lemma demo_agent_service: "agent_service demo_ado demo_pool"
  unfolding agent_service_def
proof (intro conjI allI impI)
  fix k n x
  show "\<exists>bs. adoGetAgents demo_ado k poolId (Some n) x = (Some bs, x) \<and> distinct bs \<and>
      set bs = {b. \<exists>i. demo_pool x i = Some b \<and> TgName b = Some n}"
    using demo_pool_members [of x] by (auto simp: demo_ado_def)
next
  fix k :: unit and a x
  show "\<exists>i b x'. adoAddAgent demo_ado k poolId a x = (Inr b, x') \<and> demo_pool x i = None \<and> answers a i b \<and>
      demo_pool x' = (demo_pool x)(i \<mapsto> b)"
    by (intro exI [of _ "int (length x) + 1"] exI [of _ "demo_answer a (int (length x) + 1)"]
        exI [of _ "x @ [demo_answer a (int (length x) + 1)]"])
       (simp add: demo_ado_def demo_answer_answers demo_pool_append, simp add: demo_pool_def)
next
  fix k :: unit and i a x
  assume "demo_pool x i \<noteq> None"
  then have "1 \<le> i" "i \<le> int (length x)" by (auto simp: demo_pool_def split: if_splits)
  then show "\<exists>b x'. adoReplaceAgent demo_ado k poolId (Some i) a x = (Inr b, x') \<and> answers a i b \<and> demo_pool x' = (demo_pool x)(i \<mapsto> b)"
    by (simp add: demo_ado_def demo_answer_answers demo_pool_update)
qed (simp add: demo_ado_def)

definition demo_ado_state :: "TaskAgent list \<Rightarrow> (unit, unit, TaskAgent list) ado" where
  "demo_ado_state x = \<lparr>RSAPrivateKey = None, ConnectionOf = None, TaskAgentClient = Some (), TaskAgentOf = None, BridgeConnection = None,
     TaskAgentBridgeClient = Some (), TaskAgentSessionOf = None, PlanOf = None, TimelineOf = None, JobConnection = None, TaskClient = None,
     cloud = x\<rparr>"

definition demo_ado_env :: ado_env where
  "demo_ado_env = \<lparr>agentVersion = ''2.300.0'', goos = ''linux'', goarch = ''amd64''\<rparr>"

section \<open>Properties\<close>

text \<open>
  Claim C17. A runner has one agent: with a service that keeps agents under ids and unique names, initialising
  the agent of a runner whose stored id is unused or its own succeeds, leaves exactly one agent of its name
  in the pool, with the key of the dot files, under the id that the dot files then hold, and leaves every
  other agent alone; an agent found under the stored id keeps it, so that initialising again adds none.
\<close>

theorem runner_has_one_agent:
  assumes "agent_service api pool" and "pool_ok (pool (cloud a))" and "TaskAgentClient a = Some client"
    and "\<forall>b. pool (cloud a) (AgentId (FRunner df)) = Some b \<longrightarrow> TgName b = Some (AgentName (FRunner df))"
  shows "\<exists>df' a' i b. initAzureDevOpsTaskAgent api env labels (Some df, a) = (Ok (), (Some df', a')) \<and>
     AgentId (FRunner df') = i \<and> AgentName (FRunner df') = AgentName (FRunner df) \<and>
     {j. \<exists>c. pool (cloud a') j = Some c \<and> TgName c = Some (AgentName (FRunner df))} = {i} \<and>
     pool (cloud a') i = Some b \<and> TgLabels b = Some labels \<and>
     (\<exists>auth. TgAuthorization b = Some auth \<and> AaExponent auth = RsaExponent (FRSAParameters df) \<and> AaModulus auth = RsaModulus (FRSAParameters df)) \<and>
     (\<forall>j. j \<noteq> i \<longrightarrow> pool (cloud a') j = pool (cloud a) j) \<and> pool_ok (pool (cloud a')) \<and>
     (pool (cloud a) (AgentId (FRunner df)) \<noteq> None \<longrightarrow> i = AgentId (FRunner df))"
proof -
  let ?d = "desiredAgent env df labels"
  let ?a = "a\<lparr>TaskAgentOf := Some ?d\<rparr>"
  have d: "TgId ?d = Some (AgentId (FRunner df))" "TgName ?d = Some (AgentName (FRunner df))" by (simp_all add: desiredAgent_def)
  obtain j b s' where r: "registerAgent api ?a = (Ok b, s')" "answers ?d j b" "pool (cloud s') = (pool (cloud a))(j \<mapsto> b)"
      "pool_ok (pool (cloud s'))" "pool (cloud a) (AgentId (FRunner df)) \<noteq> None \<longrightarrow> j = AgentId (FRunner df)"
    using registerAgent_once [OF assms(1), of ?a client ?d "AgentId (FRunner df)" "AgentName (FRunner df)"] assms(2-4) d by auto
  obtain auth cid url where b: "TgId b = Some j" "TgName b = Some (AgentName (FRunner df))" "TgLabels b = Some labels"
      "TgAuthorization b = Some auth" "AaClientId auth = Some cid" "AaUrl auth = Some url"
      "AaExponent auth = RsaExponent (FRSAParameters df)" "AaModulus auth = RsaModulus (FRSAParameters df)"
    using r(2) by (auto simp: answers_def desiredAgent_def)
  obtain df' where f: "rememberAgent b (Some df, s') = (Ok (), (Some df', s'\<lparr>TaskAgentOf := Some b\<rparr>))"
      "AgentId (FRunner df') = j" "AgentName (FRunner df') = AgentName (FRunner df)"
    using rememberAgent_Ok [OF b(1,4-6)] by blast
  have run: "initAzureDevOpsTaskAgent api env labels (Some df, a) = (Ok (), (Some df', s'\<lparr>TaskAgentOf := Some b\<rparr>))"
    using assms(3) r(1) f(1)
    by (simp add: initAzureDevOpsTaskAgent_def dotFilesOf_def onAdo_def deref_def andThen_def ask_def ret_def upd_def zoom_def)
  let ?s = "s'\<lparr>TaskAgentOf := Some b\<rparr>"
  have here: "pool (cloud ?s) j = Some b" "\<forall>k. k \<noteq> j \<longrightarrow> pool (cloud ?s) k = pool (cloud a) k" "pool_ok (pool (cloud ?s))"
    using r(3,4) by simp_all
  have uniq: "i = k" if "pool (cloud ?s) i = Some c" "pool (cloud ?s) k = Some d" "TgName c = TgName d" for i k c d
    using here(3) that unfolding pool_ok_def by blast
  have one: "{k. \<exists>c. pool (cloud ?s) k = Some c \<and> TgName c = Some (AgentName (FRunner df))} = {j}"
  proof (intro equalityI subsetI)
    fix k
    assume "k \<in> {k. \<exists>c. pool (cloud ?s) k = Some c \<and> TgName c = Some (AgentName (FRunner df))}"
    then obtain c where "pool (cloud ?s) k = Some c" "TgName c = TgName b" using b(2) by auto
    then have "k = j" using uniq here(1) by blast
    then show "k \<in> {j}" by simp
  qed (use here(1) b(2) in simp)
  show ?thesis
    by (intro exI conjI) (rule run, rule f(2), rule f(3), rule one, rule here(1), rule b(3), rule b(4), rule b(7), rule b(8), rule here(2), rule here(3), rule r(5))
qed

theorem runner_has_one_agent_witness:
  "\<exists>df a. initAzureDevOpsTaskAgent demo_ado demo_ado_env [''self-hosted''] (Some zeroFiles, demo_ado_state []) = (Ok (), (Some df, a)) \<and>
     {j. \<exists>c. demo_pool (cloud a) j = Some c \<and> TgName c = Some []} = {AgentId (FRunner df)}"
proof -
  have ok: "pool_ok (demo_pool (cloud (demo_ado_state [])))" by (auto simp: pool_ok_def demo_pool_def demo_ado_state_def)
  have free: "\<forall>b. demo_pool (cloud (demo_ado_state [])) (AgentId (FRunner zeroFiles)) = Some b \<longrightarrow>
      TgName b = Some (AgentName (FRunner zeroFiles))"
    by (auto simp: demo_pool_def demo_ado_state_def)
  have "TaskAgentClient (demo_ado_state []) = Some ()" by (simp add: demo_ado_state_def)
  from runner_has_one_agent [OF demo_agent_service ok this free, of demo_ado_env "[''self-hosted'']"]
  show ?thesis by (auto simp: zeroFiles_def)
qed



end
