(* ===== verification/Facades.thy ===== *)
theory Facades
  imports Operator Azure_Devops
begin

text \<open>
  The facades a wire has (\<^verbatim>\<open>ghFacade\<close> and \<^verbatim>\<open>adoFacade\<close> of \<^verbatim>\<open>wire/wire.go\<close>), as the interface the wire is written against,
  made of the GitHub and the Azure DevOps facade. The statements about wires and the operator hold for it
  as for every other instance; here are those that need both sides.
\<close>

record ('g, 'y, 'k, 't, 'x) facades =
  ghRepository :: "GhRepository option"
  ghState :: "('g, 'y) gh"
  adoState :: "('k, 't, 'x) ado"

definition onGh :: "(('g, 'y) gh, 'a) go \<Rightarrow> (('g, 'y, 'k, 't, 'x) facades, 'a) go" where
  "onGh = zoom ghState (\<lambda>g s. s\<lparr>ghState := g\<rparr>)"

definition onAzure :: "(('k, 't, 'x) ado, 'a) go \<Rightarrow> (('g, 'y, 'k, 't, 'x) facades, 'a) go" where
  "onAzure = zoom adoState (\<lambda>a s. s\<lparr>adoState := a\<rparr>)"

definition onAzureFiles :: "(Files option \<times> ('k, 't, 'x) ado, 'a) go \<Rightarrow> (Files option \<times> ('g, 'y, 'k, 't, 'x) facades, 'a) go" where
  "onAzureFiles = zoom (\<lambda>s. (fst s, adoState (snd s))) (\<lambda>p s. (fst p, (snd s)\<lparr>adoState := snd p\<rparr>))"

definition facadesOf ::
    "('g, 'y) gh_api \<Rightarrow> gh_env \<Rightarrow> ('k, 't, 'x) ado_api \<Rightarrow> ado_env \<Rightarrow> ('g, 'y, 'k, 't, 'x) facades facade_api" where
  "facadesOf ga ge aa ae = \<lparr>
     GhInit = (\<lambda>owner name. andThen (onGh (ghInit ga ge owner name)) (\<lambda>r. upd (\<lambda>s. s\<lparr>ghRepository := Some r\<rparr>))),
     GhGitCommitsURL = (\<lambda>s. case ghRepository s of None \<Rightarrow> [] | Some r \<Rightarrow> RepoGitCommitsURL r),
     GetGitHubTenantCredential = (\<lambda>ev. andThen ask (\<lambda>s. andThen (onGh (getTenantCredential ga (ghRepository s) ev)) (\<lambda>c.
       ret (CredToken c, CredURL c)))),
     InitForCRUD = (\<lambda>labels token url. onAzureFiles (adoInitForCRUD aa ae labels token url)),
     InitForRun = (\<lambda>labels. onAzureFiles (adoInitForRun aa ae labels)),
     RefreshForRun = onAzureFiles (adoRefreshForRun aa),
     InitAzureDevOpsTaskAgentSession = onAzure (initSession aa),
     DeinitAzureDevOpsTaskAgentSession = onAzure (deinitSession aa),
     GetMessage = (\<lambda>lastId. onAzure (adoFetchMessage aa lastId)),
     DeleteMessage = (\<lambda>mid. onAzure (adoAckMessage aa mid)),
     DeleteAgent = onAzure (DeleteAgentOp aa),
     UpdateAgentRequest = (\<lambda>rid oid. onAzure (adoUpdateAgentRequest aa (Some rid) (Some oid))),
     InitAzureDevOpsTaskClient = (\<lambda>plan tl es. onAzure (adoInitTaskClient aa plan tl es)),
     UpdateRecord = (\<lambda>rs. andThen (onAzure (adoUpdateRecord aa rs)) (\<lambda>(_, err). case err of None \<Rightarrow> ret () | Some e \<Rightarrow> fail e)),
     RaisePlanEvent = (\<lambda>e. onAzure (adoRaiseEvent aa (Some e)))\<rparr>"

section \<open>Sessions of a wire\<close>

definition session_of :: "(('g, 'y, 'k, 't, 'x) facades, 'c) wire \<Rightarrow> TaskAgentSession option" where
  "session_of w = TaskAgentSessionOf (adoState (wFac w))"

lemma deinitSession_closes: "deinitSession api s = (Ok u, s') \<Longrightarrow> TaskAgentSessionOf s' = None"
  by (auto simp: deinitSession_def andThen_Ok_iff ask_def ret_def upd_def split: if_splits)

lemma wireInit_closes:
  assumes "wireInit (facadesOf ga ge aa ae) libs w0 = (Ok u, w)"
  shows "session_of w = None"
proof -
  let ?f = "facadesOf ga ge aa ae"
  from assms obtain w1 w2 where d: "onFac (DeinitAzureDevOpsTaskAgentSession ?f) w1 = (Ok (), w2)"
      and e: "andThen (upd (\<lambda>s. if jobRequests s = None then s\<lparr>jobRequests := Some 0\<rparr> else s)) (\<lambda>_.
        upd (\<lambda>s. if validator s = None then s\<lparr>validator := Some NewPolicyValidator\<rparr> else s)) w2 = (Ok u, w)"
    by (auto simp: wireInit_def andThen_Ok_iff ask_def)
  have "session_of w2 = None"
    using d deinitSession_closes by (auto simp: onFac_def onAzure_def facadesOf_def zoom_def session_of_def split: prod.splits)
  moreover have "wFac w = wFac w2" using e by (auto simp: andThen_def upd_def)
  ultimately show ?thesis by (simp add: session_of_def)
qed

section \<open>The repository of a wire\<close>

definition repo_of :: "(('g, 'y, 'k, 't, 'x) facades, 'c) wire \<Rightarrow> GhRepository option" where
  "repo_of w = ghRepository (wFac w)"

lemma facades_keep_repository:
  "keeps ghRepository (onGh m)" "keeps ghRepository (onAzure m')" "keeps (\<lambda>s. ghRepository (snd s)) (onAzureFiles m'')"
  by (auto intro!: keepsI simp: onGh_def onAzure_def onAzureFiles_def zoom_def split: prod.splits)

lemma onFac_keeps_repository:
  fixes m :: "(('g, 'y, 'k, 't, 'x) facades, 'a) go"
  assumes "keeps ghRepository m"
  shows "keeps repo_of (onFac m)"
proof (rule keepsI)
  fix s :: "(('g, 'y, 'k, 't, 'x) facades, 'c) wire"
  obtain r f where p: "m (wFac s) = (r, f)" by fastforce
  show "repo_of (snd (onFac m s)) = repo_of s"
    using keepsD [OF assms p] p by (simp add: onFac_def zoom_def repo_of_def)
qed

lemma onFiles_keeps_repository:
  fixes m :: "(Files option \<times> ('g, 'y, 'k, 't, 'x) facades, 'a) go"
  assumes "keeps (\<lambda>s. ghRepository (snd s)) m"
  shows "keeps repo_of (onFiles m)"
proof (rule keepsI)
  fix s :: "(('g, 'y, 'k, 't, 'x) facades, 'c) wire"
  obtain r p where p: "m (wDotFiles s, wFac s) = (r, p)" by (rule prod.exhaust)
  show "repo_of (snd (onFiles m s)) = repo_of s"
    using keepsD [OF assms p] p by (simp add: onFiles_def zoom_def repo_of_def)
qed

lemma onRunnerFile_keeps_repository: "keeps repo_of (onRunnerFile g)"
  by (rule keepsI) (simp add: onRunnerFile_def repo_of_def split: option.splits)

lemmas wire_keeps_repository = onFac_keeps_repository onFiles_keeps_repository onRunnerFile_keeps_repository

lemma initADO_keeps_repository: "keeps repo_of (initADO (facadesOf ga ge aa ae) ev)"
proof -
  have c: "keeps repo_of (onFac (GetGitHubTenantCredential (facadesOf ga ge aa ae) ev))"
    by (rule wire_keeps_repository(1)) (auto simp: facadesOf_def intro!: keeps_andThen facades_keep_repository)
  have i: "keeps repo_of (onFiles (InitForCRUD (facadesOf ga ge aa ae) l t u))" for l t u
    by (rule wire_keeps_repository(2)) (simp add: facadesOf_def facades_keep_repository)
  show ?thesis
    unfolding initADO_def by (intro keeps_andThen c) (auto intro!: keeps_andThen wire_keeps_repository(3) i)
qed

lemma initGH_sets_repository:
  assumes inv: "only_configured ge (ghState (wFac w))" and run: "initGH (facadesOf ga ge aa ae) w = (Ok u, w')"
  shows "\<exists>rep. repo_of w' = Some rep \<and> configured ge rep"
proof -
  obtain w1 where g: "onFac (GhInit (facadesOf ga ge aa ae) (Owner (Repository (ArSpec (wRunner w))))
      (RepoName (Repository (ArSpec (wRunner w))))) w = (Ok (), w1)"
    and f: "onRunnerFile (\<lambda>s r. r\<lparr>GitHubUrl := GhGitCommitsURL (facadesOf ga ge aa ae) (wFac s)\<rparr>) w1 = (Ok u, w')"
    using run by (auto simp: initGH_def andThen_Ok_iff ask_def)
  obtain rep s' where r: "ghInit ga ge (Owner (Repository (ArSpec (wRunner w)))) (RepoName (Repository (ArSpec (wRunner w))))
      (ghState (wFac w)) = (Ok rep, s')" "ghRepository (wFac w1) = Some rep"
    using g by (auto simp: onFac_def facadesOf_def onGh_def andThen_def zoom_def upd_def split: prod.splits res.splits)
  have "configured ge rep" using ghInit_configured [OF inv r(1)] by simp
  then show ?thesis using r(2) keepsD [OF wire_keeps_repository(3) f] by (simp add: repo_of_def)
qed

lemma wireInit_repository:
  assumes inv: "only_configured ge (ghState (wFac w0))" and run: "wireInit (facadesOf ga ge aa ae) libs w0 = (Ok u, w)"
  shows "\<exists>rep. repo_of w = Some rep \<and> configured ge rep"
proof -
  let ?f = "facadesOf ga ge aa ae"
  obtain w1 w2 where i: "initDotFiles libs w0 = (Ok (), w1)" "initGH ?f w1 = (Ok (), w2)" and
    rest: "andThen (initADO ?f RunnerEventRegister) (\<lambda>_. andThen ask (\<lambda>w.
     andThen (onFiles (InitForRun ?f (Labels (ArSpec (wRunner w))))) (\<lambda>_.
     andThen (onFac (InitAzureDevOpsTaskAgentSession ?f)) (\<lambda>_.
     andThen (onFac (DeinitAzureDevOpsTaskAgentSession ?f)) (\<lambda>_.
     andThen (upd (\<lambda>s. if jobRequests s = None then s\<lparr>jobRequests := Some 0\<rparr> else s)) (\<lambda>_.
     upd (\<lambda>s. if validator s = None then s\<lparr>validator := Some NewPolicyValidator\<rparr> else s))))))) w2 = (Ok u, w)" (is "?rest w2 = _")
    using run by (auto simp: wireInit_def andThen_Ok_iff)
  have "wFac w1 = wFac w0" using i(1) by (auto simp: initDotFiles_def go_simps split: if_splits res.splits)
  with inv have "only_configured ge (ghState (wFac w1))" by simp
  then have "\<exists>rep. repo_of w2 = Some rep \<and> configured ge rep"
    by (rule initGH_sets_repository [where ga = ga and aa = aa and ae = ae and w = w1 and u = "()"]) (rule i(2))
  then obtain rep where rep: "repo_of w2 = Some rep" "configured ge rep" by blast
  have k: "keeps repo_of ?rest"
    by (intro keeps_andThen initADO_keeps_repository keeps_basic keeps_upd wire_keeps_repository)
       (auto simp: facadesOf_def facades_keep_repository repo_of_def)
  have "repo_of w = repo_of w2" by (rule keepsD [of repo_of ?rest w2 "Ok u" w]) (rule k, rule rest)
  with rep show ?thesis by simp
qed

lemma Init_wireInit: "Init fa libs w0 = (Ok u, w) \<Longrightarrow> wireInit fa libs w0 = (Ok u, w)"
  by (auto simp: Init_def attempt_def ret_def andThen_def fail_def split: prod.splits res.splits)

section \<open>Properties\<close>

text \<open>
  Claim C12. A wire comes up registered for an allowed repository and idle: with the two facades of the operator, whatever
  the services answer, a successful initialisation leaves the wire with a repository whose owner and
  visibility the configuration lists, and with no agent session open.
\<close>

theorem initialised_wire_is_allowed_and_idle:
  assumes "only_configured ge (ghState (wFac w0))"
    and "Init (facadesOf ga ge aa ae) libs w0 = (Ok u, w)"
  shows "(\<exists>rep. ghRepository (wFac w) = Some rep \<and> configured ge rep) \<and> TaskAgentSessionOf (adoState (wFac w)) = None"
  using wireInit_repository [OF assms(1) Init_wireInit [OF assms(2)]] wireInit_closes [OF Init_wireInit [OF assms(2)]]
  by (simp add: repo_of_def session_of_def)

definition demo_azure :: "(unit, unit, TaskAgent list) ado_api" where
  "demo_azure = demo_ado\<lparr>adoCreateSession := (\<lambda>k p req x. ((Some \<lparr>TsAgent = TsAgent req, TsOwnerName = TsOwnerName req, TsSessionId = Some ''sid'',
     TsEncryptionKey = Some \<lparr>SkEncrypted = Some False, SkValue = Some [7]\<rparr>, TsUseFips = Some False\<rparr>, None), x))\<rparr>"

definition demo_dot :: Files where
  "demo_dot = zeroFiles\<lparr>FRSAParameters := \<lparr>RsaD = Some [], RsaDP = Some [], RsaDQ = Some [], RsaExponent = Some [], RsaInverseQ = Some [],
     RsaModulus = Some [], RsaP = Some [], RsaQ = Some []\<rparr>\<rparr>"

definition demo_full_wire :: "((unit, nat, unit, unit, TaskAgent list) facades, string) wire" where
  "demo_full_wire = \<lparr>wRunner = zeroRunner\<lparr>ArSpec := emptySpec\<lparr>Repository := \<lparr>Owner = ''acme'', RepoName = ''app'', APIEndpoint = []\<rparr>\<rparr>\<rparr>,
     wDotFiles = Some demo_dot, wFac = \<lparr>ghRepository = None, ghState = demo_gh_state, adoState = demo_ado_state []\<rparr>, jobRequests = None,
     loopClose = ChNil, invalid = False, listening = False, validator = None, notifierClosed = False, events = 0, counted = []\<rparr>"

lemmas init_evaluation =
  wireInit_def initDotFiles_def initGH_def initADO_def onFac_def onFiles_def onRunnerFile_def facadesOf_def onGh_def onAzure_def onAzureFiles_def
  ghInit_def initGitHubClient_def getGitHubRepository_def Let_def cacheGet_def repositoryAllowed_def githubOwners_def githubVisibilities_def
  addVisibility_def repoPrivate_def repoPublic_def gh_call_defs onNet_def getTenantCredential_def tryGetGitHubTenantCredential_def repoKey_def RunnerEventRegister_def
  newGitHubBridgeClientWithRegistrationToken_def getGitHubRegistrationToken_def tryGetGitHubRegistrationToken_def createRegistrationToken_def
  adoInitForCRUD_def adoInitForRun_def initRSAPrivateKey_def dotFilesOf_def deref_def ToRSAPrivateKey_def onAdo_def initAzureDevOpsConnection_def
  initAzureDevOpsTaskAgentClient_def needs_def onCloud_def onCloud2_def initAzureDevOpsTaskAgent_def registerAgent_def GetAgent_def AddAgent_def
  ReplaceAgent_def setAgentId_def rememberAgent_def setFiles_def desiredAgent_def initAzureDevOpsBridgeConnection_def ClientAssertion_def
  AccessToken_def responseError_def tokenForm_def initAzureDevOpsBridgeTaskAgentClient_def initSession_def CreateAgentSession_def
  deinitSession_def DeleteAgentSession_def wrapErr_def GetPropertyValue_def agentLabelsBase_def

lemmas init_demo = demo_gh_def okResponse_def demo_gh_env_def demo_gh_state_def demo_full_wire_def demo_dot_def demo_azure_def demo_ado_def demo_ado_env_def
  demo_ado_state_def demo_pool_def demo_answer_def zeroFiles_def zeroRunner_def emptySpec_def

theorem initialised_wire_is_allowed_and_idle_witness:
  "\<exists>w rep. Init (facadesOf demo_gh demo_gh_env demo_azure demo_ado_env) demo_libs demo_full_wire = (Ok (), w) \<and>
     ghRepository (wFac w) = Some rep \<and> configured demo_gh_env rep"
proof -
  have "\<exists>w. wireInit (facadesOf demo_gh demo_gh_env demo_azure demo_ado_env) demo_libs demo_full_wire = (Ok (), w)"
    by (simp add: init_evaluation init_demo go_simps)
  then have "\<exists>w. Init (facadesOf demo_gh demo_gh_env demo_azure demo_ado_env) demo_libs demo_full_wire = (Ok (), w)"
    by (auto simp: Init_def attempt_def ret_def)
  then obtain w where i: "Init (facadesOf demo_gh demo_gh_env demo_azure demo_ado_env) demo_libs demo_full_wire = (Ok (), w)" by blast
  have "only_configured demo_gh_env (ghState (wFac demo_full_wire))"
    by (simp add: only_configured_def demo_full_wire_def demo_gh_state_def)
  from initialised_wire_is_allowed_and_idle [OF this i] i show ?thesis by blast
qed

end
