(* ===== verification/Manager.thy ===== *)
theory Manager
  imports Job_Reconciler Replica_Set Runner_Reconciler
begin

text \<open>
  The start of the operator (\<^verbatim>\<open>operator/cmd/main.go\<close>) and what its controllers watch (the \<^verbatim>\<open>SetupWithManager\<close> and
  \<^verbatim>\<open>SetupWebhookWithManager\<close> methods). The manager of controller-runtime is a parameter; the model keeps what was registered with
  it. A watch of the controller's own kind or of an owned kind passes the event filter; the raw source of the wires does not.
\<close>

section \<open>What a controller watches\<close>

record controller_spec =
  CtlFor :: kind
  CtlOwns :: "kind list"
  CtlFilter :: "kind event \<Rightarrow> bool"
  CtlRaw :: bool
  CtlMax :: int

definition replicaSetController :: "int \<Rightarrow> controller_spec" where
  "replicaSetController n = \<lparr>CtlFor = KActionsRunnerReplicaSet, CtlOwns = [KActionsRunner], CtlFilter = (\<lambda>_. True), CtlRaw = False, CtlMax = n\<rparr>"

definition runnerController :: "int \<Rightarrow> controller_spec" where
  "runnerController n = \<lparr>CtlFor = KActionsRunner, CtlOwns = [KConfigMap, KSecret, KPodDisruptionBudget, KActionsRunnerJob],
     CtlFilter = runnerEventFilter, CtlRaw = True, CtlMax = n\<rparr>"

definition jobController :: "int \<Rightarrow> controller_spec" where
  "jobController n = \<lparr>CtlFor = KActionsRunnerJob, CtlOwns = [KPersistentVolumeClaim, KPod], CtlFilter = jobEventFilter, CtlRaw = False, CtlMax = n\<rparr>"

text \<open>An event of the cluster wakes a controller that watches its object and whose filter passes it.\<close>

definition wakes :: "controller_spec \<Rightarrow> kind event \<Rightarrow> bool" where
  "wakes c e \<longleftrightarrow> CtlFilter c e \<and> (case EventObject e of None \<Rightarrow> False | Some k \<Rightarrow> k = CtlFor c \<or> k \<in> set (CtlOwns c))"

definition notified :: "controller_spec \<Rightarrow> kind event \<Rightarrow> bool" where
  "notified c e \<longleftrightarrow> wakes c e \<or> CtlRaw c \<and> kind_of_event e = EvGeneric"

section \<open>Starting the operator\<close>

record operator_options =
  maxConcurrentReconciles :: int
  metricsBindAddress :: string
  healthProbeBindAddress :: string
  leaderElect :: bool
  leaderElectionNamespace :: string
  leaderElectionId :: string

text \<open>The options when no flag is given.\<close>

definition defaultOptions :: "int \<Rightarrow> operator_options" where
  "defaultOptions numCPU = \<lparr>maxConcurrentReconciles = numCPU, metricsBindAddress = '':8080'', healthProbeBindAddress = '':8081'',
     leaderElect = False, leaderElectionNamespace = ''kube-actions'', leaderElectionId = ''00000000.inloco.com.br''\<rparr>"

record 'x manager_api =
  newManager :: "operator_options \<Rightarrow> 'x \<Rightarrow> (goerr + unit) \<times> 'x"
  completeWebhook :: "kind \<Rightarrow> 'x \<Rightarrow> (goerr + unit) \<times> 'x"
  completeController :: "controller_spec \<Rightarrow> 'x \<Rightarrow> (goerr + unit) \<times> 'x"
  addCheck :: "string \<Rightarrow> 'x \<Rightarrow> (goerr + unit) \<times> 'x"
  runManager :: "'x \<Rightarrow> (goerr + unit) \<times> 'x"

record 'x manager =
  webhooksOn :: "kind list"
  controllersOn :: "controller_spec list"
  checksOn :: "string list"
  managerStarted :: bool
  mworld :: 'x

definition onManager :: "('x \<Rightarrow> (goerr + unit) \<times> 'x) \<Rightarrow> ('x manager \<Rightarrow> 'x manager) \<Rightarrow> ('x manager, unit) go" where
  "onManager f g = andThen (zoom mworld (\<lambda>x s. s\<lparr>mworld := x\<rparr>) (external f)) (\<lambda>_. upd g)"

definition SetupWebhookWithManager :: "'x manager_api \<Rightarrow> kind \<Rightarrow> ('x manager, unit) go" where
  "SetupWebhookWithManager api k = onManager (completeWebhook api k) (\<lambda>s. s\<lparr>webhooksOn := webhooksOn s @ [k]\<rparr>)"

definition SetupWithManager :: "'x manager_api \<Rightarrow> controller_spec \<Rightarrow> ('x manager, unit) go" where
  "SetupWithManager api c = onManager (completeController api c) (\<lambda>s. s\<lparr>controllersOn := controllersOn s @ [c]\<rparr>)"

definition addHealthCheck :: "'x manager_api \<Rightarrow> string \<Rightarrow> ('x manager, unit) go" where
  "addHealthCheck api name = onManager (addCheck api name) (\<lambda>s. s\<lparr>checksOn := checksOn s @ [name]\<rparr>)"

definition startManager :: "'x manager_api \<Rightarrow> ('x manager, unit) go" where
  "startManager api = andThen (upd (\<lambda>s. s\<lparr>managerStarted := True\<rparr>)) (\<lambda>_. onManager (runManager api) (\<lambda>s. s))"

definition registrations :: "'x manager_api \<Rightarrow> operator_options \<Rightarrow> ('x manager, unit) go" where
  "registrations api opts =
     andThen (onManager (newManager api opts) (\<lambda>s. s)) (\<lambda>_.
     andThen (SetupWebhookWithManager api KActionsRunnerReplicaSet) (\<lambda>_.
     andThen (SetupWebhookWithManager api KActionsRunner) (\<lambda>_.
     andThen (SetupWithManager api (replicaSetController (maxConcurrentReconciles opts))) (\<lambda>_.
     andThen (SetupWithManager api (runnerController (maxConcurrentReconciles opts))) (\<lambda>_.
     andThen (SetupWithManager api (jobController (maxConcurrentReconciles opts))) (\<lambda>_.
     andThen (addHealthCheck api ''healthz'') (\<lambda>_.
     addHealthCheck api ''readyz'')))))))"

text \<open>An error is logged and ends the process with status 1.\<close>

definition operatorMain :: "'x manager_api \<Rightarrow> operator_options \<Rightarrow> ('x manager, unit) go" where
  "operatorMain api opts = andThen (registrations api opts) (\<lambda>_. startManager api)"

section \<open>Starting complete\<close>

lemma onManager_Ok: "onManager f g s = (Ok u, s') \<Longrightarrow> \<exists>x. s' = g (s\<lparr>mworld := x\<rparr>)"
  by (auto simp: onManager_def andThen_Ok_iff upd_def zoom_def external_def split: prod.splits sum.splits)

lemma keeps_onManager: "(\<And>s x. p (s\<lparr>mworld := x\<rparr>) = p s) \<Longrightarrow> (\<And>s. p (g s) = p s) \<Longrightarrow> keeps p (onManager f g)"
  unfolding onManager_def
  by (intro keeps_andThen keeps_upd keepsI) (simp_all add: zoom_def external_def split: prod.splits sum.splits)

lemma registrations_start_nothing: "keeps managerStarted (registrations api opts)"
  unfolding registrations_def SetupWebhookWithManager_def SetupWithManager_def addHealthCheck_def
  by (intro keeps_andThen keeps_onManager) simp_all

lemma registrations_complete:
  assumes "registrations api opts s = (Ok u, s')"
  shows "webhooksOn s' = webhooksOn s @ [KActionsRunnerReplicaSet, KActionsRunner]"
    and "controllersOn s' = controllersOn s @ map (\<lambda>c. c (maxConcurrentReconciles opts)) [replicaSetController, runnerController, jobController]"
    and "checksOn s' = checksOn s @ [''healthz'', ''readyz'']"
  using assms unfolding registrations_def SetupWebhookWithManager_def SetupWithManager_def addHealthCheck_def andThen_Ok_iff
  by (auto dest!: onManager_Ok)

text \<open>
  Nothing is served half configured: whatever fails, the manager starts only with both webhooks, the three controllers and
  both checks registered, and the process returns only when it did.
\<close>

theorem operator_starts_complete:
  assumes "\<not> managerStarted s" and "webhooksOn s = []" "controllersOn s = []" "checksOn s = []"
    and run: "operatorMain api opts s = (r, s')"
  shows "(managerStarted s' \<longrightarrow> webhooksOn s' = [KActionsRunnerReplicaSet, KActionsRunner] \<and>
      map CtlFor (controllersOn s') = [KActionsRunnerReplicaSet, KActionsRunner, KActionsRunnerJob] \<and> checksOn s' = [''healthz'', ''readyz'']) \<and>
    (r = Ok () \<longrightarrow> managerStarted s')"
proof -
  obtain r0 s1 where reg: "registrations api opts s = (r0, s1)" by (rule prod.exhaust)
  have no: "\<not> managerStarted s1" using keepsD [OF registrations_start_nothing reg] assms(1) by simp
  show ?thesis
  proof (cases r0)
    case (Ok u)
    note c = registrations_complete [OF reg [unfolded Ok]]
    have "startManager api s1 = (r, s')" using run reg Ok by (simp add: operatorMain_def andThen_def)
    then have "webhooksOn s' = webhooksOn s1" "controllersOn s' = controllersOn s1" "checksOn s' = checksOn s1" "managerStarted s'"
      by (auto simp: startManager_def onManager_def go_simps split: prod.splits sum.splits res.splits)
    then show ?thesis using c assms(2-4) by (simp add: replicaSetController_def runnerController_def jobController_def)
  qed (use run reg no in \<open>auto simp: operatorMain_def andThen_def\<close>)
qed

section \<open>What wakes a controller\<close>

text \<open>
  News travels up: a change of a pod or claim wakes the job controller, a change of a job the runner controller, and
  every event of a runner its own controller and that of its set; a creation is news for the owner only in the case of a runner,
  and of a deleted job its own controller hears nothing.
\<close>

theorem news_travel_up:
  "wakes (jobController n) e \<longleftrightarrow>
     (\<exists>k\<in>{KPod, KPersistentVolumeClaim}. EventObject e = Some k \<and> kind_of_event e \<in> {EvUpdate, EvDelete}) \<or>
     EventObject e = Some KActionsRunnerJob \<and> kind_of_event e \<in> {EvCreate, EvUpdate}"
  "wakes (runnerController n) e \<longleftrightarrow> EventObject e = Some KActionsRunner \<or>
     (\<exists>k\<in>{KConfigMap, KSecret, KPodDisruptionBudget, KActionsRunnerJob}. EventObject e = Some k \<and> kind_of_event e \<in> {EvUpdate, EvDelete})"
  "wakes (replicaSetController n) e \<longleftrightarrow> EventObject e \<in> {Some KActionsRunner, Some KActionsRunnerReplicaSet}"
  by (auto simp: wakes_def jobController_def runnerController_def replicaSetController_def jobEventFilter_def runnerEventFilter_def split: option.splits)

end
