(* ===== verification/Dind_Cache.thy ===== *)
theory Dind_Cache
  imports Prelude
begin

text \<open>
  The data types of the docker-in-docker supervisor (\<^verbatim>\<open>dind/types.go\<close>) and its cache
  (\<^verbatim>\<open>dind/cache.go\<close>): the networks and containers known to the event loop and, per
  container, the PIDs of the port proxies started for it. The two info maps satisfy the
  interface \<open>keyed_store\<close>, whose lemmas the event loop uses.
\<close>

section \<open>Types\<close>

datatype resourceKind = resourceKindNetwork | resourceKindContainer

datatype resourceAction =
    resourceActionCreate | resourceActionDestroy | resourceActionStart | resourceActionStop

record Subnet =
  DockerSubnet :: string
  HostProxySubnet :: string
  SecondOctet :: nat

record NetworkInfo =
  NetID :: string
  NetAction :: resourceAction
  Subnets :: "Subnet list"

record Port =
  Proto :: string
  PortNum :: int

record ContainerInfo =
  CtID :: string
  CtAction :: resourceAction
  Pid :: int
  Ports :: "Port list"
  IPs :: "string list"

record ContainerNetwork =
  CnID :: string
  CnIP :: string

record ContainerInspectInfo =
  InspPid :: int
  InspPorts :: "Port list"
  InspNetworks :: "ContainerNetwork list"

section \<open>The cache\<close>

record Cache =
  networkInfoByID :: "string \<rightharpoonup> NetworkInfo"
  containerInfoByID :: "string \<rightharpoonup> ContainerInfo"
  proxyPortPIDsByContainerID :: "string \<rightharpoonup> int list"

definition NewCache :: Cache where
  "NewCache = \<lparr>networkInfoByID = Map.empty, containerInfoByID = Map.empty,
     proxyPortPIDsByContainerID = Map.empty\<rparr>"

definition AddNetworkInfo :: "NetworkInfo \<Rightarrow> Cache \<Rightarrow> Cache" where
  "AddNetworkInfo info c =
     c\<lparr>networkInfoByID := (networkInfoByID c)(NetID info \<mapsto> info)\<rparr>"

definition GetNetworkInfo :: "Cache \<Rightarrow> string \<Rightarrow> NetworkInfo option" where
  "GetNetworkInfo c nid = networkInfoByID c nid"

definition DeleteNetworkInfo :: "string \<Rightarrow> Cache \<Rightarrow> NetworkInfo option \<times> Cache" where
  "DeleteNetworkInfo nid c =
     (networkInfoByID c nid, c\<lparr>networkInfoByID := (networkInfoByID c)(nid := None)\<rparr>)"

definition AddContainerInfo :: "ContainerInfo \<Rightarrow> Cache \<Rightarrow> Cache" where
  "AddContainerInfo info c =
     c\<lparr>containerInfoByID := (containerInfoByID c)(CtID info \<mapsto> info),
       proxyPortPIDsByContainerID := (proxyPortPIDsByContainerID c)(CtID info \<mapsto> [])\<rparr>"

definition GetContainerInfo :: "Cache \<Rightarrow> string \<Rightarrow> ContainerInfo option" where
  "GetContainerInfo c nid = containerInfoByID c nid"

definition DeleteContainerInfo :: "string \<Rightarrow> Cache \<Rightarrow> ContainerInfo option \<times> Cache" where
  "DeleteContainerInfo nid c =
     (containerInfoByID c nid, c\<lparr>containerInfoByID := (containerInfoByID c)(nid := None)\<rparr>)"

text \<open>A missing key of a Go map reads as the zero value, here the empty slice.\<close>

definition GetProxyPortPIDs :: "Cache \<Rightarrow> string \<Rightarrow> int list" where
  "GetProxyPortPIDs c nid = (case proxyPortPIDsByContainerID c nid of None \<Rightarrow> [] | Some ps \<Rightarrow> ps)"

definition AddProxyPortPID :: "string \<Rightarrow> int \<Rightarrow> Cache \<Rightarrow> Cache" where
  "AddProxyPortPID nid pid c =
     c\<lparr>proxyPortPIDsByContainerID :=
         (proxyPortPIDsByContainerID c)(nid \<mapsto> GetProxyPortPIDs c nid @ [pid])\<rparr>"

definition DeleteProxyPortPIDs :: "string \<Rightarrow> Cache \<Rightarrow> Cache" where
  "DeleteProxyPortPIDs nid c =
     c\<lparr>proxyPortPIDsByContainerID := (proxyPortPIDsByContainerID c)(nid \<mapsto> [])\<rparr>"

section \<open>The interface of a store of keyed values\<close>

locale keyed_store =
  fixes key :: "'v \<Rightarrow> 'k"
    and add :: "'v \<Rightarrow> 's \<Rightarrow> 's"
    and get :: "'s \<Rightarrow> 'k \<Rightarrow> 'v option"
    and del :: "'k \<Rightarrow> 's \<Rightarrow> 'v option \<times> 's"
  assumes get_add: "get (add v s) k = (if k = key v then Some v else get s k)"
    and get_del: "get (snd (del k s)) k' = (if k' = k then None else get s k')"
    and del_result: "fst (del k s) = get s k"
begin

definition well_keyed :: "'s \<Rightarrow> bool" where
  "well_keyed s \<longleftrightarrow> (\<forall>k v. get s k = Some v \<longrightarrow> key v = k)"

lemma well_keyed_add: "well_keyed s \<Longrightarrow> well_keyed (add v s)"
  by (auto simp: well_keyed_def get_add)

lemma well_keyed_del: "well_keyed s \<Longrightarrow> well_keyed (snd (del k s))"
  by (auto simp: well_keyed_def get_del)

lemma del_after_add: "fst (del (key v) (add v s)) = Some v"
  by (simp add: del_result get_add)

lemma second_del_misses: "fst (del k (snd (del k s))) = None"
  by (simp add: del_result get_del)

lemma add_restores:
  "get (snd (del (key v) (add v s))) k = (if k = key v then None else get s k)"
  by (simp add: get_del get_add)

end

interpretation nets: keyed_store NetID AddNetworkInfo GetNetworkInfo DeleteNetworkInfo
  by unfold_locales (auto simp: AddNetworkInfo_def GetNetworkInfo_def DeleteNetworkInfo_def)

interpretation cts: keyed_store CtID AddContainerInfo GetContainerInfo DeleteContainerInfo
  by unfold_locales (auto simp: AddContainerInfo_def GetContainerInfo_def DeleteContainerInfo_def)

lemmas cache_defs =
  AddNetworkInfo_def GetNetworkInfo_def DeleteNetworkInfo_def
  AddContainerInfo_def GetContainerInfo_def DeleteContainerInfo_def
  AddProxyPortPID_def GetProxyPortPIDs_def DeleteProxyPortPIDs_def

text \<open>The three maps do not interfere, except that registering a container resets its PIDs.\<close>

lemma cache_frames [simp]:
  "GetContainerInfo (AddNetworkInfo n c) nid = GetContainerInfo c nid"
  "GetContainerInfo (snd (DeleteNetworkInfo k c)) nid = GetContainerInfo c nid"
  "GetProxyPortPIDs (AddNetworkInfo n c) nid = GetProxyPortPIDs c nid"
  "GetProxyPortPIDs (snd (DeleteNetworkInfo k c)) nid = GetProxyPortPIDs c nid"
  "GetNetworkInfo (AddContainerInfo i c) nid = GetNetworkInfo c nid"
  "GetNetworkInfo (snd (DeleteContainerInfo cid c)) nid = GetNetworkInfo c nid"
  "GetProxyPortPIDs (snd (DeleteContainerInfo cid c)) nid = GetProxyPortPIDs c nid"
  "GetNetworkInfo (AddProxyPortPID cid p c) nid = GetNetworkInfo c nid"
  "GetContainerInfo (AddProxyPortPID cid p c) nid = GetContainerInfo c nid"
  "GetNetworkInfo (DeleteProxyPortPIDs cid c) nid = GetNetworkInfo c nid"
  "GetContainerInfo (DeleteProxyPortPIDs cid c) nid = GetContainerInfo c nid"
  by (simp_all add: cache_defs)

lemma pids_updates [simp]:
  "GetProxyPortPIDs (AddContainerInfo i c) nid =
     (if nid = CtID i then [] else GetProxyPortPIDs c nid)"
  "GetProxyPortPIDs (AddProxyPortPID cid p c) nid =
     (if nid = cid then GetProxyPortPIDs c nid @ [p] else GetProxyPortPIDs c nid)"
  "GetProxyPortPIDs (DeleteProxyPortPIDs cid c) nid =
     (if nid = cid then [] else GetProxyPortPIDs c nid)"
  by (simp_all add: cache_defs)

end
