(* ===== verification/Dind_Docker.thy ===== *)
theory Dind_Docker
  imports Dind_Cache
begin

text \<open>
  The docker side of the supervisor (\<^verbatim>\<open>dind/docker.go\<close>): starting and awaiting \<^verbatim>\<open>dockerd\<close>, the
  pool of second octets of the host proxy subnets \<^verbatim>\<open>127.n.0.0\<close>, and the event loop that
  turns docker events into network and container messages for the main loop. The docker
  client, \<^verbatim>\<open>os/exec\<close> and the environment are parameters (\<open>docker_api\<close>, \<open>os_api\<close>) over an
  abstract world.
\<close>

section \<open>What the code calls\<close>

record ContainerJSON =
  StatePid :: int
  SettingsPorts :: "Port list"
  SettingsNetworks :: "ContainerNetwork list"

record 'w docker_api =
  NetworkInspect :: "string \<Rightarrow> 'w \<Rightarrow> (goerr + string list) \<times> 'w"
  ContainerInspect :: "string \<Rightarrow> 'w \<Rightarrow> (goerr + ContainerJSON) \<times> 'w"
  ServerVersion :: "'w \<Rightarrow> (goerr + unit) \<times> 'w"

record 'w os_api =
  LookPath :: "string \<Rightarrow> 'w \<Rightarrow> (goerr + string) \<times> 'w"
  LookupEnv :: "string \<Rightarrow> 'w \<Rightarrow> string option"
  CmdStart :: "string \<Rightarrow> string list \<Rightarrow> 'w \<Rightarrow> (goerr + int) \<times> 'w"
  Chown :: "string \<Rightarrow> int \<Rightarrow> int \<Rightarrow> 'w \<Rightarrow> (goerr + unit) \<times> 'w"

datatype DindOut = NetMsg NetworkInfo | ContMsg ContainerInfo

record 'w dind =
  dcache :: Cache
  usedHostSecondOctet :: "bool list"
  sent :: "DindOut list"
  closed :: bool
  dworld :: 'w

definition onWorld :: "('w \<Rightarrow> (goerr + 'a) \<times> 'w) \<Rightarrow> ('w dind, 'a) go" where
  "onWorld f = zoom dworld (\<lambda>w s. s\<lparr>dworld := w\<rparr>) (external f)"

section \<open>Starting the daemon\<close>

definition NewDockerClient :: "string \<Rightarrow> unit res" where
  "NewDockerClient dockerHost =
     (if dockerHost = '''' then Err (ErrorString ''empty DOCKER_HOST'') else Ok ())"

fun chownAll :: "'w os_api \<Rightarrow> int \<Rightarrow> int \<Rightarrow> string list \<Rightarrow> ('w dind, unit) go" where
  "chownAll os uid gid [] = ret ()"
| "chownAll os uid gid (d # ds) =
     andThen (onWorld (Chown os d uid gid)) (\<lambda>_. chownAll os uid gid ds)"

definition PatchRuntimeDirs :: "'w os_api \<Rightarrow> int \<Rightarrow> int \<Rightarrow> ('w dind, unit) go" where
  "PatchRuntimeDirs os uid gid =
     chownAll os uid gid [''/var/lib/docker'', ''/home/rootless/.local/share/docker'']"

definition dockerdArgs :: "string \<Rightarrow> string list \<Rightarrow> string option \<Rightarrow> string list" where
  "dockerdArgs path osArgs env =
     [''/usr/bin/sudo'',
      ''--preserve-env=DOCKER_HOST,DOCKER_TLS_CERTDIR,DOCKERD_ROOTLESS_ROOTLESSKIT_NET,DOCKERD_ROOTLESS_ROOTLESSKIT_MTU,DOCKERD_ENTRYPOINT_ARGS'',
      ''-u'', ''rootless''] @
     ([path] @ tl osArgs @ (case env of None \<Rightarrow> [] | Some e \<Rightarrow> split_on (CHR '' '') e))"

definition StartDockerd :: "'w os_api \<Rightarrow> string list \<Rightarrow> ('w dind, int) go" where
  "StartDockerd os osArgs =
     andThen (onWorld (LookPath os ''dockerd-entrypoint.sh'')) (\<lambda>path.
     andThen ask (\<lambda>s.
       onWorld (CmdStart os ''/usr/bin/sudo''
         (dockerdArgs path osArgs (LookupEnv os ''DOCKERD_ENTRYPOINT_ARGS'' (dworld s))))))"

text \<open>\<^verbatim>\<open>for i := 0; i < 15; i++\<close>: the last probe's error is the result.\<close>

fun pollVersion :: "'w docker_api \<Rightarrow> nat \<Rightarrow> goerr option \<Rightarrow> ('w dind, unit) go" where
  "pollVersion api 0 err = (case err of None \<Rightarrow> ret () | Some e \<Rightarrow> fail e)"
| "pollVersion api (Suc n) err =
     attempt (onWorld (ServerVersion api)) (\<lambda>r. case r of
         Inr _ \<Rightarrow> ret ()
       | Inl e \<Rightarrow> pollVersion api n (Some e))"

definition WaitForDockerd :: "'w docker_api \<Rightarrow> ('w dind, unit) go" where
  "WaitForDockerd api = pollVersion api 15 None"

section \<open>The pool of host proxy octets\<close>

function firstFree :: "bool list \<Rightarrow> nat \<Rightarrow> nat option" where
  "firstFree u i =
     (if i < length u then (if \<not> u ! i then Some i else firstFree u (Suc i)) else None)"
  by pat_completeness auto
termination
  by (relation "measure (\<lambda>(u, i). length u - i)") auto

declare firstFree.simps [simp del]

definition markOctet :: "bool list \<Rightarrow> (nat \<times> bool list) option" where
  "markOctet u = (case firstFree u 1 of None \<Rightarrow> None | Some i \<Rightarrow> Some (i, u[i := True]))"

definition markAndGetFirstAvailableHostSecondOctet :: "('w dind, nat) go" where
  "markAndGetFirstAvailableHostSecondOctet s =
     (case markOctet (usedHostSecondOctet s) of
        None \<Rightarrow> (Panic ''no available host proxy subnet'', s)
      | Some (i, u) \<Rightarrow> (Ok i, s\<lparr>usedHostSecondOctet := u\<rparr>))"

text \<open>
  \<^verbatim>\<open>usedHostSecondOctet[i] = false\<close>; an index outside the array panics.
\<close>

definition releaseOctet :: "nat \<Rightarrow> ('w dind, unit) go" where
  "releaseOctet i s =
     (if i < length (usedHostSecondOctet s)
      then (Ok (), s\<lparr>usedHostSecondOctet := (usedHostSecondOctet s)[i := False]\<rparr>)
      else (Panic ''index out of range'', s))"

section \<open>Rewriting addresses\<close>

text \<open>
  \<^verbatim>\<open>^[0-9]{1,3}\.[0-9]{1,3}\<close>: the text after the leftmost match at the start of the
  string. A repetition takes as many digits as it may; a dot never matches a digit, so
  backtracking in the first group cannot help.
\<close>

definition afterTwoOctets :: "string \<Rightarrow> string option" where
  "afterTwoOctets str =
     (let d1 = takeWhile is_digit str; r1 = drop (length d1) str in
      if d1 = [] \<or> length d1 > 3 then None
      else case r1 of
             [] \<Rightarrow> None
           | c # r2 \<Rightarrow>
               if c \<noteq> CHR ''.'' then None
               else let d2 = take 3 (takeWhile is_digit r2) in
                    if d2 = [] then None else Some (drop (length d2) r2))"

definition dockerSubnetOctetRepl :: "string \<Rightarrow> string \<Rightarrow> string" where
  "dockerSubnetOctetRepl str repl =
     (case afterTwoOctets str of None \<Rightarrow> str | Some rest \<Rightarrow> repl @ rest)"

definition hostProxySubnetFirstOctet :: nat where
  "hostProxySubnetFirstOctet = 127"

definition hostProxyTwoOctets :: "nat \<Rightarrow> string" where
  "hostProxyTwoOctets n = show_nat hostProxySubnetFirstOctet @ ''.'' @ show_nat n"

definition proxySubnet :: "string \<Rightarrow> nat \<Rightarrow> Subnet" where
  "proxySubnet d n =
     \<lparr>DockerSubnet = d, HostProxySubnet = dockerSubnetOctetRepl d (hostProxyTwoOctets n),
      SecondOctet = n\<rparr>"

section \<open>The event loop\<close>

definition resourceKindByString :: "string \<rightharpoonup> resourceKind" where
  "resourceKindByString =
     [''network'' \<mapsto> resourceKindNetwork, ''container'' \<mapsto> resourceKindContainer]"

definition resourceActionByString :: "string \<rightharpoonup> resourceAction" where
  "resourceActionByString =
     [''create'' \<mapsto> resourceActionCreate, ''destroy'' \<mapsto> resourceActionDestroy,
      ''start'' \<mapsto> resourceActionStart, ''stop'' \<mapsto> resourceActionStop,
      ''die'' \<mapsto> resourceActionStop]"

record EventMsg =
  MsgType :: string
  MsgAction :: string
  ActorID :: string

definition getNetworkSubnets :: "'w docker_api \<Rightarrow> string \<Rightarrow> ('w dind, string list) go" where
  "getNetworkSubnets api nid =
     andThen (onWorld (NetworkInspect api nid)) (\<lambda>cfg. ret (filter (\<lambda>d. d \<noteq> '''') cfg))"

definition getContainerInspectInfo ::
    "'w docker_api \<Rightarrow> string \<Rightarrow> ('w dind, ContainerInspectInfo) go" where
  "getContainerInspectInfo api cid =
     andThen (onWorld (ContainerInspect api cid)) (\<lambda>j.
       ret \<lparr>InspPid = StatePid j, InspPorts = SettingsPorts j, InspNetworks = SettingsNetworks j\<rparr>)"

fun assignSubnets :: "string list \<Rightarrow> ('w dind, Subnet list) go" where
  "assignSubnets [] = ret []"
| "assignSubnets (d # ds) =
     andThen markAndGetFirstAvailableHostSecondOctet (\<lambda>n.
     andThen (assignSubnets ds) (\<lambda>subs. ret (proxySubnet d n # subs)))"

fun releaseSubnets :: "Subnet list \<Rightarrow> ('w dind, unit) go" where
  "releaseSubnets [] = ret ()"
| "releaseSubnets (sn # sns) = andThen (releaseOctet (SecondOctet sn)) (\<lambda>_. releaseSubnets sns)"

definition send :: "DindOut \<Rightarrow> ('w dind, unit) go" where
  "send m = upd (\<lambda>s. s\<lparr>sent := sent s @ [m]\<rparr>)"

definition onNetworkCreate :: "'w docker_api \<Rightarrow> string \<Rightarrow> ('w dind, unit) go" where
  "onNetworkCreate api nid =
     attempt (getNetworkSubnets api nid) (\<lambda>r.
     andThen (assignSubnets (case r of Inl _ \<Rightarrow> [] | Inr ds \<Rightarrow> ds)) (\<lambda>subs.
       let info = \<lparr>NetID = nid, NetAction = resourceActionCreate, Subnets = subs\<rparr> in
       andThen (upd (\<lambda>s. s\<lparr>dcache := AddNetworkInfo info (dcache s)\<rparr>)) (\<lambda>_.
       send (NetMsg info))))"

definition onNetworkDestroy :: "string \<Rightarrow> ('w dind, unit) go" where
  "onNetworkDestroy nid =
     andThen ask (\<lambda>s. case GetNetworkInfo (dcache s) nid of
         None \<Rightarrow> ret ()
       | Some info \<Rightarrow>
           andThen (releaseSubnets (Subnets info)) (\<lambda>_.
           andThen (upd (\<lambda>s. s\<lparr>dcache := snd (DeleteNetworkInfo nid (dcache s))\<rparr>)) (\<lambda>_.
           send (NetMsg (info\<lparr>NetAction := resourceActionDestroy\<rparr>)))))"

definition containerIPs :: "Cache \<Rightarrow> ContainerNetwork list \<Rightarrow> string list" where
  "containerIPs c cns = concat (map (\<lambda>cn.
     case GetNetworkInfo c (CnID cn) of
       None \<Rightarrow> []
     | Some n \<Rightarrow> map (\<lambda>sn. dockerSubnetOctetRepl (CnIP cn) (hostProxyTwoOctets (SecondOctet sn)))
                    (Subnets n)) cns)"

definition onContainerStart :: "'w docker_api \<Rightarrow> string \<Rightarrow> ('w dind, unit) go" where
  "onContainerStart api cid =
     attempt (getContainerInspectInfo api cid) (\<lambda>r. case r of
         Inl _ \<Rightarrow> ret ()
       | Inr insp \<Rightarrow>
           andThen ask (\<lambda>s.
           let info = \<lparr>CtID = cid, CtAction = resourceActionStart, Pid = InspPid insp,
                       Ports = InspPorts insp, IPs = containerIPs (dcache s) (InspNetworks insp)\<rparr> in
           andThen (upd (\<lambda>s. s\<lparr>dcache := AddContainerInfo info (dcache s)\<rparr>)) (\<lambda>_.
           send (ContMsg info))))"

definition onContainerStop :: "string \<Rightarrow> ('w dind, unit) go" where
  "onContainerStop cid =
     andThen ask (\<lambda>s. case DeleteContainerInfo cid (dcache s) of
         (None, c) \<Rightarrow> upd (\<lambda>s. s\<lparr>dcache := c\<rparr>)
       | (Some info, c) \<Rightarrow>
           andThen (upd (\<lambda>s. s\<lparr>dcache := c\<rparr>)) (\<lambda>_.
           send (ContMsg (info\<lparr>CtAction := resourceActionStop\<rparr>))))"

definition handleEvent :: "'w docker_api \<Rightarrow> EventMsg \<Rightarrow> ('w dind, unit) go" where
  "handleEvent api msg =
     (case (resourceKindByString (MsgType msg), resourceActionByString (MsgAction msg)) of
        (Some resourceKindNetwork, Some resourceActionCreate) \<Rightarrow> onNetworkCreate api (ActorID msg)
      | (Some resourceKindNetwork, Some resourceActionDestroy) \<Rightarrow> onNetworkDestroy (ActorID msg)
      | (Some resourceKindContainer, Some resourceActionStart) \<Rightarrow> onContainerStart api (ActorID msg)
      | (Some resourceKindContainer, Some resourceActionStop) \<Rightarrow> onContainerStop (ActorID msg)
      | _ \<Rightarrow> ret ())"

datatype loop_in = LoopErr "goerr option" | LoopMsg EventMsg

definition io_EOF :: goerr where
  "io_EOF = Sentinel ''EOF''"

text \<open>
  The goroutine of \<^verbatim>\<open>GetResourcesInfoFromEvents\<close> over the inputs its \<^verbatim>\<open>select\<close> receives:
  end of file or a nil error closes both channels and ends it, any other error
  subscribes again.
\<close>

fun eventLoop :: "'w docker_api \<Rightarrow> loop_in list \<Rightarrow> ('w dind, unit) go" where
  "eventLoop api [] = ret ()"
| "eventLoop api (LoopErr e # ins) =
     (if e = Some io_EOF \<or> e = None then upd (\<lambda>s. s\<lparr>closed := True\<rparr>) else eventLoop api ins)"
| "eventLoop api (LoopMsg m # ins) = andThen (handleEvent api m) (\<lambda>_. eventLoop api ins)"

definition initDind :: "'w \<Rightarrow> 'w dind" where
  "initDind w = \<lparr>dcache = NewCache, usedHostSecondOctet = replicate 256 False, sent = [],
     closed = False, dworld = w\<rparr>"

section \<open>Correctness of the octet pool\<close>

lemma firstFree_Some:
  "firstFree u i = Some k \<Longrightarrow> i \<le> k \<and> k < length u \<and> \<not> u ! k \<and> (\<forall>j. i \<le> j \<longrightarrow> j < k \<longrightarrow> u ! j)"
proof (induction u i rule: firstFree.induct)
  case (1 u i)
  show ?case
  proof (cases "i < length u \<and> u ! i")
    case True
    then have "firstFree u (Suc i) = Some k"
      using "1.prems" by (simp add: firstFree.simps [of u i])
    with True "1.IH" have IH: "Suc i \<le> k \<and> k < length u \<and> \<not> u ! k \<and> (\<forall>j. Suc i \<le> j \<longrightarrow> j < k \<longrightarrow> u ! j)"
      by simp
    then show ?thesis using True by (metis Suc_leD Suc_leI le_neq_implies_less)
  next
    case False
    with "1.prems" show ?thesis
      by (auto simp: firstFree.simps [of u i] split: if_splits)
  qed
qed

lemma firstFree_None: "firstFree u i = None \<longleftrightarrow> (\<forall>j. i \<le> j \<longrightarrow> j < length u \<longrightarrow> u ! j)"
proof (induction u i rule: firstFree.induct)
  case (1 u i)
  show ?case
  proof (cases "i < length u \<and> u ! i")
    case True
    then have "firstFree u i = firstFree u (Suc i)" by (simp add: firstFree.simps [of u i])
    with True "1.IH" show ?thesis by (metis Suc_leD Suc_leI le_neq_implies_less)
  next
    case False
    then show ?thesis by (auto simp: firstFree.simps [of u i])
  qed
qed

lemma nth_clear: "j < length u \<Longrightarrow> u[i := False] ! j \<longleftrightarrow> u ! j \<and> j \<noteq> i"
  by (cases "i < length u") (auto simp: nth_list_update list_update_beyond)

text \<open>
  What the network handlers need of the pool: an allocated octet was free and is the only
  change, and a release undoes it.
\<close>

definition taken :: "bool list \<Rightarrow> nat set" where
  "taken u = {i. i < length u \<and> u ! i}"

definition pool_ok :: "bool list \<Rightarrow> bool" where
  "pool_ok u \<longleftrightarrow> length u = 256 \<and> \<not> u ! 0"

locale octet_pool =
  fixes alloc :: "'p \<Rightarrow> (nat \<times> 'p) option"
    and free :: "nat \<Rightarrow> 'p \<Rightarrow> 'p"
    and used :: "'p \<Rightarrow> nat set"
    and ok :: "'p \<Rightarrow> bool"
  assumes alloc_ok: "ok p \<Longrightarrow> alloc p = Some (i, q) \<Longrightarrow> ok q"
    and alloc_fresh: "ok p \<Longrightarrow> alloc p = Some (i, q) \<Longrightarrow> i \<notin> used p \<and> 0 < i \<and> i < 256"
    and alloc_used: "ok p \<Longrightarrow> alloc p = Some (i, q) \<Longrightarrow> used q = insert i (used p)"
    and free_ok: "ok p \<Longrightarrow> ok (free i p)"
    and free_used: "ok p \<Longrightarrow> used (free i p) = used p - {i}"
    and used_range: "ok p \<Longrightarrow> used p \<subseteq> {1..<256}"
    and alloc_none: "ok p \<Longrightarrow> alloc p = None \<longleftrightarrow> {1..<256} \<subseteq> used p"
begin

text \<open>Allocating for a list of requests hands out distinct octets, none in use before.\<close>

fun alloc_list :: "nat \<Rightarrow> 'p \<Rightarrow> (nat list \<times> 'p) option" where
  "alloc_list 0 p = Some ([], p)"
| "alloc_list (Suc n) p = (case alloc p of None \<Rightarrow> None | Some (i, q) \<Rightarrow>
     (case alloc_list n q of None \<Rightarrow> None | Some (is, r) \<Rightarrow> Some (i # is, r)))"

lemma alloc_list_spec:
  "ok p \<Longrightarrow> alloc_list n p = Some (is, q) \<Longrightarrow>
     ok q \<and> length is = n \<and> distinct is \<and> set is \<inter> used p = {} \<and> used q = set is \<union> used p
     \<and> (\<forall>i\<in>set is. 0 < i \<and> i < 256)"
proof (induction n arbitrary: p "is" q)
  case (Suc n)
  then obtain i r is' where a: "alloc p = Some (i, r)" and l: "alloc_list n r = Some (is', q)"
    and is': "is = i # is'"
    by (auto split: option.splits prod.splits)
  from Suc.prems(1) a have r: "ok r" "used r = insert i (used p)" "i \<notin> used p" "0 < i \<and> i < 256"
    using alloc_ok alloc_used alloc_fresh by blast+
  from Suc.IH [OF r(1) l] r is' show ?case by auto
qed simp

text \<open>The pool is exhausted exactly when fewer than \<open>n\<close> of its 255 octets are left.\<close>

lemma alloc_list_None_iff: "ok p \<Longrightarrow> alloc_list n p = None \<longleftrightarrow> 255 < card (used p) + n"
proof (induction n arbitrary: p)
  case 0
  have "card (used p) \<le> card {1..<256::nat}"
    by (intro card_mono used_range) (use 0 in simp_all)
  then show ?case by simp
next
  case (Suc n)
  have fin: "finite (used p)" using used_range [OF Suc.prems] finite_subset by blast
  show ?case
  proof (cases "alloc p")
    case None
    then have "used p = {1..<256}" using alloc_none used_range Suc.prems by blast
    with None show ?thesis by simp
  next
    case (Some iq)
    obtain i q where iq: "iq = (i, q)" by (cases iq)
    with Some Suc.prems have q: "ok q" "used q = insert i (used p)" "i \<notin> used p"
      using alloc_ok alloc_used alloc_fresh by blast+
    have "card (used q) = Suc (card (used p))" using q fin by simp
    with Suc.IH [OF q(1)] Some iq show ?thesis by (auto split: option.splits)
  qed
qed

fun free_list :: "nat list \<Rightarrow> 'p \<Rightarrow> 'p" where
  "free_list [] p = p"
| "free_list (i # is) p = free_list is (free i p)"

lemma free_list_spec: "ok p \<Longrightarrow> ok (free_list is p) \<and> used (free_list is p) = used p - set is"
  by (induction "is" arbitrary: p) (auto simp: free_ok free_used)

lemma alloc_free_list:
  "ok p \<Longrightarrow> alloc_list n p = Some (is, q) \<Longrightarrow> used (free_list is q) = used p"
  using alloc_list_spec [of p n "is" q] free_list_spec [of q "is"] by auto

end

interpretation octets: octet_pool markOctet "\<lambda>i u. u[i := False]" taken pool_ok
proof unfold_locales
  fix p q i
  assume "pool_ok p" and a: "markOctet p = Some (i, q)"
  then have l: "length p = 256" "\<not> p ! 0" by (simp_all add: pool_ok_def)
  from a have i: "firstFree p 1 = Some i" and q: "q = p[i := True]"
    by (auto simp: markOctet_def split: option.splits)
  note f = firstFree_Some [OF i]
  show "pool_ok q" using l f q by (auto simp: pool_ok_def nth_list_update)
  show "i \<notin> taken p \<and> 0 < i \<and> i < 256" using l f by (auto simp: taken_def)
  show "taken q = insert i (taken p)" using f q by (auto simp: taken_def nth_list_update)
next
  fix p :: "bool list"
  assume "pool_ok p"
  then have l: "length p = 256" "\<not> p ! 0" by (simp_all add: pool_ok_def)
  show "taken p \<subseteq> {1..<256}" using l by (auto simp: taken_def Suc_le_eq) (metis neq0_conv)
  show "(markOctet p = None) \<longleftrightarrow> {1..<256} \<subseteq> taken p"
    using l firstFree_None [of p 1] by (auto simp: markOctet_def taken_def split: option.splits)
qed (auto simp: pool_ok_def taken_def nth_clear)

lemma assignSubnets_alloc:
  "assignSubnets ds s =
     (case octets.alloc_list (length ds) (usedHostSecondOctet s) of
        Some (is, u) \<Rightarrow> (Ok (map2 proxySubnet ds is), s\<lparr>usedHostSecondOctet := u\<rparr>)
      | None \<Rightarrow> (Panic ''no available host proxy subnet'', snd (assignSubnets ds s)))"
proof (induction ds arbitrary: s)
  case (Cons d ds)
  show ?case
  proof (cases "markOctet (usedHostSecondOctet s)")
    case None
    then show ?thesis by (simp add: go_simps markAndGetFirstAvailableHostSecondOctet_def)
  next
    case (Some iu)
    obtain i u where iu: "iu = (i, u)" by (cases iu)
    show ?thesis
      using Some iu Cons.IH [of "s\<lparr>usedHostSecondOctet := u\<rparr>"]
      by (auto simp: go_simps markAndGetFirstAvailableHostSecondOctet_def split: option.splits prod.splits res.splits)
  qed
qed (simp add: go_simps)


lemma releaseSubnets_free:
  "pool_ok (usedHostSecondOctet s) \<Longrightarrow> (\<forall>sn\<in>set sns. SecondOctet sn < 256) \<Longrightarrow>
   releaseSubnets sns s =
     (Ok (), s\<lparr>usedHostSecondOctet := octets.free_list (map SecondOctet sns) (usedHostSecondOctet s)\<rparr>)"
proof (induction sns arbitrary: s)
  case (Cons sn sns)
  let ?s = "s\<lparr>usedHostSecondOctet := (usedHostSecondOctet s)[SecondOctet sn := False]\<rparr>"
  have "releaseOctet (SecondOctet sn) s = (Ok (), ?s)"
    using Cons.prems by (simp add: releaseOctet_def pool_ok_def)
  moreover have "pool_ok (usedHostSecondOctet ?s)"
    using Cons.prems octets.free_ok by simp
  ultimately show ?case using Cons.IH [of ?s] Cons.prems by (simp add: go_simps)
qed (simp add: go_simps)

definition octs :: "NetworkInfo \<Rightarrow> nat list" where
  "octs n = map SecondOctet (Subnets n)"

lemma octs_proxySubnets:
  "length is = length ds \<Longrightarrow> octs \<lparr>NetID = k, NetAction = a, Subnets = map2 proxySubnet ds is\<rparr> = is"
  by (induction "is" ds rule: list_induct2) (auto simp: proxySubnet_def octs_def)

text \<open>
  A table of networks owns its octets within a set of marked ones: each network's octets
  are distinct and marked, and two networks share none.
\<close>

definition owns :: "(string \<rightharpoonup> NetworkInfo) \<Rightarrow> nat set \<Rightarrow> bool" where
  "owns m T \<longleftrightarrow>
     (\<forall>k n. m k = Some n \<longrightarrow> distinct (octs n) \<and> set (octs n) \<subseteq> T) \<and>
     (\<forall>k k' n n'. m k = Some n \<longrightarrow> m k' = Some n' \<longrightarrow> k \<noteq> k' \<longrightarrow> set (octs n) \<inter> set (octs n') = {})"

lemma ownsD:
  "owns m T \<Longrightarrow> m k = Some n \<Longrightarrow> distinct (octs n) \<and> set (octs n) \<subseteq> T"
  "owns m T \<Longrightarrow> m k = Some n \<Longrightarrow> m k' = Some n' \<Longrightarrow> k \<noteq> k' \<Longrightarrow> set (octs n) \<inter> set (octs n') = {}"
  by (simp_all add: owns_def)

lemma owns_empty [simp]: "owns Map.empty T"
  by (simp add: owns_def)

lemma owns_upd:
  assumes o: "owns m T" and n: "distinct (octs n)" "set (octs n) \<inter> T = {}"
  shows "owns (m(k \<mapsto> n)) (set (octs n) \<union> T)"
  unfolding owns_def
proof (intro conjI allI impI)
  fix j p assume "(m(k \<mapsto> n)) j = Some p"
  then show "distinct (octs p)" and "set (octs p) \<subseteq> set (octs n) \<union> T"
    using n ownsD(1) [OF o] by (auto split: if_splits)
next
  fix j j' p p' assume *: "(m(k \<mapsto> n)) j = Some p" "(m(k \<mapsto> n)) j' = Some p'" "j \<noteq> j'"
  show "set (octs p) \<inter> set (octs p') = {}"
  proof (cases "j = k \<or> j' = k")
    case True
    with * n ownsD(1) [OF o] show ?thesis by (fastforce split: if_splits)
  next
    case False
    with * ownsD(2) [OF o] show ?thesis by simp
  qed
qed

lemma owns_del:
  assumes o: "owns m T"
  shows "owns (m(k := None)) (T - (case m k of None \<Rightarrow> {} | Some n \<Rightarrow> set (octs n)))"
  unfolding owns_def
proof (intro conjI allI impI)
  fix j p assume *: "(m(k := None)) j = Some p"
  then have j: "m j = Some p" "j \<noteq> k" by (auto split: if_splits)
  show "distinct (octs p)" using ownsD(1) [OF o j(1)] by simp
  show "set (octs p) \<subseteq> T - (case m k of None \<Rightarrow> {} | Some n \<Rightarrow> set (octs n))"
  proof (cases "m k")
    case None
    then show ?thesis using ownsD(1) [OF o j(1)] by simp
  next
    case (Some n)
    then show ?thesis using ownsD(1) [OF o j(1)] ownsD(2) [OF o j(1) Some j(2)] by auto
  qed
next
  fix j j' p p' assume "(m(k := None)) j = Some p" "(m(k := None)) j' = Some p'" "j \<noteq> j'"
  then show "set (octs p) \<inter> set (octs p') = {}"
    using ownsD(2) [OF o] by (auto split: if_splits)
qed

definition octet_inv :: "'w dind \<Rightarrow> bool" where
  "octet_inv s \<longleftrightarrow> pool_ok (usedHostSecondOctet s) \<and>
     owns (GetNetworkInfo (dcache s)) (taken (usedHostSecondOctet s))"

definition cached_octets :: "Cache \<Rightarrow> nat set" where
  "cached_octets c = (\<Union>n\<in>ran (GetNetworkInfo c). set (octs n))"

lemma onNetworkCreate_spec:
  assumes ok: "pool_ok (usedHostSecondOctet s)" and run: "onNetworkCreate api nid s = (Ok (), s')"
  shows "\<exists>n. NetID n = nid \<and> GetNetworkInfo (dcache s') = (GetNetworkInfo (dcache s))(nid \<mapsto> n) \<and>
     pool_ok (usedHostSecondOctet s') \<and> distinct (octs n) \<and>
     set (octs n) \<inter> taken (usedHostSecondOctet s) = {} \<and>
     taken (usedHostSecondOctet s') = set (octs n) \<union> taken (usedHostSecondOctet s)"
proof -
  obtain r t where g: "getNetworkSubnets api nid s = (r, t)" and t: "usedHostSecondOctet t = usedHostSecondOctet s"
      "dcache t = dcache s" and np: "\<And>p. r \<noteq> Panic p"
    by (cases "getNetworkSubnets api nid s")
       (auto simp: getNetworkSubnets_def onWorld_def go_simps split: prod.splits sum.splits res.splits)
  define ds where "ds = (case r of Ok ds \<Rightarrow> ds | _ \<Rightarrow> [])"
  from run g np obtain subs t' where a: "assignSubnets ds t = (Ok subs, t')" and
      s': "s' = t'\<lparr>dcache := AddNetworkInfo \<lparr>NetID = nid, NetAction = resourceActionCreate, Subnets = subs\<rparr> (dcache t'),
             sent := sent t' @ [NetMsg \<lparr>NetID = nid, NetAction = resourceActionCreate, Subnets = subs\<rparr>]\<rparr>"
    by (auto simp: onNetworkCreate_def ds_def go_simps send_def Let_def split: prod.splits sum.splits res.splits)
  from a obtain "is" u where al: "octets.alloc_list (length ds) (usedHostSecondOctet s) = Some (is, u)"
      and subs: "subs = map2 proxySubnet ds is" and t': "t' = t\<lparr>usedHostSecondOctet := u\<rparr>"
    by (subst (asm) assignSubnets_alloc) (auto simp: t split: option.splits)
  note spec = octets.alloc_list_spec [OF ok al]
  have "octs \<lparr>NetID = nid, NetAction = resourceActionCreate, Subnets = subs\<rparr> = is"
    using subs spec by (simp only: octs_proxySubnets)
  with spec s' t' t show ?thesis
    by (intro exI [of _ "\<lparr>NetID = nid, NetAction = resourceActionCreate, Subnets = subs\<rparr>"])
       (auto simp: AddNetworkInfo_def GetNetworkInfo_def fun_eq_iff)
qed

lemma onNetworkDestroy_spec:
  assumes inv: "octet_inv s" and run: "onNetworkDestroy nid s = (r, s')"
  shows "r = Ok () \<and> pool_ok (usedHostSecondOctet s') \<and>
     GetNetworkInfo (dcache s') = (GetNetworkInfo (dcache s))(nid := None) \<and>
     taken (usedHostSecondOctet s') = taken (usedHostSecondOctet s) -
       (case GetNetworkInfo (dcache s) nid of None \<Rightarrow> {} | Some n \<Rightarrow> set (octs n))"
proof (cases "GetNetworkInfo (dcache s) nid")
  case None
  then have "(GetNetworkInfo (dcache s))(nid := None) = GetNetworkInfo (dcache s)"
    by (simp add: fun_eq_iff)
  with None run inv show ?thesis
    by (auto simp: onNetworkDestroy_def go_simps octet_inv_def)
next
  case (Some n)
  have ok: "pool_ok (usedHostSecondOctet s)" using inv by (simp add: octet_inv_def)
  have "set (octs n) \<subseteq> taken (usedHostSecondOctet s)"
    using inv Some unfolding octet_inv_def owns_def by blast
  then have lt: "\<forall>sn\<in>set (Subnets n). SecondOctet sn < 256"
    using octets.used_range [OF ok] by (fastforce simp: octs_def)
  show ?thesis
    using run Some releaseSubnets_free [OF ok lt] octets.free_list_spec [OF ok, of "octs n"]
    by (auto simp: onNetworkDestroy_def go_simps send_def octs_def GetNetworkInfo_def DeleteNetworkInfo_def)
qed

lemma octet_inv_create [inv_intros]:
  assumes "octet_inv s" and "onNetworkCreate api nid s = (Ok (), s')"
  shows "octet_inv s'"
  using assms(1) onNetworkCreate_spec [OF _ assms(2)] owns_upd
  unfolding octet_inv_def by metis

lemma octet_inv_destroy [inv_intros]:
  assumes "octet_inv s" and "onNetworkDestroy nid s = (r, s')"
  shows "octet_inv s'"
  using assms(1) onNetworkDestroy_spec [OF assms] owns_del
  unfolding octet_inv_def by metis

section \<open>Invariants of the event loop\<close>

lemma onContainerStart_frame:
  "onContainerStart api cid s = (r, s') \<Longrightarrow>
     r = Ok () \<and> usedHostSecondOctet s' = usedHostSecondOctet s \<and>
     GetNetworkInfo (dcache s') = GetNetworkInfo (dcache s)"
  by (auto simp: onContainerStart_def getContainerInspectInfo_def onWorld_def go_simps send_def Let_def
      fun_eq_iff split: prod.splits sum.splits res.splits)

lemma onContainerStop_frame:
  "onContainerStop cid s = (r, s') \<Longrightarrow>
     r = Ok () \<and> usedHostSecondOctet s' = usedHostSecondOctet s \<and>
     GetNetworkInfo (dcache s') = GetNetworkInfo (dcache s)"
  by (auto simp: onContainerStop_def DeleteContainerInfo_def go_simps send_def GetNetworkInfo_def
      fun_eq_iff split: option.splits)

text \<open>Which handler an event reaches.\<close>

lemma kindByString_iff:
  "resourceKindByString t = Some resourceKindNetwork \<longleftrightarrow> t = ''network''"
  "resourceKindByString t = Some resourceKindContainer \<longleftrightarrow> t = ''container''"
  by (simp_all add: resourceKindByString_def)

lemma actionByString_iff:
  "resourceActionByString t = Some resourceActionCreate \<longleftrightarrow> t = ''create''"
  "resourceActionByString t = Some resourceActionDestroy \<longleftrightarrow> t = ''destroy''"
  "resourceActionByString t = Some resourceActionStart \<longleftrightarrow> t = ''start''"
  "resourceActionByString t = Some resourceActionStop \<longleftrightarrow> t = ''stop'' \<or> t = ''die''"
  by (simp_all add: resourceActionByString_def)

lemma handleEvent_cases:
  obtains (net_create) "handleEvent api m = onNetworkCreate api (ActorID m)"
      "MsgType m = ''network''" "MsgAction m = ''create''"
    | (net_destroy) "handleEvent api m = onNetworkDestroy (ActorID m)"
      "MsgType m = ''network''" "MsgAction m = ''destroy''"
    | (ct_start) "handleEvent api m = onContainerStart api (ActorID m)"
      "MsgType m = ''container''" "MsgAction m = ''start''"
    | (ct_stop) "handleEvent api m = onContainerStop (ActorID m)"
      "MsgType m = ''container''" "MsgAction m = ''stop'' \<or> MsgAction m = ''die''"
    | (other) "handleEvent api m = ret ()"
      "\<not> (MsgType m = ''network'' \<and> (MsgAction m = ''create'' \<or> MsgAction m = ''destroy''))"
      "\<not> (MsgType m = ''container'' \<and>
         (MsgAction m = ''start'' \<or> MsgAction m = ''stop'' \<or> MsgAction m = ''die''))"
proof (cases "\<exists>k a. resourceKindByString (MsgType m) = Some k \<and> resourceActionByString (MsgAction m) = Some a")
  case False
  then have "handleEvent api m = ret ()"
    by (cases "resourceKindByString (MsgType m)"; cases "resourceActionByString (MsgAction m)")
       (auto simp: handleEvent_def split: resourceKind.splits)
  moreover have "\<not> (MsgType m = ''network'' \<and> (MsgAction m = ''create'' \<or> MsgAction m = ''destroy''))"
    using False by (metis actionByString_iff(1,2) kindByString_iff(1))
  moreover have "\<not> (MsgType m = ''container'' \<and>
      (MsgAction m = ''start'' \<or> MsgAction m = ''stop'' \<or> MsgAction m = ''die''))"
    using False by (metis actionByString_iff(3,4) kindByString_iff(2))
  ultimately show ?thesis by (rule other)
next
  case True
  then obtain k a where ka: "resourceKindByString (MsgType m) = Some k" "resourceActionByString (MsgAction m) = Some a"
    by blast
  note h = handleEvent_def [of api m, unfolded ka prod.case option.case]
  show ?thesis
    using that h ka by (cases k; cases a) (auto simp: kindByString_iff actionByString_iff)
qed

lemma octet_inv_handleEvent [inv_intros]:
  assumes "octet_inv s" and "handleEvent api m s = (Ok (), s')"
  shows "octet_inv s'"
proof (cases api m rule: handleEvent_cases)
  case net_create
  with assms show ?thesis by (auto intro: octet_inv_create)
next
  case net_destroy
  with assms show ?thesis by (auto intro: octet_inv_destroy)
next
  case ct_start
  with assms onContainerStart_frame [of api "ActorID m" s] show ?thesis by (auto simp: octet_inv_def)
next
  case ct_stop
  with assms onContainerStop_frame [of "ActorID m" s] show ?thesis by (auto simp: octet_inv_def)
next
  case other
  with assms show ?thesis by (simp add: ret_def)
qed

lemma eventLoop_step:
  "eventLoop api (LoopMsg m # ins) s = (Ok (), s') \<longleftrightarrow>
     (\<exists>t. handleEvent api m s = (Ok (), t) \<and> eventLoop api ins t = (Ok (), s'))"
  by (auto simp: andThen_Ok_iff)

lemma octet_inv_eventLoop:
  "octet_inv s \<Longrightarrow> eventLoop api ins s = (Ok (), s') \<Longrightarrow> octet_inv s'"
proof (induction api ins arbitrary: s rule: eventLoop.induct)
  case (2 api e ins)
  then show ?case by (auto simp: upd_def octet_inv_def split: if_splits)
next
  case (3 api m ins)
  then show ?case by (auto simp only: eventLoop_step intro: octet_inv_handleEvent)
qed (simp add: ret_def)

lemma octet_inv_init: "octet_inv (initDind w)"
  by (simp add: octet_inv_def initDind_def pool_ok_def NewCache_def GetNetworkInfo_def [abs_def])

section \<open>No octet leaks\<close>

text \<open>
  Docker announces a network once: a \<^verbatim>\<open>create\<close> event only names an identifier that is not
  known at that moment.
\<close>

fun freshCreates :: "string set \<Rightarrow> loop_in list \<Rightarrow> bool" where
  "freshCreates K [] = True"
| "freshCreates K (LoopErr e # ins) = freshCreates K ins"
| "freshCreates K (LoopMsg m # ins) =
     (if MsgType m = ''network'' \<and> MsgAction m = ''create''
      then ActorID m \<notin> K \<and> freshCreates (insert (ActorID m) K) ins
      else if MsgType m = ''network'' \<and> MsgAction m = ''destroy''
      then freshCreates (K - {ActorID m}) ins
      else freshCreates K ins)"

definition octet_exact :: "string set \<Rightarrow> 'w dind \<Rightarrow> bool" where
  "octet_exact K s \<longleftrightarrow> octet_inv s \<and> dom (GetNetworkInfo (dcache s)) = K \<and>
     taken (usedHostSecondOctet s) = cached_octets (dcache s)"

lemma cached_octets_alt: "cached_octets c = {i. \<exists>k n. GetNetworkInfo c k = Some n \<and> i \<in> set (octs n)}"
  by (auto simp: cached_octets_def ran_def)

lemma octet_exact_create:
  assumes "octet_exact K s" and "nid \<notin> K" and run: "onNetworkCreate api nid s = (Ok (), s')"
  shows "octet_exact (insert nid K) s'"
proof -
  have inv: "octet_inv s" and K: "dom (GetNetworkInfo (dcache s)) = K"
    and T: "taken (usedHostSecondOctet s) = cached_octets (dcache s)"
    using assms(1) by (simp_all add: octet_exact_def)
  have new: "GetNetworkInfo (dcache s) nid = None" using K assms(2) by auto
  obtain n where n: "GetNetworkInfo (dcache s') = (GetNetworkInfo (dcache s))(nid \<mapsto> n)"
      "taken (usedHostSecondOctet s') = set (octs n) \<union> taken (usedHostSecondOctet s)"
    using onNetworkCreate_spec [OF _ run] inv by (auto simp: octet_inv_def)
  have "cached_octets (dcache s') = set (octs n) \<union> cached_octets (dcache s)"
    unfolding cached_octets_def n(1) using new by simp
  then show ?thesis
    using octet_inv_create [OF inv run] n K T by (simp add: octet_exact_def)
qed

lemma octet_exact_destroy:
  assumes "octet_exact K s" and run: "onNetworkDestroy nid s = (r, s')"
  shows "octet_exact (K - {nid}) s'"
proof -
  have inv: "octet_inv s" and K: "dom (GetNetworkInfo (dcache s)) = K"
    and T: "taken (usedHostSecondOctet s) = cached_octets (dcache s)"
    using assms(1) by (simp_all add: octet_exact_def)
  let ?m = "GetNetworkInfo (dcache s)"
  let ?R = "case ?m nid of None \<Rightarrow> {} | Some n \<Rightarrow> set (octs n)"
  note d = onNetworkDestroy_spec [OF inv run]
  have o: "owns ?m (taken (usedHostSecondOctet s))" using inv by (simp add: octet_inv_def)
  have "cached_octets (dcache s') = cached_octets (dcache s) - ?R"
  proof (cases "?m nid")
    case None
    then have "GetNetworkInfo (dcache s') = ?m" using d by (auto simp: fun_eq_iff)
    with None show ?thesis by (simp add: cached_octets_def)
  next
    case (Some n0)
    have "(k \<noteq> nid \<and> i \<in> set (octs n)) \<longleftrightarrow> (i \<in> set (octs n) \<and> i \<notin> set (octs n0))"
      if k: "?m k = Some n" for i k n
      using k Some ownsD(2) [OF o k Some] by auto
    then have "{i. \<exists>k n. k \<noteq> nid \<and> ?m k = Some n \<and> i \<in> set (octs n)} =
        {i. \<exists>k n. ?m k = Some n \<and> i \<in> set (octs n)} - set (octs n0)"
      by blast
    moreover have "cached_octets (dcache s') = {i. \<exists>k n. k \<noteq> nid \<and> ?m k = Some n \<and> i \<in> set (octs n)}"
      using d by (auto simp: cached_octets_alt split: if_splits)
    ultimately show ?thesis using Some by (simp add: cached_octets_alt)
  qed
  then show ?thesis
    using octet_inv_destroy [OF inv run] d K T by (auto simp: octet_exact_def)
qed

lemma octet_exact_frame:
  "octet_exact K s \<Longrightarrow> usedHostSecondOctet t = usedHostSecondOctet s \<Longrightarrow>
   GetNetworkInfo (dcache t) = GetNetworkInfo (dcache s) \<Longrightarrow> octet_exact K t"
  unfolding octet_exact_def octet_inv_def cached_octets_def by metis

lemma octet_exact_handleEvent:
  assumes ex: "octet_exact K s" and fr: "freshCreates K (LoopMsg m # ins)"
    and h: "handleEvent api m s = (Ok (), t)"
  shows "\<exists>K'. octet_exact K' t \<and> freshCreates K' ins"
proof (cases api m rule: handleEvent_cases)
  case net_create
  then have "octet_exact (insert (ActorID m) K) t"
    using fr h octet_exact_create [OF ex] by auto
  with net_create fr show ?thesis by auto
next
  case net_destroy
  then have "octet_exact (K - {ActorID m}) t"
    using h octet_exact_destroy [OF ex] by auto
  with net_destroy fr show ?thesis by auto
next
  case ct_start
  then have "octet_exact K t"
    using h onContainerStart_frame octet_exact_frame [OF ex] by metis
  with ct_start fr show ?thesis by auto
next
  case ct_stop
  then have "octet_exact K t"
    using h onContainerStop_frame octet_exact_frame [OF ex] by metis
  with ct_stop fr show ?thesis by auto
next
  case other
  with h ex have "octet_exact K t" by (simp add: ret_def)
  with other fr show ?thesis by (auto split: if_splits)
qed

lemma octet_exact_eventLoop:
  "octet_exact K s \<Longrightarrow> freshCreates K ins \<Longrightarrow> eventLoop api ins s = (Ok (), s') \<Longrightarrow> \<exists>K'. octet_exact K' s'"
proof (induction api ins arbitrary: s K rule: eventLoop.induct)
  case (1 api)
  then show ?case by (auto simp: ret_def)
next
  case (2 api e ins)
  show ?case
  proof (cases "e = Some io_EOF \<or> e = None")
    case True
    with 2 have "octet_exact K s'"
      by (auto simp: upd_def intro: octet_exact_frame)
    then show ?thesis ..
  next
    case False
    with 2 show ?thesis by simp
  qed
next
  case (3 api m ins)
  from 3(4) obtain t where h: "handleEvent api m s = (Ok (), t)" and l: "eventLoop api ins t = (Ok (), s')"
    by (auto simp only: eventLoop_step)
  have "\<exists>K1. octet_exact K1 t \<and> freshCreates K1 ins"
    by (rule octet_exact_handleEvent [OF 3(2) 3(3) h])
  with 3(1) l show ?case by blast
qed

lemma octet_exact_init: "octet_exact {} (initDind w)"
proof -
  have "GetNetworkInfo (dcache (initDind w)) = Map.empty"
    by (simp add: initDind_def NewCache_def GetNetworkInfo_def [abs_def])
  moreover have "taken (usedHostSecondOctet (initDind w)) = {}"
    by (simp add: taken_def initDind_def)
  ultimately show ?thesis
    by (simp add: octet_exact_def octet_inv_init cached_octets_def)
qed

section \<open>Every stop follows a start\<close>

text \<open>Whether a container runs according to the messages sent so far.\<close>

definition running :: "string \<Rightarrow> DindOut list \<Rightarrow> bool" where
  "running cid hist = foldl (\<lambda>b m. case m of
       NetMsg _ \<Rightarrow> b
     | ContMsg i \<Rightarrow> if CtID i = cid then CtAction i = resourceActionStart else b) False hist"

lemma running_simps [simp]:
  "running cid [] = False"
  "running cid (h @ [NetMsg n]) = running cid h"
  "running cid (h @ [ContMsg i]) =
     (if CtID i = cid then CtAction i = resourceActionStart else running cid h)"
  by (simp_all add: running_def)

definition stops_follow_starts :: "DindOut list \<Rightarrow> bool" where
  "stops_follow_starts h \<longleftrightarrow> (\<forall>k i. k < length h \<longrightarrow> h ! k = ContMsg i \<longrightarrow>
      CtAction i = resourceActionStop \<longrightarrow> running (CtID i) (take k h))"

lemma stops_follow_starts_snoc:
  "stops_follow_starts (h @ [m]) \<longleftrightarrow> stops_follow_starts h \<and>
     (case m of ContMsg i \<Rightarrow> CtAction i = resourceActionStop \<longrightarrow> running (CtID i) h | NetMsg _ \<Rightarrow> True)"
  by (auto simp: stops_follow_starts_def nth_append less_Suc_eq split: DindOut.splits)

definition hist_inv :: "'w dind \<Rightarrow> bool" where
  "hist_inv s \<longleftrightarrow> cts.well_keyed (dcache s) \<and> stops_follow_starts (sent s) \<and>
     (\<forall>cid. (GetContainerInfo (dcache s) cid \<noteq> None) = running cid (sent s))"

lemma hist_inv_frame:
  "hist_inv s \<Longrightarrow> sent t = sent s \<Longrightarrow> GetContainerInfo (dcache t) = GetContainerInfo (dcache s) \<Longrightarrow> hist_inv t"
  by (simp add: hist_inv_def cts.well_keyed_def)

lemma hist_inv_net:
  "hist_inv s \<Longrightarrow> sent t = sent s @ [NetMsg n] \<Longrightarrow> GetContainerInfo (dcache t) = GetContainerInfo (dcache s) \<Longrightarrow> hist_inv t"
  by (simp add: hist_inv_def cts.well_keyed_def stops_follow_starts_snoc)

lemma assignSubnets_frame:
  "assignSubnets ds s = (r, t) \<Longrightarrow> dcache t = dcache s \<and> sent t = sent s"
proof (induction ds arbitrary: s r)
  case (Cons d ds)
  then show ?case
    by (fastforce simp: go_simps markAndGetFirstAvailableHostSecondOctet_def split: prod.splits res.splits option.splits)
qed (simp add: go_simps)

lemma releaseSubnets_frame:
  "releaseSubnets sns s = (r, t) \<Longrightarrow> dcache t = dcache s \<and> sent t = sent s"
proof (induction sns arbitrary: s)
  case (Cons d ds)
  then show ?case
    by (fastforce simp: go_simps releaseOctet_def split: prod.splits res.splits if_splits)
qed (simp add: go_simps)

lemma hist_inv_netCreate [inv_intros]:
  assumes "hist_inv s" and "onNetworkCreate api nid s = (r, s')"
  shows "hist_inv s'"
proof -
  obtain r1 t where g: "getNetworkSubnets api nid s = (r1, t)" and t: "sent t = sent s" "dcache t = dcache s"
      and np: "\<And>p. r1 \<noteq> Panic p"
    by (cases "getNetworkSubnets api nid s")
       (auto simp: getNetworkSubnets_def onWorld_def go_simps split: prod.splits sum.splits res.splits)
  obtain r2 t2 where a: "assignSubnets (case r1 of Ok ds \<Rightarrow> ds | _ \<Rightarrow> []) t = (r2, t2)" by fastforce
  note t2 = assignSubnets_frame [OF a]
  have run: "onNetworkCreate api nid s = (case r2 of
      Ok subs \<Rightarrow> (let info = \<lparr>NetID = nid, NetAction = resourceActionCreate, Subnets = subs\<rparr> in
        (Ok (), t2\<lparr>dcache := AddNetworkInfo info (dcache t2), sent := sent t2 @ [NetMsg info]\<rparr>))
    | Err e \<Rightarrow> (Err e, t2) | Panic p \<Rightarrow> (Panic p, t2))"
    using g np a by (cases r1; cases r2) (simp_all add: onNetworkCreate_def go_simps send_def Let_def)
  show ?thesis
  proof (cases "\<exists>subs. r2 = Ok subs")
    case True
    then obtain n where "sent s' = sent s @ [NetMsg n]" "dcache s' = AddNetworkInfo n (dcache s)"
      using run assms(2) t t2 by (auto simp: Let_def)
    then show ?thesis using assms(1) hist_inv_net [of s s'] by (simp add: fun_eq_iff)
  next
    case False
    then have "s' = t2" using run assms(2) by (cases r2) auto
    then show ?thesis using assms(1) t t2 hist_inv_frame [of s s'] by simp
  qed
qed

lemma hist_inv_netDestroy [inv_intros]:
  assumes "hist_inv s" and "onNetworkDestroy nid s = (r, s')"
  shows "hist_inv s'"
proof -
  have "(\<exists>n. sent s' = sent s @ [NetMsg n] \<or> sent s' = sent s) \<and>
      GetContainerInfo (dcache s') = GetContainerInfo (dcache s)"
    using assms(2) releaseSubnets_frame
    by (fastforce simp: onNetworkDestroy_def go_simps send_def fun_eq_iff split: option.splits prod.splits res.splits)
  then show ?thesis using assms(1) hist_inv_net hist_inv_frame by metis
qed

lemma hist_inv_start [inv_intros]:
  assumes "hist_inv s" and "onContainerStart api cid s = (r, s')"
  shows "hist_inv s'"
proof -
  consider "sent s' = sent s" "dcache s' = dcache s"
    | i where "CtID i = cid" "CtAction i = resourceActionStart" "dcache s' = AddContainerInfo i (dcache s)"
        "sent s' = sent s @ [ContMsg i]"
    using assms(2)
    by (fastforce simp: onContainerStart_def getContainerInspectInfo_def onWorld_def go_simps send_def Let_def
        split: prod.splits sum.splits res.splits)
  then show ?thesis
  proof cases
    case 1
    then show ?thesis using assms(1) hist_inv_frame by metis
  next
    case (2 i)
    then show ?thesis
      using assms(1) by (auto simp: hist_inv_def stops_follow_starts_snoc cts.well_keyed_add cts.get_add)
  qed
qed

lemma hist_inv_stop [inv_intros]:
  assumes inv: "hist_inv s" and run: "onContainerStop cid s = (r, s')"
  shows "hist_inv s'"
proof (cases "GetContainerInfo (dcache s) cid")
  case None
  then have "sent s' = sent s" "GetContainerInfo (dcache s') = GetContainerInfo (dcache s)"
    using run by (auto simp: onContainerStop_def DeleteContainerInfo_def GetContainerInfo_def go_simps fun_eq_iff)
  then show ?thesis using inv hist_inv_frame by metis
next
  case (Some i)
  have k: "CtID i = cid" and run': "running cid (sent s)"
    using inv Some by (auto simp: hist_inv_def cts.well_keyed_def)
  have "dcache s' = snd (DeleteContainerInfo cid (dcache s))"
      "sent s' = sent s @ [ContMsg (i\<lparr>CtAction := resourceActionStop\<rparr>)]"
    using run Some by (auto simp: onContainerStop_def DeleteContainerInfo_def GetContainerInfo_def go_simps send_def)
  then show ?thesis
    using inv k run' by (auto simp: hist_inv_def stops_follow_starts_snoc cts.well_keyed_del cts.get_del)
qed

lemma hist_inv_handleEvent [inv_intros]:
  "hist_inv s \<Longrightarrow> handleEvent api m s = (r, s') \<Longrightarrow> hist_inv s'"
  by (cases api m rule: handleEvent_cases)
     (auto intro: hist_inv_netCreate hist_inv_netDestroy hist_inv_start hist_inv_stop simp: ret_def)

lemma hist_inv_eventLoop: "hist_inv s \<Longrightarrow> eventLoop api ins s = (r, s') \<Longrightarrow> hist_inv s'"
proof (induction api ins arbitrary: s rule: eventLoop.induct)
  case (2 api e ins)
  show ?case
  proof (cases "e = Some io_EOF \<or> e = None")
    case True
    with 2 show ?thesis by (auto simp: upd_def intro: hist_inv_frame)
  next
    case False
    with 2 show ?thesis by simp
  qed
next
  case (3 api m ins)
  obtain r1 t where h: "handleEvent api m s = (r1, t)" by fastforce
  have t: "hist_inv t" using 3(2) h by (rule hist_inv_handleEvent)
  show ?case
    using 3(1) [OF t] 3(3) h t by (cases r1) (auto simp: andThen_def)
qed (simp add: ret_def)

lemma hist_inv_init: "hist_inv (initDind w)"
  by (simp add: hist_inv_def initDind_def NewCache_def GetContainerInfo_def cts.well_keyed_def
      stops_follow_starts_def)

section \<open>Address rewriting\<close>

unbundle bit_operations_syntax

text \<open>Dotted-quad text and the 32-bit address it denotes.\<close>

definition quad :: "nat \<Rightarrow> nat \<Rightarrow> nat \<Rightarrow> nat \<Rightarrow> string" where
  "quad a b c d = show_nat a @ ''.'' @ show_nat b @ ''.'' @ show_nat c @ ''.'' @ show_nat d"

definition ipv4 :: "nat \<Rightarrow> nat \<Rightarrow> nat \<Rightarrow> nat \<Rightarrow> 32 word" where
  "ipv4 a b c d = push_bit 24 (word_of_nat a) OR push_bit 16 (word_of_nat b) OR
     push_bit 8 (word_of_nat c) OR word_of_nat d"

text \<open>
  The \<^verbatim>\<open>NETMAP\<close> target of iptables maps a whole network: the prefix is replaced and the host
  bits are kept.
\<close>

definition prefix_mask :: "nat \<Rightarrow> 32 word" where
  "prefix_mask len = NOT (mask (32 - len))"

definition netmap :: "nat \<Rightarrow> 32 word \<Rightarrow> 32 word \<Rightarrow> 32 word" where
  "netmap len to ip = (to AND prefix_mask len) OR (ip AND NOT (prefix_mask len))"

lemma octetRepl_two_octets:
  assumes "a < 1000" and "b < 1000"
  shows "dockerSubnetOctetRepl (show_nat a @ ''.'' @ show_nat b @ ''.'' @ rest) r = r @ ''.'' @ rest"
proof -
  have dot: "\<not> is_digit (CHR ''.'')" by (simp add: is_digit_def)
  have 1: "takeWhile is_digit (show_nat a @ CHR ''.'' # xs) = show_nat a" for xs
    by (rule takeWhile_prefix_all [OF show_nat_digits dot])
  have 2: "takeWhile is_digit (show_nat b @ CHR ''.'' # xs) = show_nat b" for xs
    by (rule takeWhile_prefix_all [OF show_nat_digits dot])
  have l: "length (show_nat a) \<le> 3" "length (show_nat b) \<le> 3"
    using assms by (simp_all add: show_nat_length_3)
  show ?thesis
    using l by (simp add: dockerSubnetOctetRepl_def afterTwoOctets_def Let_def 1 2)
qed

lemma octetRepl_quad:
  "a < 1000 \<Longrightarrow> b < 1000 \<Longrightarrow>
   dockerSubnetOctetRepl (quad a b c d) (hostProxyTwoOctets n) = quad 127 n c d"
  using octetRepl_two_octets [of a b "show_nat c @ ''.'' @ show_nat d" "hostProxyTwoOctets n"]
  by (simp add: quad_def hostProxyTwoOctets_def hostProxySubnetFirstOctet_def)

lemma octetRepl_cidr:
  "a < 1000 \<Longrightarrow> b < 1000 \<Longrightarrow>
   dockerSubnetOctetRepl (quad a b c d @ rest) (hostProxyTwoOctets n) = quad 127 n c d @ rest"
  using octetRepl_two_octets [of a b "show_nat c @ ''.'' @ show_nat d @ rest" "hostProxyTwoOctets n"]
  by (simp add: quad_def hostProxyTwoOctets_def hostProxySubnetFirstOctet_def)

lemma bit_byte: "d < 256 \<Longrightarrow> 8 \<le> i \<Longrightarrow> \<not> bit (word_of_nat d :: 32 word) i"
proof -
  assume "d < 256" "8 \<le> i"
  then have "d < 2 ^ i" using power_increasing [of 8 i "2::nat"] by simp
  then have "\<not> bit d i" by (simp add: bit_iff_odd)
  then show ?thesis by (simp add: bit_of_nat_iff)
qed

lemma bit_ipv4_low: "i < 16 \<Longrightarrow> bit (ipv4 a b c d) i = bit (ipv4 0 0 c d) i"
  by (simp add: ipv4_def bit_or_iff bit_push_bit_iff)

lemma bit_ipv4_high:
  "16 \<le> i \<Longrightarrow> c < 256 \<Longrightarrow> d < 256 \<Longrightarrow> bit (ipv4 a b c d) i = bit (ipv4 a b 0 0) i"
  by (auto simp: ipv4_def bit_or_iff bit_push_bit_iff bit_byte)

lemma bit_netmap:
  "i < 32 \<Longrightarrow> bit (netmap len to ip) i = (if i < 32 - len then bit ip i else bit to i)"
  by (simp add: netmap_def prefix_mask_def bit_or_iff bit_and_iff bit_not_iff bit_mask_iff)

lemma netmap_two_octets:
  assumes len: "16 \<le> len" and oct: "c < 256" "d < 256" "s3 < 256" "s4 < 256"
    and sub: "ipv4 a b c d AND prefix_mask len = ipv4 a b s3 s4 AND prefix_mask len"
  shows "netmap len (ipv4 127 n s3 s4) (ipv4 a b c d) = ipv4 127 n c d"
proof (rule bit_word_eqI)
  fix i assume "i < LENGTH(32)"
  then have i: "i < 32" by simp
  have same: "bit (ipv4 a b c d) i = bit (ipv4 a b s3 s4) i" if "\<not> i < 32 - len"
    using that i arg_cong [OF sub, of "\<lambda>w. bit w i"]
    by (simp add: prefix_mask_def bit_and_iff bit_not_iff bit_mask_iff)
  show "bit (netmap len (ipv4 127 n s3 s4) (ipv4 a b c d)) i = bit (ipv4 127 n c d) i"
  proof (cases "i < 16")
    case True
    then show ?thesis
      using i same bit_ipv4_low [OF True, of a b c d] bit_ipv4_low [OF True, of a b s3 s4]
        bit_ipv4_low [OF True, of 127 n c d] bit_ipv4_low [OF True, of 127 n s3 s4]
      by (auto simp: bit_netmap)
  next
    case False
    then have h: "16 \<le> i" by simp
    then have "\<not> i < 32 - len" using i len by simp
    with i show ?thesis
      using bit_ipv4_high [OF h oct(1,2), of 127 n] bit_ipv4_high [OF h oct(3,4), of 127 n]
      by (simp add: bit_netmap)
  qed
qed

section \<open>Waiting for the daemon\<close>

definition probe :: "'w docker_api \<Rightarrow> 'w \<Rightarrow> nat \<Rightarrow> goerr + unit" where
  "probe api w k = fst (ServerVersion api (((snd \<circ> ServerVersion api) ^^ k) w))"

lemma pollVersion_Ok_iff:
  "0 < n \<or> err \<noteq> None \<Longrightarrow>
   fst (pollVersion api n err s) = Ok () \<longleftrightarrow> (\<exists>k<n. probe api (dworld s) k = Inr ())"
proof (induction n arbitrary: err s)
  case 0
  then show ?case by (auto simp: fail_def split: option.splits)
next
  case (Suc n)
  obtain r w where rw: "ServerVersion api (dworld s) = (r, w)" by fastforce
  let ?s = "s\<lparr>dworld := w\<rparr>"
  have p0: "probe api (dworld s) 0 = r" using rw by (simp add: probe_def)
  have pS: "probe api (dworld s) (Suc k) = probe api w k" for k
    using rw by (simp add: probe_def funpow_swap1)
  have split: "(\<exists>k<Suc n. Q k) \<longleftrightarrow> Q 0 \<or> (\<exists>k<n. Q (Suc k))" for Q
    by (metis Suc_less_eq less_Suc_eq_0_disj zero_less_Suc)
  show ?case
  proof (cases r)
    case (Inl e)
    then have "pollVersion api (Suc n) err s = pollVersion api n (Some e) ?s"
      using rw by (simp add: go_simps onWorld_def)
    with Suc.IH [of "Some e" ?s] show ?thesis
      by (simp add: split p0 pS Inl)
  next
    case (Inr u)
    then show ?thesis using rw by (simp add: split p0 go_simps onWorld_def)
  qed
qed

section \<open>Properties\<close>

text \<open>
  Claim C4. However docker's events are ordered, and whichever inspections fail, after any
  run of the event loop two subnets of known networks (of the same or of different
  networks) never share the second octet of their host proxy subnet, and each octet is
  between 1 and 255 and marked as used.
\<close>

theorem host_octets_never_shared:
  assumes run: "eventLoop api ins (initDind w) = (Ok (), s)"
    and n: "GetNetworkInfo (dcache s) k = Some n" "i < length (Subnets n)"
    and n': "GetNetworkInfo (dcache s) k' = Some n'" "j < length (Subnets n')"
    and ne: "(k, i) \<noteq> (k', j)"
  shows "SecondOctet (Subnets n ! i) \<noteq> SecondOctet (Subnets n' ! j) \<and>
     1 \<le> SecondOctet (Subnets n ! i) \<and> SecondOctet (Subnets n ! i) \<le> 255 \<and>
     usedHostSecondOctet s ! SecondOctet (Subnets n ! i)"
proof -
  have inv: "octet_inv s" by (rule octet_inv_eventLoop [OF octet_inv_init run])
  then have o: "owns (GetNetworkInfo (dcache s)) (taken (usedHostSecondOctet s))"
    and ok: "pool_ok (usedHostSecondOctet s)" by (simp_all add: octet_inv_def)
  let ?a = "SecondOctet (Subnets n ! i)" and ?b = "SecondOctet (Subnets n' ! j)"
  have a: "?a \<in> set (octs n)" "octs n ! i = ?a" and b: "?b \<in> set (octs n')" "octs n' ! j = ?b"
    using n n' by (auto simp: octs_def)
  have "?a \<noteq> ?b"
  proof (cases "k = k'")
    case True
    then have "n' = n" "i \<noteq> j" using ne n n' by auto
    moreover have "i < length (octs n)" "j < length (octs n)"
      using n n' \<open>n' = n\<close> by (simp_all add: octs_def)
    ultimately show ?thesis
      using a b ownsD(1) [OF o n(1)] nth_eq_iff_index_eq [of "octs n" i j] by simp
  next
    case False
    then show ?thesis using ownsD(2) [OF o n(1) n'(1)] a b by auto
  qed
  moreover have "?a \<in> taken (usedHostSecondOctet s)" using ownsD(1) [OF o n(1)] a by blast
  ultimately show ?thesis
    using octets.used_range [OF ok] by (auto simp: taken_def subset_iff)
qed

text \<open>A daemon with two networks, of one and of two subnets, and one container.\<close>

definition demo_api :: "unit docker_api" where
  "demo_api = \<lparr>
     NetworkInspect = (\<lambda>nid w. (if nid = ''n1'' then Inr [''172.17.0.0/16'']
        else if nid = ''n2'' then Inr [''172.18.0.0/16'', '''', ''172.19.0.0/16'']
        else Inl (External ''no such network''), w)),
     ContainerInspect = (\<lambda>cid w. (Inr \<lparr>StatePid = 41, SettingsPorts = [\<lparr>Proto = ''tcp'', PortNum = 80\<rparr>],
        SettingsNetworks = [\<lparr>CnID = ''n1'', CnIP = ''172.17.0.2''\<rparr>]\<rparr>, w)),
     ServerVersion = (\<lambda>w. (Inr (), w))\<rparr>"

definition demo_msg :: "string \<Rightarrow> string \<Rightarrow> string \<Rightarrow> loop_in" where
  "demo_msg k a i = LoopMsg \<lparr>MsgType = k, MsgAction = a, ActorID = i\<rparr>"

definition demo_state :: "unit dind" where
  "demo_state = snd (eventLoop demo_api
     [demo_msg ''network'' ''create'' ''n1'', demo_msg ''network'' ''create'' ''n2''] (initDind ()))"

lemmas event_defs =
  demo_api_def demo_msg_def demo_state_def handleEvent_def resourceKindByString_def
  resourceActionByString_def onNetworkCreate_def onNetworkDestroy_def onContainerStart_def
  onContainerStop_def getNetworkSubnets_def getContainerInspectInfo_def onWorld_def send_def
  markAndGetFirstAvailableHostSecondOctet_def markOctet_def releaseOctet_def initDind_def NewCache_def
  cache_defs Let_def

lemma demo_state_run:
  "eventLoop demo_api
     [demo_msg ''network'' ''create'' ''n1'', demo_msg ''network'' ''create'' ''n2''] (initDind ()) =
   (Ok (), demo_state)"
  "GetNetworkInfo (dcache demo_state) ''n1'' = Some \<lparr>NetID = ''n1'', NetAction = resourceActionCreate,
     Subnets = [proxySubnet ''172.17.0.0/16'' 1]\<rparr>"
  "GetNetworkInfo (dcache demo_state) ''n2'' = Some \<lparr>NetID = ''n2'', NetAction = resourceActionCreate,
     Subnets = [proxySubnet ''172.18.0.0/16'' 2, proxySubnet ''172.19.0.0/16'' 3]\<rparr>"
  by (simp_all add: event_defs go_simps firstFree.simps nth_list_update numeral_2_eq_2 numeral_3_eq_3)

theorem host_octets_never_shared_witness:
  "SecondOctet (proxySubnet ''172.17.0.0/16'' 1) \<noteq> SecondOctet (proxySubnet ''172.19.0.0/16'' 3) \<and>
   usedHostSecondOctet demo_state ! 1"
  using host_octets_never_shared [OF demo_state_run(1) demo_state_run(2) _ demo_state_run(3), of 0 1]
  by (simp add: proxySubnet_def)

text \<open>
  Claim C22. If docker never announces a network identifier that is already known, then
  after any run of the event loop the octets marked as used are exactly those of the known
  networks: destroying a network gives every octet it held back to the pool, so network
  churn never exhausts it.
\<close>

theorem no_octet_leak:
  assumes "eventLoop api ins (initDind w) = (Ok (), s)" and "freshCreates {} ins"
  shows "{i. i < 256 \<and> usedHostSecondOctet s ! i} =
     {SecondOctet sn | sn n k. GetNetworkInfo (dcache s) k = Some n \<and> sn \<in> set (Subnets n)}"
proof -
  obtain K where ex: "octet_exact K s"
    using octet_exact_eventLoop [OF octet_exact_init assms(2,1)] by blast
  then have "length (usedHostSecondOctet s) = 256"
    by (simp add: octet_exact_def octet_inv_def pool_ok_def)
  with ex show ?thesis
    by (auto simp: octet_exact_def taken_def cached_octets_alt octs_def)
qed

theorem no_octet_leak_witness:
  "{i. i < 256 \<and> usedHostSecondOctet demo_state ! i} =
     {SecondOctet sn | sn n k. GetNetworkInfo (dcache demo_state) k = Some n \<and> sn \<in> set (Subnets n)}"
  by (rule no_octet_leak [OF demo_state_run(1)]) (simp add: demo_msg_def)

text \<open>
  Claim C25. Creating a network panics with \<^verbatim>\<open>no available host proxy subnet\<close> exactly when its
  non-empty subnets outnumber the octets that are still free, of 255 in all; nothing else
  in the handling of a network creation panics.
\<close>

theorem network_create_panics_iff_exhausted:
  assumes run: "eventLoop api ins (initDind w) = (Ok (), s)"
    and insp: "NetworkInspect api nid (dworld s) = (Inr cfg, w')"
  shows "(\<exists>p. fst (onNetworkCreate api nid s) = Panic p) \<longleftrightarrow>
     255 < card {i. i < 256 \<and> usedHostSecondOctet s ! i} + length (filter (\<lambda>d. d \<noteq> '''') cfg)"
proof -
  have ok: "pool_ok (usedHostSecondOctet s)"
    using octet_inv_eventLoop [OF octet_inv_init run] by (simp add: octet_inv_def)
  let ?ds = "filter (\<lambda>d. d \<noteq> '''') cfg" and ?t = "s\<lparr>dworld := w'\<rparr>"
  have g: "getNetworkSubnets api nid s = (Ok ?ds, ?t)"
    using insp by (simp add: getNetworkSubnets_def onWorld_def go_simps)
  have "(\<exists>p. fst (onNetworkCreate api nid s) = Panic p) \<longleftrightarrow>
      (\<exists>p. fst (assignSubnets ?ds ?t) = Panic p)"
    by (cases "assignSubnets ?ds ?t"; cases "fst (assignSubnets ?ds ?t)")
       (simp_all add: onNetworkCreate_def g attempt_def andThen_def upd_def send_def Let_def)
  also have "\<dots> \<longleftrightarrow> octets.alloc_list (length ?ds) (usedHostSecondOctet s) = None"
    by (subst assignSubnets_alloc) (auto split: option.splits)
  also have "\<dots> \<longleftrightarrow> 255 < card (taken (usedHostSecondOctet s)) + length ?ds"
    by (rule octets.alloc_list_None_iff [OF ok])
  finally show ?thesis using ok by (simp add: taken_def pool_ok_def)
qed

theorem network_create_panics_iff_exhausted_witness:
  "(\<exists>p. fst (onNetworkCreate demo_api ''n2'' demo_state) = Panic p) \<longleftrightarrow>
     255 < card {i. i < 256 \<and> usedHostSecondOctet demo_state ! i} +
       length (filter (\<lambda>d. d \<noteq> '''') [''172.18.0.0/16'', '''', ''172.19.0.0/16''])"
  by (rule network_create_panics_iff_exhausted [OF demo_state_run(1)]) (simp add: demo_api_def)



text \<open>
  Claim C24. The address a container is proxied on is the one \<^verbatim>\<open>iptables\<close> sends its traffic to.
  For a docker subnet with a prefix of 16 bits or more, the rule the main loop installs
  (\<^verbatim>\<open>NETMAP\<close> from the docker subnet to its host proxy subnet) takes the container's address to
  the address that the event loop computes for it by rewriting the first two octets.
\<close>

theorem proxied_ip_agrees_with_netmap:
  assumes "16 \<le> len" and oct: "a < 256" "b < 256" "c < 256" "d < 256" "s3 < 256" "s4 < 256"
    and sub: "ipv4 a b c d AND prefix_mask len = ipv4 a b s3 s4 AND prefix_mask len"
  shows "HostProxySubnet (proxySubnet (quad a b s3 s4 @ ''/'' @ show_nat len) n) =
           quad 127 n s3 s4 @ ''/'' @ show_nat len \<and>
         dockerSubnetOctetRepl (quad a b c d) (hostProxyTwoOctets n) = quad 127 n c d \<and>
         netmap len (ipv4 127 n s3 s4) (ipv4 a b c d) = ipv4 127 n c d"
  using assms netmap_two_octets [of len c d s3 s4 a b n]
  by (simp add: proxySubnet_def octetRepl_cidr octetRepl_quad)

theorem proxied_ip_agrees_with_netmap_witness:
  "dockerSubnetOctetRepl (quad 172 17 4 9) (hostProxyTwoOctets 3) = quad 127 3 4 9 \<and>
   netmap 20 (ipv4 127 3 0 0) (ipv4 172 17 4 9) = ipv4 127 3 4 9"
  using proxied_ip_agrees_with_netmap [of 20 172 17 4 9 0 0 3]
  by (simp add: ipv4_def prefix_mask_def mask_eq_exp_minus_1)

text \<open>
  Waiting for the daemon makes at most fifteen probes and succeeds exactly when one
  of the first fifteen answers.
\<close>

theorem waitForDockerd_succeeds_iff:
  "fst (WaitForDockerd api s) = Ok () \<longleftrightarrow> (\<exists>k<15. probe api (dworld s) k = Inr ())"
  unfolding WaitForDockerd_def by (rule pollVersion_Ok_iff) simp

end
