(* ===== verification/Dind_Main.thy ===== *)
theory Dind_Main
  imports Dind_Docker
begin

text \<open>
  The main loop of the docker-in-docker supervisor (\<^verbatim>\<open>dind/main.go\<close>) and its port proxies
  (\<^verbatim>\<open>dind/portproxy.go\<close>): the \<^verbatim>\<open>socat\<close> command of a proxied port, the NETMAP rules of a
  network, the proxies of a container, and one turn of the \<^verbatim>\<open>select\<close> over \<^verbatim>\<open>dockerd\<close>'s exit and
  the two channels. The event loop and the main loop are two goroutines over one cache:
  \<open>dind_step\<close> is their interleaving, with the hand-over of the unbuffered channels as its
  own step.
\<close>

section \<open>Port proxies\<close>

record AddPortProxyRequest =
  ReqProto :: string
  HostIP :: string
  HostPort :: int
  ChildPID :: int
  ChildPort :: int

record 'w host_api =
  AppendUnique :: "string list \<Rightarrow> 'w \<Rightarrow> (goerr + unit) \<times> 'w"
  IptDelete :: "string list \<Rightarrow> 'w \<Rightarrow> (goerr + unit) \<times> 'w"
  KillPid :: "int \<Rightarrow> 'w \<Rightarrow> (goerr + unit) \<times> 'w"

definition socatArgs :: "string \<Rightarrow> string \<Rightarrow> AddPortProxyRequest \<Rightarrow> string list" where
  "socatArgs listen target r =
     [''socat'',
      listen @ show_int (HostPort r) @ '',bind='' @ HostIP r @ '',reuseaddr,fork,rcvbuf=65536,sndbuf=65536'',
      ''EXEC:'' @ [CHR 0x22] @ ''nsenter -U -n --preserve-credentials -t '' @ show_int (ChildPID r) @
        '' socat STDIN '' @ target @ show_int (ChildPort r) @ [CHR 0x22] @ '',nofork'']"

text \<open>
  A protocol other than tcp and udp leaves \<^verbatim>\<open>cmd\<close> nil, and setting its environment
  dereferences it.
\<close>

definition createSocatCommand :: "AddPortProxyRequest \<Rightarrow> string list res" where
  "createSocatCommand r =
     (if ReqProto r = ''tcp'' then Ok (socatArgs ''TCP-LISTEN:'' ''TCP4:127.0.0.1:'' r)
      else if ReqProto r = ''udp'' then Ok (socatArgs ''UDP-LISTEN:'' ''UDP4:127.0.0.1:'' r)
      else Panic ''nil pointer dereference'')"

definition AddPortProxy :: "'w os_api \<Rightarrow> AddPortProxyRequest \<Rightarrow> ('w dind, int) go" where
  "AddPortProxy os r =
     andThen (lift_res (createSocatCommand r)) (\<lambda>argv. onWorld (CmdStart os ''socat'' argv))"

definition RemovePortProxy :: "'w host_api \<Rightarrow> int \<Rightarrow> ('w dind, unit) go" where
  "RemovePortProxy h pid = onWorld (KillPid h pid)"

section \<open>Handling a message\<close>

definition netmapRule :: "Subnet \<Rightarrow> string list" where
  "netmapRule sn =
     [''nat'', ''OUTPUT'', ''-d'', DockerSubnet sn, ''-j'', ''NETMAP'', ''--to'', HostProxySubnet sn]"

fun appendRules :: "'w host_api \<Rightarrow> Subnet list \<Rightarrow> ('w dind, unit) go" where
  "appendRules h [] = ret ()"
| "appendRules h (sn # sns) =
     andThen (onWorld (AppendUnique h (netmapRule sn))) (\<lambda>_. appendRules h sns)"

definition setupNetworkPortForward :: "'w host_api \<Rightarrow> NetworkInfo \<Rightarrow> ('w dind, unit) go" where
  "setupNetworkPortForward h info = appendRules h (Subnets info)"

fun deleteRules :: "'w host_api \<Rightarrow> Subnet list \<Rightarrow> ('w dind, unit) go" where
  "deleteRules h [] = ret ()"
| "deleteRules h (sn # sns) =
     andThen (onWorld (IptDelete h (netmapRule sn))) (\<lambda>_. deleteRules h sns)"

definition setdownNetworkPortForward :: "'w host_api \<Rightarrow> NetworkInfo \<Rightarrow> ('w dind, unit) go" where
  "setdownNetworkPortForward h info = deleteRules h (Subnets info)"

definition proxyRequest :: "ContainerInfo \<Rightarrow> string \<times> Port \<Rightarrow> AddPortProxyRequest" where
  "proxyRequest info ip_spec =
     \<lparr>ReqProto = Proto (snd ip_spec), HostIP = fst ip_spec, HostPort = PortNum (snd ip_spec),
      ChildPID = Pid info, ChildPort = PortNum (snd ip_spec)\<rparr>"

fun startProxies :: "'w os_api \<Rightarrow> string \<Rightarrow> AddPortProxyRequest list \<Rightarrow> ('w dind, unit) go" where
  "startProxies os cid [] = ret ()"
| "startProxies os cid (r # rs) =
     andThen (AddPortProxy os r) (\<lambda>pid.
     andThen (upd (\<lambda>s. s\<lparr>dcache := AddProxyPortPID cid pid (dcache s)\<rparr>)) (\<lambda>_.
     startProxies os cid rs))"

definition setupContainerPortProxy :: "'w os_api \<Rightarrow> ContainerInfo \<Rightarrow> ('w dind, unit) go" where
  "setupContainerPortProxy os info =
     startProxies os (CtID info) (map (proxyRequest info) (List.product (IPs info) (Ports info)))"

fun killProxies :: "'w host_api \<Rightarrow> int list \<Rightarrow> ('w dind, unit) go" where
  "killProxies h [] = ret ()"
| "killProxies h (p # ps) = andThen (RemovePortProxy h p) (\<lambda>_. killProxies h ps)"

definition setdownContainerPortProxy :: "'w host_api \<Rightarrow> ContainerInfo \<Rightarrow> ('w dind, unit) go" where
  "setdownContainerPortProxy h info =
     andThen ask (\<lambda>s.
     andThen (killProxies h (GetProxyPortPIDs (dcache s) (CtID info))) (\<lambda>_.
     upd (\<lambda>s. s\<lparr>dcache := DeleteProxyPortPIDs (CtID info) (dcache s)\<rparr>)))"

text \<open>\<^verbatim>\<open>if err := m(); err != nil { logger.Panic(err) }\<close> and its logging variant.\<close>

definition orPanic :: "('w dind, unit) go \<Rightarrow> ('w dind, unit) go" where
  "orPanic m = attempt m (\<lambda>r. case r of Inr _ \<Rightarrow> ret () | Inl _ \<Rightarrow> panic ''logger.Panic'')"

definition orLog :: "('w dind, unit) go \<Rightarrow> ('w dind, unit) go" where
  "orLog m = attempt m (\<lambda>r. ret ())"

definition handleMessage :: "'w os_api \<Rightarrow> 'w host_api \<Rightarrow> DindOut \<Rightarrow> ('w dind, unit) go" where
  "handleMessage os h msg = (case msg of
       NetMsg info \<Rightarrow> (case NetAction info of
           resourceActionCreate \<Rightarrow> orPanic (setupNetworkPortForward h info)
         | resourceActionDestroy \<Rightarrow> orLog (setdownNetworkPortForward h info)
         | _ \<Rightarrow> ret ())
     | ContMsg info \<Rightarrow> (case CtAction info of
           resourceActionStart \<Rightarrow> orPanic (setupContainerPortProxy os info)
         | resourceActionStop \<Rightarrow> orPanic (setdownContainerPortProxy h info)
         | _ \<Rightarrow> ret ()))"

section \<open>The select loop\<close>

datatype cmd_exit = ExitNil | ExitStatus int | ExitUnknown string

datatype main_in = CmdWait cmd_exit | NetRecv "NetworkInfo option" | ContRecv "ContainerInfo option"

datatype main_out = Continue | BreakLoop | OsExit int

definition mainStep :: "'w os_api \<Rightarrow> 'w host_api \<Rightarrow> main_in \<Rightarrow> ('w dind, main_out) go" where
  "mainStep os h i = (case i of
       CmdWait ExitNil \<Rightarrow> ret BreakLoop
     | CmdWait (ExitStatus st) \<Rightarrow> ret (OsExit st)
     | CmdWait (ExitUnknown e) \<Rightarrow> panic ''dockerd stopped with unknown status''
     | NetRecv None \<Rightarrow> ret BreakLoop
     | NetRecv (Some info) \<Rightarrow> andThen (handleMessage os h (NetMsg info)) (\<lambda>_. ret Continue)
     | ContRecv None \<Rightarrow> ret BreakLoop
     | ContRecv (Some info) \<Rightarrow> andThen (handleMessage os h (ContMsg info)) (\<lambda>_. ret Continue))"

fun mainLoop :: "'w os_api \<Rightarrow> 'w host_api \<Rightarrow> main_in list \<Rightarrow> ('w dind, main_out) go" where
  "mainLoop os h [] = ret Continue"
| "mainLoop os h (i # ins) =
     andThen (mainStep os h i) (\<lambda>out. case out of
         Continue \<Rightarrow> mainLoop os h ins
       | BreakLoop \<Rightarrow> ret BreakLoop
       | OsExit st \<Rightarrow> ret (OsExit st))"

section \<open>The two goroutines\<close>

text \<open>
  \<open>offered\<close> is the message the event goroutine blocks on (the channels are unbuffered),
  \<open>taken_msg\<close> the one the main goroutine has received and not yet handled.
\<close>

record 'w system =
  dst :: "'w dind"
  offered :: "DindOut option"
  taken_msg :: "DindOut option"

definition newMessage :: "'w dind \<Rightarrow> 'w dind \<Rightarrow> DindOut option" where
  "newMessage s t = (if length (sent s) < length (sent t) then Some (last (sent t)) else None)"

inductive dind_step :: "'w docker_api \<Rightarrow> 'w os_api \<Rightarrow> 'w host_api \<Rightarrow> 'w system \<Rightarrow> 'w system \<Rightarrow> bool"
  for api os h where
  event: "offered s = None \<Longrightarrow> handleEvent api m (dst s) = (Ok (), t) \<Longrightarrow>
     dind_step api os h s (s\<lparr>dst := t, offered := newMessage (dst s) t\<rparr>)"
| receive: "offered s = Some x \<Longrightarrow> taken_msg s = None \<Longrightarrow>
     dind_step api os h s (s\<lparr>offered := None, taken_msg := Some x\<rparr>)"
| handle: "taken_msg s = Some x \<Longrightarrow> handleMessage os h x (dst s) = (Ok (), t) \<Longrightarrow>
     dind_step api os h s (s\<lparr>dst := t, taken_msg := None\<rparr>)"

text \<open>
  The same system when every message is handled before the next event is read: an event
  and the main loop's answer to it in one go.
\<close>

definition syncStep ::
    "'w docker_api \<Rightarrow> 'w os_api \<Rightarrow> 'w host_api \<Rightarrow> EventMsg \<Rightarrow> ('w dind, unit) go" where
  "syncStep api os h m =
     andThen ask (\<lambda>s.
     andThen (handleEvent api m) (\<lambda>_.
     andThen ask (\<lambda>t. case newMessage s t of
         None \<Rightarrow> ret ()
       | Some x \<Rightarrow> handleMessage os h x)))"

fun syncRun ::
    "'w docker_api \<Rightarrow> 'w os_api \<Rightarrow> 'w host_api \<Rightarrow> EventMsg list \<Rightarrow> ('w dind, unit) go" where
  "syncRun api os h [] = ret ()"
| "syncRun api os h (m # ms) = andThen (syncStep api os h m) (\<lambda>_. syncRun api os h ms)"

section \<open>Accounting for proxy processes\<close>

text \<open>
  What the code relies on of the host: a started command has a PID that was not in use and
  is live from then on, a killed one is live no longer, and nothing else it calls starts or
  ends a process. \<open>live\<close> is the set of live PIDs of a world.
\<close>

definition process_laws ::
    "'w docker_api \<Rightarrow> 'w os_api \<Rightarrow> 'w host_api \<Rightarrow> ('w \<Rightarrow> int set) \<Rightarrow> bool" where
  "process_laws api os h live \<longleftrightarrow>
     (\<forall>path args w p w'. CmdStart os path args w = (Inr p, w') \<longrightarrow> p \<notin> live w \<and> live w' = insert p (live w)) \<and>
     (\<forall>p u w w'. KillPid h p w = (Inr u, w') \<longrightarrow> live w' = live w - {p}) \<and>
     (\<forall>args w. live (snd (AppendUnique h args w)) = live w) \<and>
     (\<forall>args w. live (snd (IptDelete h args w)) = live w) \<and>
     (\<forall>nid w. live (snd (NetworkInspect api nid w)) = live w) \<and>
     (\<forall>cid w. live (snd (ContainerInspect api cid w)) = live w)"

lemma process_lawsD:
  assumes "process_laws api os h live"
  shows "CmdStart os path args w = (Inr p, w') \<Longrightarrow> p \<notin> live w \<and> live w' = insert p (live w)"
    and "KillPid h p w = (Inr u, w') \<Longrightarrow> live w' = live w - {p}"
    and "live (snd (AppendUnique h args w)) = live w"
    and "live (snd (IptDelete h args w)) = live w"
    and "live (snd (NetworkInspect api nid w)) = live w"
    and "live (snd (ContainerInspect api cid w)) = live w"
  using assms by (simp_all add: process_laws_def)

text \<open>
  The live processes are those of the surroundings and the recorded proxies, each recorded
  once.
\<close>

definition accounted :: "int set \<Rightarrow> int set \<Rightarrow> (string \<Rightarrow> int list) \<Rightarrow> bool" where
  "accounted L0 L f \<longleftrightarrow> L = L0 \<union> (\<Union>c. set (f c)) \<and>
     (\<forall>c. distinct (f c) \<and> set (f c) \<inter> L0 = {}) \<and>
     (\<forall>c c'. c \<noteq> c' \<longrightarrow> set (f c) \<inter> set (f c') = {})"

lemma accounted_start:
  assumes "accounted L0 L f" and "p \<notin> L"
  shows "accounted L0 (insert p L) (f(cid := f cid @ [p]))"
proof -
  have fresh: "p \<notin> L0" "\<And>c. p \<notin> set (f c)" using assms by (auto simp: accounted_def)
  have dis: "set (f c) \<inter> set (f c') = {}" if "c \<noteq> c'" for c c'
    using that assms by (auto simp: accounted_def)
  have "insert p L = L0 \<union> (\<Union>c. set ((f(cid := f cid @ [p])) c))"
    using assms(1) by (auto simp: accounted_def split: if_splits)
  moreover have "distinct ((f(cid := f cid @ [p])) c) \<and> set ((f(cid := f cid @ [p])) c) \<inter> L0 = {}" for c
    using assms(1) fresh by (auto simp: accounted_def)
  moreover have "set ((f(cid := f cid @ [p])) c) \<inter> set ((f(cid := f cid @ [p])) c') = {}" if "c \<noteq> c'" for c c'
    using dis that fresh by (auto split: if_splits)
  ultimately show ?thesis unfolding accounted_def by blast
qed

lemma accounted_stop:
  assumes "accounted L0 L f"
  shows "accounted L0 (L - set (f cid)) (f(cid := []))"
proof -
  have dis: "c \<noteq> c' \<Longrightarrow> set (f c) \<inter> set (f c') = {}" "set (f c) \<inter> L0 = {}" for c c'
    using assms by (auto simp: accounted_def)
  have L: "L = L0 \<union> (\<Union>c. set (f c))" using assms by (simp add: accounted_def)
  have "L - set (f cid) = L0 \<union> (\<Union>c. set ((f(cid := [])) c))"
  proof (rule set_eqI)
    fix x
    show "x \<in> L - set (f cid) \<longleftrightarrow> x \<in> L0 \<union> (\<Union>c. set ((f(cid := [])) c))"
    proof
      assume "x \<in> L - set (f cid)"
      then consider "x \<in> L0" | c where "c \<noteq> cid" "x \<in> set (f c)"
        unfolding L by (metis DiffD1 DiffD2 UN_E UnE)
      then show "x \<in> L0 \<union> (\<Union>c. set ((f(cid := [])) c))" by cases auto
    next
      assume "x \<in> L0 \<union> (\<Union>c. set ((f(cid := [])) c))"
      then consider "x \<in> L0" | c where "c \<noteq> cid" "x \<in> set (f c)" by (auto split: if_splits)
      then show "x \<in> L - set (f cid)"
        using dis unfolding L by cases (blast, metis DiffI UN_I UNIV_I UnI2 disjoint_iff)
    qed
  qed
  with assms show ?thesis unfolding accounted_def by auto
qed

lemma onWorld_Ok: "onWorld f s = (Ok x, t) \<longleftrightarrow> (\<exists>w. f (dworld s) = (Inr x, w) \<and> t = s\<lparr>dworld := w\<rparr>)"
  by (auto simp: onWorld_def zoom_def external_def split: prod.splits sum.splits)

lemma startProxies_accounts:
  assumes laws: "process_laws api os h live"
  shows "startProxies os cid rs s = (Ok (), t) \<Longrightarrow>
    accounted L0 (live (dworld s)) (GetProxyPortPIDs (dcache s)) \<Longrightarrow>
    accounted L0 (live (dworld t)) (GetProxyPortPIDs (dcache t)) \<and>
    GetContainerInfo (dcache t) = GetContainerInfo (dcache s) \<and>
    (\<forall>c. c \<noteq> cid \<longrightarrow> GetProxyPortPIDs (dcache t) c = GetProxyPortPIDs (dcache s) c)"
proof (induction rs arbitrary: s)
  case (Cons r rs)
  from Cons.prems(1) obtain pid w argv where
      p: "CmdStart os ''socat'' argv (dworld s) = (Inr pid, w)" and
      rest: "startProxies os cid rs (s\<lparr>dworld := w, dcache := AddProxyPortPID cid pid (dcache s)\<rparr>) = (Ok (), t)"
    by (auto simp: andThen_Ok_iff AddPortProxy_def onWorld_Ok lift_res_def upd_def)
  have fresh: "pid \<notin> live (dworld s)" "live w = insert pid (live (dworld s))"
    using process_lawsD(1) [OF laws p] by simp_all
  have tab: "GetProxyPortPIDs (AddProxyPortPID cid pid (dcache s)) =
      (GetProxyPortPIDs (dcache s))(cid := GetProxyPortPIDs (dcache s) cid @ [pid])"
    by (simp add: fun_eq_iff)
  have ci: "GetContainerInfo (AddProxyPortPID cid pid (dcache s)) = GetContainerInfo (dcache s)"
    by (rule ext) simp
  show ?case
    using Cons.IH [OF rest] accounted_start [OF Cons.prems(2) fresh(1), of cid] fresh(2)
    by (simp add: tab ci fun_upd_def)
qed (simp add: ret_def)

lemma killProxies_kills:
  assumes laws: "process_laws api os h live"
  shows "killProxies h ps s = (Ok (), t) \<Longrightarrow>
    live (dworld t) = live (dworld s) - set ps \<and> dcache t = dcache s"
proof (induction ps arbitrary: s)
  case (Cons p ps)
  from Cons.prems obtain u w where k: "KillPid h p (dworld s) = (Inr u, w)"
      and rest: "killProxies h ps (s\<lparr>dworld := w\<rparr>) = (Ok (), t)"
    by (auto simp: andThen_Ok_iff RemovePortProxy_def onWorld_Ok)
  have "live w = live (dworld s) - {p}"
    by (rule process_lawsD(2) [OF laws k])
  with Cons.IH [OF rest] show ?case by auto
qed (simp add: ret_def)

text \<open>Rules of networks touch neither processes nor the records of containers.\<close>

definition same_proxies :: "('w \<Rightarrow> int set) \<Rightarrow> 'w dind \<Rightarrow> 'w dind \<Rightarrow> bool" where
  "same_proxies live s t \<longleftrightarrow> live (dworld t) = live (dworld s) \<and>
     GetProxyPortPIDs (dcache t) = GetProxyPortPIDs (dcache s) \<and>
     GetContainerInfo (dcache t) = GetContainerInfo (dcache s)"

lemma same_proxies_refl [simp]: "same_proxies live s s"
  by (simp add: same_proxies_def)

lemma same_proxies_trans: "same_proxies live s t \<Longrightarrow> same_proxies live t u \<Longrightarrow> same_proxies live s u"
  by (simp add: same_proxies_def)

lemma onWorld_same:
  "(\<And>w. live (snd (f w)) = live w) \<Longrightarrow> onWorld f s = (r, t) \<Longrightarrow> same_proxies live s t"
  by (auto simp: same_proxies_def onWorld_def go_simps split: prod.splits sum.splits) (metis snd_conv)+

lemma rules_same:
  assumes laws: "process_laws api os h live"
  shows "appendRules h sns s = (r, t) \<Longrightarrow> same_proxies live s t"
    and "deleteRules h sns s = (r, t) \<Longrightarrow> same_proxies live s t"
proof (induction sns arbitrary: s)
  case (Cons sn sns)
  {
    case 1
    obtain r1 s1 where a: "onWorld (AppendUnique h (netmapRule sn)) s = (r1, s1)" by fastforce
    have "same_proxies live s s1" by (rule onWorld_same [OF _ a]) (simp add: process_lawsD [OF laws])
    then show ?case using 1 a Cons.IH(1) [of s1] same_proxies_trans [of live s s1 t]
      by (cases r1) (auto simp: andThen_def)
  next
    case 2
    obtain r1 s1 where a: "onWorld (IptDelete h (netmapRule sn)) s = (r1, s1)" by fastforce
    have "same_proxies live s s1" by (rule onWorld_same [OF _ a]) (simp add: process_lawsD [OF laws])
    then show ?case using 2 a Cons.IH(2) [of s1] same_proxies_trans [of live s s1 t]
      by (cases r1) (auto simp: andThen_def)
  }
qed (simp_all add: ret_def)

section \<open>Synchronous runs account for every proxy\<close>

lemma container_start_accounts:
  assumes laws: "process_laws api os h live"
    and acc: "accounted L0 (live (dworld s)) (GetProxyPortPIDs (dcache s))"
    and run: "setupContainerPortProxy os info s = (Ok (), t)"
  shows "accounted L0 (live (dworld t)) (GetProxyPortPIDs (dcache t)) \<and>
    GetContainerInfo (dcache t) = GetContainerInfo (dcache s) \<and>
    (\<forall>c. c \<noteq> CtID info \<longrightarrow> GetProxyPortPIDs (dcache t) c = GetProxyPortPIDs (dcache s) c)"
  using startProxies_accounts [OF laws run [unfolded setupContainerPortProxy_def] acc] .

lemma container_stop_accounts:
  assumes laws: "process_laws api os h live"
    and acc: "accounted L0 (live (dworld s)) (GetProxyPortPIDs (dcache s))"
    and run: "setdownContainerPortProxy h info s = (Ok (), t)"
  shows "accounted L0 (live (dworld t)) (GetProxyPortPIDs (dcache t)) \<and>
    GetContainerInfo (dcache t) = GetContainerInfo (dcache s) \<and>
    GetProxyPortPIDs (dcache t) = (GetProxyPortPIDs (dcache s))(CtID info := [])"
proof -
  let ?ps = "GetProxyPortPIDs (dcache s) (CtID info)"
  from run obtain s1 where k: "killProxies h ?ps s = (Ok (), s1)"
      and t: "t = s1\<lparr>dcache := DeleteProxyPortPIDs (CtID info) (dcache s1)\<rparr>"
    by (auto simp: setdownContainerPortProxy_def andThen_Ok_iff ask_def upd_def)
  have s1: "live (dworld s1) = live (dworld s) - set ?ps" "dcache s1 = dcache s"
    using killProxies_kills [OF laws k] by simp_all
  have tab: "GetProxyPortPIDs (dcache t) = (GetProxyPortPIDs (dcache s))(CtID info := [])"
    by (rule ext) (simp add: t s1)
  have ci: "GetContainerInfo (dcache t) = GetContainerInfo (dcache s)"
    by (rule ext) (simp add: t s1)
  show ?thesis
    using accounted_stop [OF acc, of "CtID info"] by (simp add: tab ci) (simp add: t s1)
qed

text \<open>
  The invariant of a synchronous run: the live processes are accounted for, and only
  registered containers have proxies.
\<close>

definition proxy_inv :: "('w \<Rightarrow> int set) \<Rightarrow> int set \<Rightarrow> 'w dind \<Rightarrow> bool" where
  "proxy_inv live L0 s \<longleftrightarrow> accounted L0 (live (dworld s)) (GetProxyPortPIDs (dcache s)) \<and>
     (\<forall>c. GetContainerInfo (dcache s) c = None \<longrightarrow> GetProxyPortPIDs (dcache s) c = [])"

lemma proxy_inv_same: "proxy_inv live L0 s \<Longrightarrow> same_proxies live s t \<Longrightarrow> proxy_inv live L0 t"
  by (simp add: proxy_inv_def same_proxies_def)

lemma orPanic_Ok: "orPanic m s = (Ok (), t) \<longleftrightarrow> m s = (Ok (), t)"
  by (auto simp: orPanic_def attempt_def go_simps split: prod.splits res.splits)

lemma orLog_Ok: "orLog m s = (Ok (), t) \<longleftrightarrow> (\<exists>r. m s = (r, t) \<and> (\<forall>p. r \<noteq> Panic p))"
  by (auto simp: orLog_def attempt_def go_simps split: prod.splits res.splits)

lemma net_message_same:
  assumes laws: "process_laws api os h live" and run: "handleMessage os h (NetMsg info) s = (Ok (), t)"
  shows "same_proxies live s t"
proof (cases "NetAction info")
  case resourceActionCreate
  then have "appendRules h (Subnets info) s = (Ok (), t)"
    using run by (simp add: handleMessage_def setupNetworkPortForward_def orPanic_Ok)
  then show ?thesis by (rule rules_same(1) [OF laws])
next
  case resourceActionDestroy
  then obtain r where "deleteRules h (Subnets info) s = (r, t)"
    using run by (auto simp: handleMessage_def setdownNetworkPortForward_def orLog_Ok)
  then show ?thesis by (rule rules_same(2) [OF laws])
qed (use run in \<open>simp_all add: handleMessage_def ret_def\<close>)

lemma octets_keep_world:
  "assignSubnets ds s = (r, t) \<Longrightarrow> dworld t = dworld s"
  "releaseSubnets sns s = (r', t) \<Longrightarrow> dworld t = dworld s"
proof -
  show "assignSubnets ds s = (r, t) \<Longrightarrow> dworld t = dworld s"
  proof (induction ds arbitrary: s r)
    case (Cons d ds)
    then show ?case
      by (fastforce simp: go_simps markAndGetFirstAvailableHostSecondOctet_def
          split: prod.splits res.splits option.splits)
  qed (simp add: go_simps)
  show "releaseSubnets sns s = (r', t) \<Longrightarrow> dworld t = dworld s"
  proof (induction sns arbitrary: s)
    case (Cons d ds)
    then show ?case
      by (fastforce simp: go_simps releaseOctet_def split: prod.splits res.splits if_splits)
  qed (simp add: go_simps)
qed

lemma network_create_event:
  assumes laws: "process_laws api os h live" and run: "onNetworkCreate api nid s = (Ok (), t)"
  shows "same_proxies live s t \<and> (\<exists>n. sent t = sent s @ [NetMsg n])"
proof -
  obtain r1 s1 where g: "getNetworkSubnets api nid s = (r1, s1)" by fastforce
  have s1: "sent s1 = sent s" "dcache s1 = dcache s" and np: "\<And>p. r1 \<noteq> Panic p"
    using g by (auto simp: getNetworkSubnets_def onWorld_def go_simps split: prod.splits sum.splits res.splits)
  have "dworld s1 = snd (NetworkInspect api nid (dworld s))"
    using g by (auto simp: getNetworkSubnets_def onWorld_def go_simps split: prod.splits sum.splits res.splits)
  then have l1: "live (dworld s1) = live (dworld s)" by (simp add: process_lawsD [OF laws])
  obtain subs s2 n where a: "assignSubnets (case r1 of Ok ds \<Rightarrow> ds | _ \<Rightarrow> []) s1 = (Ok subs, s2)"
      and t: "t = s2\<lparr>dcache := AddNetworkInfo n (dcache s2), sent := sent s2 @ [NetMsg n]\<rparr>"
    using run g np
    by (cases r1) (auto simp: onNetworkCreate_def attempt_def andThen_Ok_iff upd_def send_def Let_def ret_def)
  have "same_proxies live s t"
    using assignSubnets_frame [OF a] octets_keep_world(1) [OF a] s1 l1
    by (simp add: same_proxies_def t fun_eq_iff)
  then show ?thesis using assignSubnets_frame [OF a] s1 by (auto simp: t)
qed

lemma network_destroy_event:
  assumes run: "onNetworkDestroy nid s = (Ok (), t)"
  shows "same_proxies live s t \<and> (sent t = sent s \<or> (\<exists>n. sent t = sent s @ [NetMsg n]))"
proof (cases "GetNetworkInfo (dcache s) nid")
  case None
  then show ?thesis using run by (simp add: onNetworkDestroy_def go_simps)
next
  case (Some info)
  then obtain s1 n where rel: "releaseSubnets (Subnets info) s = (Ok (), s1)"
      and t: "t = s1\<lparr>dcache := snd (DeleteNetworkInfo nid (dcache s1)), sent := sent s1 @ [NetMsg n]\<rparr>"
    using run by (auto simp: onNetworkDestroy_def andThen_Ok_iff ask_def upd_def send_def)
  show ?thesis
    using releaseSubnets_frame [OF rel] octets_keep_world(2) [OF rel]
    by (auto simp: same_proxies_def t fun_eq_iff)
qed

lemma container_start_event:
  assumes laws: "process_laws api os h live" and run: "onContainerStart api cid s = (Ok (), t)"
  shows "same_proxies live s t \<and> sent t = sent s \<or>
    (\<exists>i. CtID i = cid \<and> CtAction i = resourceActionStart \<and> sent t = sent s @ [ContMsg i] \<and>
       dcache t = AddContainerInfo i (dcache s) \<and> live (dworld t) = live (dworld s))"
proof -
  have w: "dworld t = snd (ContainerInspect api cid (dworld s))"
    using run by (auto simp: onContainerStart_def getContainerInspectInfo_def onWorld_def go_simps send_def Let_def
        split: prod.splits sum.splits res.splits)
  then have l: "live (dworld t) = live (dworld s)" by (simp add: process_lawsD [OF laws])
  have "dcache t = dcache s \<and> sent t = sent s \<or>
    (\<exists>i. CtID i = cid \<and> CtAction i = resourceActionStart \<and> sent t = sent s @ [ContMsg i] \<and>
       dcache t = AddContainerInfo i (dcache s))"
    using run by (fastforce simp: onContainerStart_def getContainerInspectInfo_def onWorld_def go_simps send_def Let_def
        split: prod.splits sum.splits res.splits)
  with l show ?thesis by (auto simp: same_proxies_def)
qed

lemma container_stop_event:
  assumes run: "onContainerStop cid s = (Ok (), t)"
  shows "dworld t = dworld s \<and> dcache t = snd (DeleteContainerInfo cid (dcache s)) \<and>
    (case GetContainerInfo (dcache s) cid of
       None \<Rightarrow> sent t = sent s
     | Some i \<Rightarrow> sent t = sent s @ [ContMsg (i\<lparr>CtAction := resourceActionStop\<rparr>)])"
  using run
  by (auto simp: onContainerStop_def DeleteContainerInfo_def GetContainerInfo_def go_simps send_def
      split: option.splits)

text \<open>
  Docker starts a container that is not running: between two \<^verbatim>\<open>start\<close> events of a container
  there is its \<^verbatim>\<open>stop\<close> or \<^verbatim>\<open>die\<close>.
\<close>

fun freshStarts :: "string set \<Rightarrow> EventMsg list \<Rightarrow> bool" where
  "freshStarts K [] = True"
| "freshStarts K (m # ms) =
     (if MsgType m = ''container'' \<and> MsgAction m = ''start''
      then ActorID m \<notin> K \<and> freshStarts (insert (ActorID m) K) ms
      else if MsgType m = ''container'' \<and> (MsgAction m = ''stop'' \<or> MsgAction m = ''die'')
      then freshStarts (K - {ActorID m}) ms
      else freshStarts K ms)"

definition proxy_known :: "('w \<Rightarrow> int set) \<Rightarrow> int set \<Rightarrow> string set \<Rightarrow> 'w dind \<Rightarrow> bool" where
  "proxy_known live L0 K s \<longleftrightarrow>
     proxy_inv live L0 s \<and> cts.well_keyed (dcache s) \<and> dom (GetContainerInfo (dcache s)) \<subseteq> K"

lemma proxy_known_same:
  "proxy_known live L0 K s \<Longrightarrow> same_proxies live s t \<Longrightarrow> proxy_known live L0 K t"
  using proxy_inv_same [of live L0 s t]
  by (simp add: proxy_known_def same_proxies_def cts.well_keyed_def)

lemma proxy_known_mono: "proxy_known live L0 K s \<Longrightarrow> K \<subseteq> K' \<Longrightarrow> proxy_known live L0 K' s"
  by (auto simp: proxy_known_def)

lemma newMessage_simps [simp]:
  "sent t = sent s \<Longrightarrow> newMessage s t = None"
  "sent t = sent s @ [x] \<Longrightarrow> newMessage s t = Some x"
  by (simp_all add: newMessage_def)

lemma syncStep_Ok:
  "syncStep api os h m s = (Ok (), t) \<longleftrightarrow>
     (\<exists>s1. handleEvent api m s = (Ok (), s1) \<and>
        (case newMessage s s1 of None \<Rightarrow> t = s1 | Some x \<Rightarrow> handleMessage os h x s1 = (Ok (), t)))"
  by (auto simp: syncStep_def andThen_Ok_iff ask_def ret_def split: option.splits)

lemma sync_start_known:
  assumes laws: "process_laws api os h live" and known: "proxy_known live L0 K s" and fresh: "cid \<notin> K"
    and ev: "onContainerStart api cid s = (Ok (), s1)"
    and rest: "case newMessage s s1 of None \<Rightarrow> t = s1 | Some x \<Rightarrow> handleMessage os h x s1 = (Ok (), t)"
  shows "proxy_known live L0 (insert cid K) t"
  using container_start_event [OF laws ev]
proof (elim disjE exE conjE)
  assume "same_proxies live s s1" "sent s1 = sent s"
  then show ?thesis
    using rest proxy_known_same [OF known] proxy_known_mono [of live L0 K s1 "insert cid K"] by auto
next
  fix i
  assume i: "CtID i = cid" "CtAction i = resourceActionStart" "sent s1 = sent s @ [ContMsg i]"
    "dcache s1 = AddContainerInfo i (dcache s)" "live (dworld s1) = live (dworld s)"
  have none: "GetContainerInfo (dcache s) cid = None" and wk: "cts.well_keyed (dcache s)"
    using known fresh by (auto simp: proxy_known_def)
  then have empty: "GetProxyPortPIDs (dcache s) cid = []"
    using known by (simp add: proxy_known_def proxy_inv_def)
  then have tab: "GetProxyPortPIDs (dcache s1) = GetProxyPortPIDs (dcache s)"
    by (auto simp: i)
  have run: "setupContainerPortProxy os i s1 = (Ok (), t)"
    using rest i by (simp add: handleMessage_def orPanic_Ok)
  have acc: "accounted L0 (live (dworld s1)) (GetProxyPortPIDs (dcache s1))"
    using known by (simp add: tab i(5) proxy_known_def proxy_inv_def)
  note fin = container_start_accounts [OF laws acc run]
  have ci: "GetContainerInfo (dcache t) c = (if c = cid then Some i else GetContainerInfo (dcache s) c)" for c
    using fin by (simp add: i cts.get_add)
  have "cts.well_keyed (dcache t)"
    using wk i(1) by (auto simp: cts.well_keyed_def ci)
  moreover have "\<forall>c. GetContainerInfo (dcache t) c = None \<longrightarrow> GetProxyPortPIDs (dcache t) c = []"
  proof (intro allI impI)
    fix c assume "GetContainerInfo (dcache t) c = None"
    then have "c \<noteq> cid" "GetContainerInfo (dcache s) c = None" by (auto simp: ci split: if_splits)
    then show "GetProxyPortPIDs (dcache t) c = []"
      using known fin by (simp add: tab i(1) proxy_known_def proxy_inv_def)
  qed
  moreover have "dom (GetContainerInfo (dcache t)) \<subseteq> insert cid K"
    using known by (auto simp: ci proxy_known_def dom_def split: if_splits)
  ultimately show ?thesis using fin by (simp add: proxy_known_def proxy_inv_def)
qed

lemma sync_stop_known:
  assumes laws: "process_laws api os h live" and known: "proxy_known live L0 K s"
    and ev: "onContainerStop cid s = (Ok (), s1)"
    and rest: "case newMessage s s1 of None \<Rightarrow> t = s1 | Some x \<Rightarrow> handleMessage os h x s1 = (Ok (), t)"
  shows "proxy_known live L0 (K - {cid}) t"
proof -
  note s1 = container_stop_event [OF ev]
  have ci1: "GetContainerInfo (dcache s1) = (GetContainerInfo (dcache s))(cid := None)"
    by (rule ext) (simp add: s1 cts.get_del)
  have tab1: "GetProxyPortPIDs (dcache s1) = GetProxyPortPIDs (dcache s)"
    by (rule ext) (simp add: s1)
  have acc1: "accounted L0 (live (dworld s1)) (GetProxyPortPIDs (dcache s1))"
    unfolding tab1 using known s1 by (simp add: proxy_known_def proxy_inv_def)
  have "GetContainerInfo (dcache t) = GetContainerInfo (dcache s1) \<and>
      accounted L0 (live (dworld t)) (GetProxyPortPIDs (dcache t)) \<and>
      GetProxyPortPIDs (dcache t) = (GetProxyPortPIDs (dcache s))(cid := [])"
  proof (cases "GetContainerInfo (dcache s) cid")
    case None
    then have "t = s1" using s1 rest by simp
    moreover have "GetProxyPortPIDs (dcache s) cid = []"
      using known None by (simp add: proxy_known_def proxy_inv_def)
    ultimately show ?thesis using acc1 by (auto simp: tab1)
  next
    case (Some i)
    then have "CtID i = cid" using known by (simp add: proxy_known_def cts.well_keyed_def)
    moreover have "setdownContainerPortProxy h (i\<lparr>CtAction := resourceActionStop\<rparr>) s1 = (Ok (), t)"
      using Some s1 rest by (simp add: handleMessage_def orPanic_Ok)
    ultimately show ?thesis
      using container_stop_accounts [OF laws acc1, of "i\<lparr>CtAction := resourceActionStop\<rparr>" t]
      by (simp add: tab1) metis
  qed
  then show ?thesis
    using known by (auto simp: proxy_known_def proxy_inv_def cts.well_keyed_def ci1 dom_def split: if_splits)
qed

lemma syncStep_known:
  assumes laws: "process_laws api os h live" and known: "proxy_known live L0 K s"
    and fresh: "freshStarts K (m # ms)" and run: "syncStep api os h m s = (Ok (), t)"
  shows "\<exists>K'. proxy_known live L0 K' t \<and> freshStarts K' ms"
proof -
  obtain s1 where ev: "handleEvent api m s = (Ok (), s1)"
      and rest: "case newMessage s s1 of None \<Rightarrow> t = s1 | Some x \<Rightarrow> handleMessage os h x s1 = (Ok (), t)"
    using run by (auto simp: syncStep_Ok)
  have net: "same_proxies live s t"
    if "same_proxies live s s1 \<and> (sent s1 = sent s \<or> (\<exists>n. sent s1 = sent s @ [NetMsg n]))"
    using that rest net_message_same [OF laws, of _ s1 t] same_proxies_trans [of live s s1 t] by auto
  show ?thesis
  proof (cases rule: handleEvent_cases [of api m])
    case net_create
    then have "same_proxies live s t" using ev network_create_event [OF laws] by (intro net) auto
    with net_create fresh show ?thesis using proxy_known_same [OF known] by auto
  next
    case net_destroy
    then have "same_proxies live s t" using ev network_destroy_event by (intro net) auto
    with net_destroy fresh show ?thesis using proxy_known_same [OF known] by auto
  next
    case ct_start
    then have "ActorID m \<notin> K" "freshStarts (insert (ActorID m) K) ms" using fresh by simp_all
    then show ?thesis
      using sync_start_known [OF laws known _ _ rest] ev ct_start(1) by auto
  next
    case ct_stop
    then have "freshStarts (K - {ActorID m}) ms" using fresh by auto
    then show ?thesis using sync_stop_known [OF laws known _ rest] ev ct_stop(1) by auto
  next
    case other
    then have "t = s" using ev rest by (simp add: ret_def)
    moreover have "freshStarts K ms" using fresh other by auto
    ultimately show ?thesis using known by blast
  qed
qed

lemma syncRun_known:
  assumes laws: "process_laws api os h live"
  shows "proxy_known live L0 K s \<Longrightarrow> freshStarts K ms \<Longrightarrow> syncRun api os h ms s = (Ok (), t) \<Longrightarrow>
    \<exists>K'. proxy_known live L0 K' t"
proof (induction ms arbitrary: s K)
  case (Cons m ms)
  from Cons.prems(3) obtain s1 where st: "syncStep api os h m s = (Ok (), s1)"
      and rest: "syncRun api os h ms s1 = (Ok (), t)"
    by (auto simp: andThen_Ok_iff)
  obtain K' where "proxy_known live L0 K' s1" "freshStarts K' ms"
    using syncStep_known [OF laws Cons.prems(1,2) st] by blast
  then show ?case using Cons.IH rest by blast
qed (auto simp: ret_def)

lemma proxy_known_init: "proxy_known live (live w) {} (initDind w)"
  by (simp add: proxy_known_def proxy_inv_def accounted_def initDind_def NewCache_def cache_defs
      cts.well_keyed_def dom_def)

section \<open>A host to run it on\<close>

text \<open>Processes of the demonstration host: the next PID and the live ones.\<close>

type_synonym procs = "int \<times> int list"

definition demo_docker :: "procs docker_api" where
  "demo_docker = \<lparr>
     NetworkInspect = (\<lambda>nid w. (Inr [''172.17.0.0/16''], w)),
     ContainerInspect = (\<lambda>cid w. (Inr \<lparr>StatePid = 41, SettingsPorts = [\<lparr>Proto = ''tcp'', PortNum = 80\<rparr>],
        SettingsNetworks = [\<lparr>CnID = ''n1'', CnIP = ''172.17.0.2''\<rparr>]\<rparr>, w)),
     ServerVersion = (\<lambda>w. (Inr (), w))\<rparr>"

definition demo_os :: "procs os_api" where
  "demo_os = \<lparr>
     LookPath = (\<lambda>f w. (Inr f, w)), LookupEnv = (\<lambda>v w. None),
     CmdStart = (\<lambda>path args (n, l). if n \<in> set l then (Inl (External ''out of pids''), (n, l)) else (Inr n, (n + 1, n # l))),
     Chown = (\<lambda>d u g w. (Inr (), w))\<rparr>"

definition demo_host :: "procs host_api" where
  "demo_host = \<lparr>
     AppendUnique = (\<lambda>args w. (Inr (), w)), IptDelete = (\<lambda>args w. (Inr (), w)),
     KillPid = (\<lambda>p (n, l). (Inr (), (n, filter (\<lambda>q. q \<noteq> p) l)))\<rparr>"

definition demo_live :: "procs \<Rightarrow> int set" where
  "demo_live w = set (snd w)"

lemma demo_laws: "process_laws demo_docker demo_os demo_host demo_live"
  unfolding process_laws_def
  by (intro conjI allI impI)
     (auto simp: demo_docker_def demo_os_def demo_host_def demo_live_def split: if_splits)

definition ev :: "string \<Rightarrow> string \<Rightarrow> string \<Rightarrow> EventMsg" where
  "ev k a i = \<lparr>MsgType = k, MsgAction = a, ActorID = i\<rparr>"

lemmas host_defs =
  demo_docker_def demo_os_def demo_host_def ev_def handleMessage_def setupContainerPortProxy_def
  setdownContainerPortProxy_def setupNetworkPortForward_def setdownNetworkPortForward_def
  AddPortProxy_def RemovePortProxy_def createSocatCommand_def proxyRequest_def orPanic_def orLog_def
  syncStep_def newMessage_def proxySubnet_def containerIPs_def

section \<open>Interleaving\<close>

definition initSystem :: "'w \<Rightarrow> 'w system" where
  "initSystem w = \<lparr>dst = initDind w, offered = None, taken_msg = None\<rparr>"

text \<open>The main goroutine writes the world and the proxy lists only.\<close>

definition event_view ::
    "'w dind \<Rightarrow> bool list \<times> (string \<Rightarrow> NetworkInfo option) \<times> (string \<Rightarrow> ContainerInfo option) \<times> DindOut list" where
  "event_view s = (usedHostSecondOctet s, GetNetworkInfo (dcache s), GetContainerInfo (dcache s), sent s)"

lemma keeps_onWorld [intro]: "keeps event_view (onWorld f)"
  by (rule keepsI) (simp add: event_view_def onWorld_def go_simps split: prod.splits sum.splits)

lemma keeps_pids [intro]:
  "keeps event_view (upd (\<lambda>s. s\<lparr>dcache := AddProxyPortPID cid p (dcache s)\<rparr>))"
  "keeps event_view (upd (\<lambda>s. s\<lparr>dcache := DeleteProxyPortPIDs cid (dcache s)\<rparr>))"
  by (auto intro!: keepsI ext simp: event_view_def upd_def)

lemma keeps_rules [intro]: "keeps event_view (appendRules h sns)" "keeps event_view (deleteRules h sns)"
  by (induction sns) auto

lemma keeps_proxies [intro]: "keeps event_view (startProxies os cid rs)" "keeps event_view (killProxies h ps)"
proof -
  show "keeps event_view (startProxies os cid rs)"
    by (induction rs) (auto simp: AddPortProxy_def)
  show "keeps event_view (killProxies h ps)"
    by (induction ps) (auto simp: RemovePortProxy_def)
qed

lemma keeps_handleMessage: "keeps event_view (handleMessage os h x)"
proof -
  have log: "keeps event_view m \<Longrightarrow> keeps event_view (orPanic m)"
      "keeps event_view m \<Longrightarrow> keeps event_view (orLog m)" for m :: "('a dind, unit) go"
    by (auto simp: orPanic_def orLog_def intro!: keeps_attempt split: sum.splits)
  show ?thesis
    by (auto simp: handleMessage_def setupNetworkPortForward_def setdownNetworkPortForward_def
        setupContainerPortProxy_def setdownContainerPortProxy_def intro!: log
        split: DindOut.splits resourceAction.splits)
qed

lemma octet_inv_view: "event_view t = event_view s \<Longrightarrow> octet_inv t = octet_inv s"
  by (simp add: event_view_def octet_inv_def nets.well_keyed_def)

lemma hist_inv_view: "event_view t = event_view s \<Longrightarrow> hist_inv t = hist_inv s"
  by (simp add: event_view_def hist_inv_def cts.well_keyed_def)

interpretation loops: transition_system "\<lambda>s. \<exists>w. s = initSystem w" "dind_step api os h"
  "\<lambda>s. octet_inv (dst s) \<and> hist_inv (dst s)"
  for api :: "'w docker_api" and os h
proof unfold_locales
  fix s :: "'w system"
  assume "\<exists>w. s = initSystem w"
  then show "octet_inv (dst s) \<and> hist_inv (dst s)"
    by (auto simp: initSystem_def octet_inv_init hist_inv_init)
next
  fix s t :: "'w system"
  assume inv: "octet_inv (dst s) \<and> hist_inv (dst s)" and "dind_step api os h s t"
  from this(2) show "octet_inv (dst t) \<and> hist_inv (dst t)"
  proof cases
    case (event m t')
    then show ?thesis using inv octet_inv_handleEvent hist_inv_handleEvent by auto
  next
    case (handle x t')
    then have "event_view t' = event_view (dst s)" by (blast intro: keepsD keeps_handleMessage)
    then show ?thesis using inv handle octet_inv_view hist_inv_view by auto
  qed (use inv in auto)
qed

text \<open>A schedule of the two goroutines, run.\<close>

datatype turn = EventTurn EventMsg | ReceiveTurn | HandleTurn

definition schedStep ::
    "'w docker_api \<Rightarrow> 'w os_api \<Rightarrow> 'w host_api \<Rightarrow> turn \<Rightarrow> 'w system \<Rightarrow> 'w system option" where
  "schedStep api os h t s = (case t of
       EventTurn m \<Rightarrow>
         (if offered s = None then
           (case handleEvent api m (dst s) of
              (Ok _, d) \<Rightarrow> Some (s\<lparr>dst := d, offered := newMessage (dst s) d\<rparr>) | _ \<Rightarrow> None)
          else None)
     | ReceiveTurn \<Rightarrow>
         (case (offered s, taken_msg s) of
            (Some x, None) \<Rightarrow> Some (s\<lparr>offered := None, taken_msg := Some x\<rparr>) | _ \<Rightarrow> None)
     | HandleTurn \<Rightarrow>
         (case taken_msg s of
            Some x \<Rightarrow> (case handleMessage os h x (dst s) of
               (Ok _, d) \<Rightarrow> Some (s\<lparr>dst := d, taken_msg := None\<rparr>) | _ \<Rightarrow> None)
          | None \<Rightarrow> None))"

fun schedRun ::
    "'w docker_api \<Rightarrow> 'w os_api \<Rightarrow> 'w host_api \<Rightarrow> turn list \<Rightarrow> 'w system \<Rightarrow> 'w system option" where
  "schedRun api os h [] s = Some s"
| "schedRun api os h (t # ts) s =
     (case schedStep api os h t s of None \<Rightarrow> None | Some s' \<Rightarrow> schedRun api os h ts s')"

lemma schedStep_step: "schedStep api os h t s = Some s' \<Longrightarrow> dind_step api os h s s'"
  by (auto simp: schedStep_def split: turn.splits if_splits prod.splits res.splits option.splits
      intro: dind_step.intros)

lemma schedRun_steps: "schedRun api os h ts s = Some s' \<Longrightarrow> rtranclp (dind_step api os h) s s'"
proof (induction ts arbitrary: s)
  case (Cons t ts)
  then obtain s1 where "schedStep api os h t s = Some s1" "schedRun api os h ts s1 = Some s'"
    by (auto split: option.splits)
  then show ?case using Cons.IH schedStep_step converse_rtranclp_into_rtranclp by metis
qed simp

section \<open>Properties\<close>

text \<open>
  Claim C27. The two goroutines interleave in any way and the octet pool stays sound: at every reachable
  state the subnets of the known networks have distinct octets in the range 1 to 255, all of them
  marked as used, and the containers known to the cache are those whose last message is a start.
\<close>

theorem interleaving_keeps_octets_and_history:
  assumes "rtranclp (dind_step api os h) (initSystem w) s"
  shows "(\<forall>k n. GetNetworkInfo (dcache (dst s)) k = Some n \<longrightarrow>
       distinct (octs n) \<and> set (octs n) \<subseteq> {1..255} \<inter> taken (usedHostSecondOctet (dst s))) \<and>
     (\<forall>k k' n n'. k \<noteq> k' \<longrightarrow> GetNetworkInfo (dcache (dst s)) k = Some n \<longrightarrow>
       GetNetworkInfo (dcache (dst s)) k' = Some n' \<longrightarrow> set (octs n) \<inter> set (octs n') = {}) \<and>
     (\<forall>cid. (GetContainerInfo (dcache (dst s)) cid \<noteq> None) = running cid (sent (dst s)))"
proof -
  have inv: "octet_inv (dst s)" "hist_inv (dst s)"
    using loops.reachable_inv [OF _ assms] by auto
  have own: "owns (GetNetworkInfo (dcache (dst s))) (taken (usedHostSecondOctet (dst s)))"
    and "taken (usedHostSecondOctet (dst s)) \<subseteq> {1..255}"
    using inv(1) octets.used_range [of "usedHostSecondOctet (dst s)"] by (auto simp: octet_inv_def)
  then show ?thesis using inv(2) unfolding owns_def hist_inv_def by blast
qed

definition race :: "turn list" where
  "race = [EventTurn (ev ''network'' ''create'' ''n1''), ReceiveTurn, HandleTurn,
     EventTurn (ev ''container'' ''start'' ''c1''), ReceiveTurn, HandleTurn,
     EventTurn (ev ''container'' ''die'' ''c1''), ReceiveTurn,
     EventTurn (ev ''container'' ''start'' ''c1''), HandleTurn, ReceiveTurn, HandleTurn]"

theorem interleaving_keeps_octets_and_history_witness:
  "\<exists>s. rtranclp (dind_step demo_docker demo_os demo_host) (initSystem (100, [7])) s \<and>
     running ''c1'' (sent (dst s)) \<and> GetContainerInfo (dcache (dst s)) ''c1'' \<noteq> None"
proof -
  obtain s where run: "schedRun demo_docker demo_os demo_host race (initSystem (100, [7])) = Some s"
      and s: "GetContainerInfo (dcache (dst s)) ''c1'' \<noteq> None"
    using that
    by (simp add: race_def schedStep_def initSystem_def host_defs event_defs go_simps firstFree.simps)
  show ?thesis
    using interleaving_keeps_octets_and_history [OF schedRun_steps [OF run]] schedRun_steps [OF run] s by blast
qed

text \<open>
  Claim C26. When the main loop answers every event before the next one is read, it loses no proxy:
  after any run over events in which containers start only when they are not running, the
  live processes are those that were there before and the recorded proxies, each recorded
  for one container and once, and a container that is not registered has none left.
\<close>

theorem no_proxy_lost:
  assumes "process_laws api os h live"
    and "freshStarts {} ms"
    and "syncRun api os h ms (initDind w) = (Ok (), s)"
  shows "live (dworld s) = live w \<union> (\<Union>c. set (GetProxyPortPIDs (dcache s) c)) \<and>
    (\<forall>c. distinct (GetProxyPortPIDs (dcache s) c)) \<and>
    (\<forall>c c'. c \<noteq> c' \<longrightarrow> set (GetProxyPortPIDs (dcache s) c) \<inter> set (GetProxyPortPIDs (dcache s) c') = {}) \<and>
    (\<forall>c. GetContainerInfo (dcache s) c = None \<longrightarrow> GetProxyPortPIDs (dcache s) c = [])"
proof -
  obtain K where "proxy_known live (live w) K s"
    using syncRun_known [OF assms(1) proxy_known_init assms(2,3)] by blast
  then show ?thesis by (simp add: proxy_known_def proxy_inv_def accounted_def)
qed

definition demo_run :: "EventMsg list" where
  "demo_run = [ev ''network'' ''create'' ''n1'', ev ''container'' ''start'' ''c1'',
     ev ''container'' ''start'' ''c2'', ev ''container'' ''die'' ''c1'', ev ''container'' ''stop'' ''c1'']"

theorem no_proxy_lost_witness:
  "\<exists>s. syncRun demo_docker demo_os demo_host demo_run (initDind (100, [7])) = (Ok (), s) \<and>
     demo_live (dworld s) = {7, 101} \<and> GetProxyPortPIDs (dcache s) ''c2'' = [101] \<and>
     GetProxyPortPIDs (dcache s) ''c1'' = []"
proof -
  obtain s where s: "syncRun demo_docker demo_os demo_host demo_run (initDind (100, [7])) = (Ok (), s)"
      "dworld s = (102, [101, 7])" "GetProxyPortPIDs (dcache s) ''c2'' = [101]"
      "GetContainerInfo (dcache s) ''c1'' = None"
    using that by (simp add: demo_run_def host_defs event_defs go_simps firstFree.simps)
  have f: "freshStarts {} demo_run" by (simp add: demo_run_def ev_def)
  show ?thesis
    using no_proxy_lost [OF demo_laws f s(1)] s by (intro exI [of _ s]) (auto simp: demo_live_def)
qed


lemma startProxies_panics_iff:
  assumes total: "\<And>argv w. \<exists>p w'. CmdStart os ''socat'' argv w = (Inr p, w')"
  shows "(\<exists>p. fst (startProxies os cid rs s) = Panic p) \<longleftrightarrow> (\<exists>r\<in>set rs. ReqProto r \<notin> {''tcp'', ''udp''})"
proof (induction rs arbitrary: s)
  case (Cons r rs)
  show ?case
  proof (cases "ReqProto r \<in> {''tcp'', ''udp''}")
    case True
    then obtain argv where "createSocatCommand r = Ok argv" by (auto simp: createSocatCommand_def)
    moreover obtain p w' where "CmdStart os ''socat'' argv (dworld s) = (Inr p, w')" using total by blast
    ultimately show ?thesis
      using True Cons.IH by (auto simp: AddPortProxy_def onWorld_def go_simps)
  next
    case False
    then have "createSocatCommand r = Panic ''nil pointer dereference''" by (simp add: createSocatCommand_def)
    with False show ?thesis by (simp add: AddPortProxy_def go_simps)
  qed
qed (simp add: ret_def)



end
