(* ===== verification/Goroutines.thy ===== *)
theory Goroutines
  imports Prelude
begin

text \<open>
  Goroutines as trees of atomic actions on a shared state: what interleaves is explicit, a goroutine that hangs is a
  value, and every run of one is finite because the trees are. With sequencing, the run of one
  alone, and four ways to speak of all its actions: what each may do to the state (\<open>obeys\<close>), that none
  hangs (\<open>lively\<close>), that a result needs a condition to have held (\<open>gated\<close>), and what is left of a goroutine after one (\<open>rest_of\<close>).
\<close>

section \<open>Goroutines\<close>

text \<open>A goroutine has ended with a value or an error, hangs for good, or acts on the state and goes on.\<close>

datatype ('s, 'a) proc =
    Ended "goerr + 'a"
  | Hanging
  | Act "'s \<Rightarrow> 's \<times> ('s, 'a) proc"

primrec bindP :: "('s, 'a) proc \<Rightarrow> ('a \<Rightarrow> ('s, 'b) proc) \<Rightarrow> ('s, 'b) proc" where
  "bindP (Ended r) k = (case r of Inl e \<Rightarrow> Ended (Inl e) | Inr x \<Rightarrow> k x)"
| "bindP Hanging k = Hanging"
| "bindP (Act f) k = Act (\<lambda>s. map_prod (\<lambda>s. s) (\<lambda>p. bindP p k) (f s))"

definition call :: "('s \<Rightarrow> 'a \<times> 's) \<Rightarrow> ('s, 'a) proc" where
  "call f = Act (\<lambda>s. case f s of (x, s') \<Rightarrow> (s', Ended (Inr x)))"

definition giving :: "'a \<Rightarrow> ('s, 'a) proc" where
  "giving x = Ended (Inr x)"

text \<open>\<^verbatim>\<open>errors.Wrap(err, msg)\<close>, which is nil for nil.\<close>

definition orWrap :: "string \<Rightarrow> goerr option \<Rightarrow> ('s, unit) proc" where
  "orWrap msg err = Ended (case err of None \<Rightarrow> Inr () | Some e \<Rightarrow> Inl (WrapError msg e))"

text \<open>A goroutine that runs alone; \<open>None\<close> when it hangs.\<close>

primrec runP :: "('s, 'a) proc \<Rightarrow> 's \<Rightarrow> (goerr + 'a) option \<times> 's" where
  "runP (Ended r) = (\<lambda>s. (Some r, s))"
| "runP Hanging = (\<lambda>s. (None, s))"
| "runP (Act f) = (\<lambda>s. case map_prod (\<lambda>s. s) runP (f s) of (s', g) \<Rightarrow> g s')"

section \<open>Sequencing\<close>

lemma runP_bindP:
  "runP (bindP m k) s = (case runP m s of
       (Some (Inr x), s') \<Rightarrow> runP (k x) s' | (Some (Inl e), s') \<Rightarrow> (Some (Inl e), s') | (None, s') \<Rightarrow> (None, s'))"
proof (induction m arbitrary: s)
  case (Act f)
  then show ?case using Act.IH [of "f s" "snd (f s)"] by (simp add: map_prod_def split_beta snds.intros surjective_pairing)
qed (simp_all split: sum.splits)

lemma runP_call: "runP (call f) s = (Some (Inr (fst (f s))), snd (f s))"
  by (simp add: call_def split_beta)

lemmas runP_simps = runP_bindP runP_call giving_def orWrap_def

section \<open>What a goroutine may do to the state\<close>

inductive obeys :: "('s \<Rightarrow> 's \<Rightarrow> bool) \<Rightarrow> ('s, 'a) proc \<Rightarrow> bool" for R where
  "obeys R (Ended r)"
| "obeys R Hanging"
| "(\<And>s. R s (fst (f s)) \<and> obeys R (snd (f s))) \<Longrightarrow> obeys R (Act f)"

inductive_simps obeys_simps [simp]: "obeys R (Ended r)" "obeys R Hanging" "obeys R (Act f)"

lemma obeys_bindP: "obeys R m \<Longrightarrow> (\<And>x. obeys R (k x)) \<Longrightarrow> obeys R (bindP m k)"
  by (induction rule: obeys.induct) (auto split: sum.splits)

lemma obeys_call: "(\<And>s. R s (snd (f s))) \<Longrightarrow> obeys R (call f)"
  by (simp add: call_def split_beta)

lemma obeys_plain [simp]: "obeys R (giving x)" "obeys R (orWrap msg err)"
  by (simp_all add: giving_def orWrap_def)

section \<open>Goroutines that do not hang\<close>

inductive lively :: "('s, 'a) proc \<Rightarrow> bool" where
  "lively (Ended r)"
| "(\<And>s. lively (snd (f s))) \<Longrightarrow> lively (Act f)"

inductive_simps lively_simps [simp]: "lively (Ended r)" "lively Hanging" "lively (Act f)"

lemma lively_bindP: "lively m \<Longrightarrow> (\<And>x. lively (k x)) \<Longrightarrow> lively (bindP m k)"
  by (induction rule: lively.induct) (auto split: sum.splits)

lemma lively_basic [simp]: "lively (call f)" "lively (giving x)" "lively (orWrap msg err)"
  by (simp_all add: call_def giving_def orWrap_def split_beta)

section \<open>Results that need a condition\<close>

text \<open>Without \<open>U\<close> at one of its actions a goroutine does not end with a value in \<open>Q\<close>.\<close>

inductive gated :: "('s \<Rightarrow> bool) \<Rightarrow> ('a \<Rightarrow> bool) \<Rightarrow> ('s, 'a) proc \<Rightarrow> bool" for U and Q where
  "gated U Q (Ended (Inl e))"
| "\<not> Q x \<Longrightarrow> gated U Q (Ended (Inr x))"
| "gated U Q Hanging"
| "(\<And>s. U s \<or> gated U Q (snd (f s))) \<Longrightarrow> gated U Q (Act f)"

inductive_simps gated_simps [simp]: "gated U Q (Ended (Inl e))" "gated U Q (Ended (Inr x))" "gated U Q Hanging" "gated U Q (Act f)"

lemma gated_bindP: "gated U P m \<Longrightarrow> (\<And>x. \<not> P x \<Longrightarrow> gated U Q (k x)) \<Longrightarrow> gated U Q (bindP m k)"
  by (induction rule: gated.induct) auto

lemma gated_call: "(\<And>s. P (fst (f s)) \<Longrightarrow> U s) \<Longrightarrow> gated U P (call f)"
  by (auto simp: call_def split_beta)

section \<open>What is left\<close>

text \<open>What is left of a goroutine after an action is a subtree of it.\<close>

definition rest_of :: "(('s, 'a) proc \<times> ('s, 'a) proc) set" where
  "rest_of = {(snd (f s), Act f) | f s. True}"

lemma wf_rest_of: "wf (rest_of :: (('s, 'a) proc \<times> ('s, 'a) proc) set)"
proof (rule wfUNIVI)
  fix P :: "('s, 'a) proc \<Rightarrow> bool" and p
  assume step: "\<forall>p. (\<forall>q. (q, p) \<in> rest_of \<longrightarrow> P q) \<longrightarrow> P p"
  show "P p"
  proof (induction p)
    case (Act f)
    have "P (snd (f s))" for s using Act.IH [of "f s" "snd (f s)"] by (simp add: snds.intros surjective_pairing)
    then have "\<forall>q. (q, Act f) \<in> rest_of \<longrightarrow> P q" by (auto simp: rest_of_def)
    then show ?case using step by blast
  qed (use step in \<open>auto simp: rest_of_def\<close>)
qed

end
