(* ===== verification/Dind_Start.thy ===== *)
theory Dind_Start
  imports Dind_Main Goroutines
begin

text \<open>
  The start of the docker-in-docker supervisor (\<^verbatim>\<open>main\<close>, \<^verbatim>\<open>listenForInterrupt\<close> and \<^verbatim>\<open>removeRootlessUserPrivileges\<close> of
  \<^verbatim>\<open>dind/main.go\<close>): the listener that ends the process on the first connection, the privileges taken
  from the rootless user, and dockerd, in the order of the code. The goroutine of \<^verbatim>\<open>listenForUnixSignals\<close> only logs.
\<close>

section \<open>State and libraries\<close>

datatype listener = NoListener | Accepting | ListenerClosed

record 'w dind_proc =
  core :: "'w dind"
  tcp :: listener

record 'w start_api =
  listenTcp :: "string \<Rightarrow> 'w \<Rightarrow> (goerr + unit) \<times> 'w"
  acceptConn :: "'w \<Rightarrow> (goerr + unit) \<times> 'w"
  closeConn :: "'w \<Rightarrow> (goerr + unit) \<times> 'w"
  closeListener :: "'w \<Rightarrow> (goerr + unit) \<times> 'w"
  userLookup :: "string \<Rightarrow> 'w \<Rightarrow> (goerr + string \<times> string) \<times> 'w"
  runCommand :: "string \<Rightarrow> string list \<Rightarrow> 'w \<Rightarrow> (goerr + unit) \<times> 'w"
  newIptables :: "'w \<Rightarrow> (goerr + unit) \<times> 'w"

section \<open>Steps of main\<close>

definition onCore :: "('w dind, 'a) go \<Rightarrow> ('w dind_proc, 'a res) proc" where
  "onCore m = call (\<lambda>s. case m (core s) of (r, d) \<Rightarrow> (r, s\<lparr>core := d\<rparr>))"

text \<open>\<^verbatim>\<open>logger.Panic(err)\<close> on an error, and its variant that only logs.\<close>

definition orDie :: "('w dind, 'a) go \<Rightarrow> ('w dind_proc, 'a) proc" where
  "orDie m = bindP (onCore m) (\<lambda>r. Ended (case r of Ok x \<Rightarrow> Inr x | Err e \<Rightarrow> Inl e | Panic p \<Rightarrow> Inl (External p)))"

definition orGoOn :: "('w dind, 'a) go \<Rightarrow> ('w dind_proc, 'a option) proc" where
  "orGoOn m = bindP (onCore m) (\<lambda>r. Ended (case r of Ok x \<Rightarrow> Inr (Some x) | Err _ \<Rightarrow> Inr None | Panic p \<Rightarrow> Inl (External p)))"

definition listenForInterrupt :: "'w start_api \<Rightarrow> ('w dind_proc, unit) proc" where
  "listenForInterrupt sa =
     bindP (call (\<lambda>s. case onWorld (listenTcp sa '':2378'') (core s) of
         (Ok _, d) \<Rightarrow> (None, s\<lparr>core := d, tcp := Accepting\<rparr>)
       | (Err e, d) \<Rightarrow> (Some e, s\<lparr>core := d\<rparr>)
       | (Panic p, d) \<Rightarrow> (Some (External p), s\<lparr>core := d\<rparr>))) (\<lambda>err.
     Ended (case err of None \<Rightarrow> Inr () | Some e \<Rightarrow> Inl e))"

text \<open>What the listener's goroutine does with its connection: the status the process exits with.\<close>

definition onConnection :: "'w start_api \<Rightarrow> ('w dind, int) go" where
  "onConnection sa =
     andThen (orPanic (onWorld (acceptConn sa))) (\<lambda>_.
     andThen (orPanic (onWorld (closeConn sa))) (\<lambda>_.
     andThen (orPanic (onWorld (closeListener sa))) (\<lambda>_. ret 0)))"

definition removeRootlessUserPrivileges :: "'w start_api \<Rightarrow> ('w dind, unit) go" where
  "removeRootlessUserPrivileges sa =
     onWorld (runCommand sa ''/usr/sbin/usermod'' [''/usr/sbin/usermod'', ''-r'', ''-G'', ''wheel'', ''rootless''])"

text \<open>\<^verbatim>\<open>main\<close> up to its loop; the result is the process of dockerd, if it started.\<close>

definition dindSetup ::
    "'w start_api \<Rightarrow> 'w docker_api \<Rightarrow> 'w os_api \<Rightarrow> string \<Rightarrow> string list \<Rightarrow> ('w dind_proc, int option) proc" where
  "dindSetup sa api os dockerHost osArgs =
     bindP (listenForInterrupt sa) (\<lambda>_.
     bindP (orDie (lift_res (NewDockerClient dockerHost))) (\<lambda>_.
     bindP (orDie (onWorld (userLookup sa ''rootless''))) (\<lambda>(uid, gid).
     bindP (orDie (lift_res (ParseInt uid))) (\<lambda>rootlessUid.
     bindP (orDie (lift_res (ParseInt gid))) (\<lambda>rootlessGid.
     bindP (orDie (PatchRuntimeDirs os rootlessUid rootlessGid)) (\<lambda>_.
     bindP (orDie (removeRootlessUserPrivileges sa)) (\<lambda>_.
     bindP (orGoOn (StartDockerd os osArgs)) (\<lambda>cmdWait.
     bindP (orGoOn (WaitForDockerd api)) (\<lambda>_.
     bindP (orDie (onWorld (newIptables sa))) (\<lambda>_.
     giving cmdWait))))))))))"

section \<open>The listener\<close>

definition listens_still :: "'w dind_proc \<Rightarrow> 'w dind_proc \<Rightarrow> bool" where
  "listens_still s s' \<longleftrightarrow> (tcp s = Accepting \<longrightarrow> tcp s' = Accepting)"

lemma obeys_core:
  assumes "\<And>s d. R s (s\<lparr>core := d\<rparr>)"
  shows "obeys R (orDie m)" "obeys R (orGoOn m)"
  unfolding orDie_def orGoOn_def onCore_def
  by (intro obeys_bindP obeys_call; simp add: assms split: prod.splits)+

lemma dindSetup_listens: "obeys listens_still (dindSetup sa api os dockerHost osArgs)"
proof -
  have "obeys listens_still (listenForInterrupt sa)"
    unfolding listenForInterrupt_def
    by (intro obeys_bindP obeys_call) (auto simp: listens_still_def split: prod.splits res.splits option.splits)
  then show ?thesis
    unfolding dindSetup_def by (auto intro!: obeys_bindP obeys_core simp: listens_still_def)
qed

text \<open>The first action listens; until it has, nothing else happened, and nothing does after it failed.\<close>

lemma dindSetup_first:
  assumes "dindSetup sa api os dockerHost osArgs = Act f" and "f s = (s', q)"
  shows "tcp s' = Accepting \<or>
    (\<exists>e. q = Ended (Inl e)) \<and> s' = s\<lparr>core := (core s)\<lparr>dworld := snd (listenTcp sa '':2378'' (dworld (core s)))\<rparr>\<rparr>"
  using assms
  by (auto simp: dindSetup_def listenForInterrupt_def call_def onWorld_def zoom_def external_def split: prod.splits sum.splits option.splits)

end
