(* ===== verification/Runner.thy ===== *)
theory Runner
  imports Goroutines "HOL-Library.Multiset"
begin

text \<open>
  The runner container (\<^verbatim>\<open>runner/main.go\<close>, \<^verbatim>\<open>runner/util.go\<close>): four set-up tasks in goroutines of their own, and
  then the actions runner between two pushes of metrics, with a request to dind to stop at the end. The tasks
  interleave at every call;
  the AWS, docker and Prometheus libraries, the commands and the network are parameters over a
  world. What the outside sees is recorded in \<open>seen\<close>.
\<close>

section \<open>State and libraries\<close>

datatype effect =
    Started string "string list"
  | Pushed int "int option" "int option"
  | Dialled bool

record 'x pod =
  osEnv :: "string \<rightharpoonup> string"
  jobRunning :: int
  jobStarted :: "int option"
  jobFinished :: "int option"
  seen :: "effect list"
  rworld :: 'x

record caller_identity =
  IdAccount :: "string option"
  IdArn :: "string option"
  IdUserId :: "string option"

record ('k, 'd, 'c, 'x) runner_api =
  startCommand :: "string \<Rightarrow> string list \<Rightarrow> 'x \<Rightarrow> goerr option \<times> 'x"
  waitCommand :: "string \<Rightarrow> string list \<Rightarrow> 'x \<Rightarrow> goerr option \<times> 'x"
  imdsRegion :: "'x \<Rightarrow> string option \<times> 'x"
  loadDefaultConfig :: "string \<Rightarrow> 'x \<Rightarrow> (goerr + 'k) \<times> 'x"
  getCallerIdentity :: "'k \<Rightarrow> 'x \<Rightarrow> caller_identity option \<times> 'x"
  rangeOrder :: "(string \<times> string) list \<Rightarrow> 'x \<Rightarrow> (string \<times> string) list \<times> 'x"
  newEnvClient :: "(string \<rightharpoonup> string) \<Rightarrow> 'x \<Rightarrow> (goerr + 'd) \<times> 'x"
  serverVersion :: "'d \<Rightarrow> 'x \<Rightarrow> goerr option \<times> 'x"
  dockerConfigDir :: "(string \<rightharpoonup> string) \<Rightarrow> string"
  mkdirAll :: "string \<Rightarrow> 'x \<Rightarrow> goerr option \<times> 'x"
  statFile :: "string \<Rightarrow> 'x \<Rightarrow> goerr option \<times> 'x"
  openFile :: "string \<Rightarrow> 'x \<Rightarrow> (goerr + string) \<times> 'x"
  newConfigFile :: "string \<Rightarrow> 'c"
  loadConfig :: "string \<Rightarrow> goerr + 'c"
  loadInto :: "'c \<Rightarrow> string \<Rightarrow> goerr + 'c"
  saveConfig :: "'c \<Rightarrow> 'x \<Rightarrow> goerr option \<times> 'x"
  pushGateway :: "int \<times> int option \<times> int option \<Rightarrow> 'x \<Rightarrow> goerr option \<times> 'x"
  dialTermination :: "'x \<Rightarrow> goerr option \<times> 'x"
  wallClock :: "'x \<Rightarrow> int"

definition onRWorld :: "('x \<Rightarrow> 'a \<times> 'x) \<Rightarrow> ('x pod, 'a) proc" where
  "onRWorld f = call (\<lambda>s. case f (rworld s) of (r, x) \<Rightarrow> (r, s\<lparr>rworld := x\<rparr>))"

definition record_seen :: "effect \<Rightarrow> 'x pod \<Rightarrow> 'x pod" where
  "record_seen e s = s\<lparr>seen := seen s @ [e]\<rparr>"

section \<open>Commands\<close>

text \<open>
  \<^verbatim>\<open><-run(command, args...)\<close>: the error of a command that does not start is sent on an unbuffered channel
  before the channel is returned, so that nobody can receive it.
\<close>

definition run :: "('k, 'd, 'c, 'x) runner_api \<Rightarrow> string \<Rightarrow> string list \<Rightarrow> ('x pod, goerr option) proc" where
  "run api command args =
     bindP (call (\<lambda>s. case startCommand api command args (rworld s) of
         (None, x) \<Rightarrow> (True, record_seen (Started command args) (s\<lparr>rworld := x\<rparr>))
       | (Some e, x) \<Rightarrow> (False, s\<lparr>rworld := x\<rparr>))) (\<lambda>ok.
     if \<not> ok then Hanging else onRWorld (waitCommand api command args))"

definition updateCaCertificates :: "('k, 'd, 'c, 'x) runner_api \<Rightarrow> ('x pod, unit) proc" where
  "updateCaCertificates api =
     bindP (run api ''sudo'' [''update-ca-certificates'']) (orWrap ''Error running update-ca-certificates'')"

definition setupGitCredentials :: "('k, 'd, 'c, 'x) runner_api \<Rightarrow> ('x pod, unit) proc" where
  "setupGitCredentials api =
     bindP (bindP (run api ''sudo'' [''git'', ''config'', ''--system'', ''user.name'', ''github-actions[bot]''])
       (orWrap ''Error setting system username for git'')) (\<lambda>_.
     bindP (run api ''sudo'' [''git'', ''config'', ''--system'', ''user.email'', ''41898282+github-actions[bot]@users.noreply.github.com''])
       (orWrap ''Error setting system email for git''))"

section \<open>The AWS environment\<close>

definition LookupEnv :: "string \<Rightarrow> ('x pod, string option) proc" where
  "LookupEnv k = call (\<lambda>s. (osEnv s k, s))"

text \<open>\<^verbatim>\<open>os.Setenv\<close> refuses an empty key, a key with \<^verbatim>\<open>=\<close> and NUL bytes.\<close>

definition Setenv :: "string \<Rightarrow> string \<Rightarrow> 'x pod \<Rightarrow> goerr option \<times> 'x pod" where
  "Setenv k v s =
     (if k = [] \<or> CHR ''='' \<in> set k \<or> CHR 0x00 \<in> set k \<or> CHR 0x00 \<in> set v then (Some (External ''setenv: invalid argument''), s)
      else (None, s\<lparr>osEnv := (osEnv s)(k \<mapsto> v)\<rparr>))"

definition detectAwsRegion :: "('k, 'd, 'c, 'x) runner_api \<Rightarrow> ('x pod, string) proc" where
  "detectAwsRegion api =
     bindP (LookupEnv ''AWS_REGION'') (\<lambda>awsRegion. case awsRegion of Some r \<Rightarrow> giving r | None \<Rightarrow>
     bindP (LookupEnv ''AWS_DEFAULT_REGION'') (\<lambda>awsDefaultRegion. case awsDefaultRegion of Some r \<Rightarrow> giving r | None \<Rightarrow>
     bindP (onRWorld (imdsRegion api)) (\<lambda>imdsOutput. case imdsOutput of Some r \<Rightarrow> giving r | None \<Rightarrow> giving ''us-east-1'')))"

definition envVars :: "string \<Rightarrow> caller_identity option \<Rightarrow> (string \<times> string) list" where
  "envVars awsRegion stsOutput =
     (''AWS_REGION'', awsRegion) # (case stsOutput of None \<Rightarrow> [] | Some out \<Rightarrow>
       (case IdAccount out of None \<Rightarrow> [] | Some account \<Rightarrow> [(''AWS_ACCOUNT'', account)]) @
       (case IdArn out of None \<Rightarrow> [] | Some arn \<Rightarrow> [(''AWS_CALLER_ARN'', arn)]) @
       (case IdUserId out of None \<Rightarrow> [] | Some userId \<Rightarrow> [(''AWS_CALLER_ID'', userId)]))"

fun setAll :: "(string \<times> string) list \<Rightarrow> ('x pod, unit) proc" where
  "setAll [] = giving ()"
| "setAll ((k, v) # kvs) =
     bindP (bindP (call (Setenv k v)) (orWrap (''Error setting '' @ k @ '' to '' @ v))) (\<lambda>_. setAll kvs)"

text \<open>A map is ranged over in the order the runtime picks.\<close>

definition ensureAwsEnv :: "('k, 'd, 'c, 'x) runner_api \<Rightarrow> ('x pod, unit) proc" where
  "ensureAwsEnv api =
     bindP (detectAwsRegion api) (\<lambda>awsRegion.
     bindP (onRWorld (loadDefaultConfig api awsRegion)) (\<lambda>loaded. case loaded of
         Inl e \<Rightarrow> Ended (Inl (WrapError ''Error loading AWS Configuration with Region'' e))
       | Inr config \<Rightarrow>
           bindP (onRWorld (getCallerIdentity api config)) (\<lambda>stsOutput.
           bindP (onRWorld (rangeOrder api (envVars awsRegion stsOutput))) setAll)))"

section \<open>Expansion of variables\<close>

text \<open>\<^verbatim>\<open>os.Expand\<close> and its scanner: the name after a dollar sign and how many characters it took.\<close>

definition isShellSpecialVar :: "char \<Rightarrow> bool" where
  "isShellSpecialVar c \<longleftrightarrow> c \<in> set ''*#$@!?-0123456789''"

definition isAlphaNum :: "char \<Rightarrow> bool" where
  "isAlphaNum c \<longleftrightarrow> c = CHR ''_'' \<or> is_digit c \<or> 97 \<le> (of_char c :: nat) \<and> (of_char c :: nat) \<le> 122 \<or>
     65 \<le> (of_char c :: nat) \<and> (of_char c :: nat) \<le> 90"

definition getShellName :: "string \<Rightarrow> string \<times> nat" where
  "getShellName s =
     (if take 1 s = ''{'' then
        (if length s > 2 \<and> isShellSpecialVar (s ! 1) \<and> s ! 2 = CHR ''}'' then ([s ! 1], 3)
         else let name = takeWhile (\<lambda>c. c \<noteq> CHR ''}'') (tl s) in
              if length name < length (tl s) then (if name = [] then ([], 2) else (name, length name + 2))
              else ([], 1))
      else if s \<noteq> [] \<and> isShellSpecialVar (hd s) then (take 1 s, 1)
      else let name = takeWhile isAlphaNum s in (name, length name))"

function expand :: "(string \<Rightarrow> string) \<Rightarrow> string \<Rightarrow> string" where
  "expand mapping [] = []"
| "expand mapping (c # cs) =
     (if c = CHR ''$'' \<and> cs \<noteq> [] then
        (case getShellName cs of (name, w) \<Rightarrow>
          (if name = [] then (if w > 0 then [] else [c]) else mapping name) @ expand mapping (drop w cs))
      else c # expand mapping cs)"
  by pat_completeness auto
termination
  by (relation "measure (\<lambda>(m, s). length s)") auto

definition Getenv :: "(string \<rightharpoonup> string) \<Rightarrow> string \<Rightarrow> string" where
  "Getenv env k = (case env k of None \<Rightarrow> [] | Some v \<Rightarrow> v)"

definition wrapInJson :: "(string \<rightharpoonup> string) \<Rightarrow> string \<Rightarrow> string \<Rightarrow> string" where
  "wrapInJson env key value = ''{ '' @ quoted key @ '': '' @ expand (Getenv env) value @ '' }''"

section \<open>Docker\<close>

text \<open>The last probe's error is the result; the pauses between them are left out.\<close>

fun probeDocker :: "('k, 'd, 'c, 'x) runner_api \<Rightarrow> 'd \<Rightarrow> nat \<Rightarrow> goerr option \<Rightarrow> ('x pod, goerr option) proc" where
  "probeDocker api docker 0 err = giving err"
| "probeDocker api docker (Suc n) err =
     bindP (onRWorld (serverVersion api docker)) (\<lambda>r. case r of
         None \<Rightarrow> giving None
       | Some e \<Rightarrow> probeDocker api docker n (Some e))"

definition waitForDocker :: "('k, 'd, 'c, 'x) runner_api \<Rightarrow> bool \<Rightarrow> ('x pod, unit) proc" where
  "waitForDocker api hasDockerCapability =
     (if \<not> hasDockerCapability then giving ()
      else bindP (call (\<lambda>s. case newEnvClient api (osEnv s) (rworld s) of (r, x) \<Rightarrow> (r, s\<lparr>rworld := x\<rparr>))) (\<lambda>r. case r of
          Inl e \<Rightarrow> Ended (Inl (WrapError ''Error creating docker client'' e))
        | Inr docker \<Rightarrow> bindP (probeDocker api docker 15 None) (orWrap ''Timeout waiting for docker daemon'')))"

text \<open>\<^verbatim>\<open>path.Join\<close> with a directory that is clean already.\<close>

definition dockerConfigPath :: "string \<Rightarrow> string" where
  "dockerConfigPath dir = dir @ ''/config.json''"

definition loadEnvInto :: "('k, 'd, 'c, 'x) runner_api \<Rightarrow> string \<Rightarrow> string \<Rightarrow> 'c \<Rightarrow> ('x pod, 'c) proc" where
  "loadEnvInto api env key config =
     bindP (LookupEnv env) (\<lambda>found. case found of
         None \<Rightarrow> giving config
       | Some value \<Rightarrow> bindP (call (\<lambda>s. (loadInto api config (wrapInJson (osEnv s) key value), s))) (\<lambda>r. case r of
             Inl e \<Rightarrow> Ended (Inl (WrapError (''Error reading config from '' @ env) e))
           | Inr config' \<Rightarrow> giving config'))"

definition existingConfig :: "('k, 'd, 'c, 'x) runner_api \<Rightarrow> string \<Rightarrow> ('x pod, 'c) proc" where
  "existingConfig api path =
     bindP (onRWorld (statFile api path)) (\<lambda>err. if err \<noteq> None then giving (newConfigFile api path) else
     bindP (onRWorld (openFile api path)) (\<lambda>opened. case opened of
         Inl e \<Rightarrow> Ended (Inl (WrapError ''Error opening docker config file'' e))
       | Inr content \<Rightarrow> (case loadConfig api content of
           Inl e \<Rightarrow> Ended (Inl (WrapError ''Error reading docker config file'' e))
         | Inr config \<Rightarrow> giving config)))"

definition setupDockerConfig :: "('k, 'd, 'c, 'x) runner_api \<Rightarrow> ('x pod, unit) proc" where
  "setupDockerConfig api =
     bindP (call (\<lambda>s. (dockerConfigDir api (osEnv s), s))) (\<lambda>dir.
     bindP (bindP (onRWorld (mkdirAll api dir)) (orWrap ''Error assuring existence of docker config dir'')) (\<lambda>_.
     bindP (existingConfig api (dockerConfigPath dir)) (\<lambda>config.
     bindP (loadEnvInto api ''DOCKER_AUTHS'' ''auths'' config) (\<lambda>config.
     bindP (loadEnvInto api ''DOCKER_CREDENTIAL_HELPERS'' ''credHelpers'' config) (\<lambda>config.
     bindP (loadEnvInto api ''DOCKER_PLUGINS'' ''plugins'' config) (\<lambda>config.
     bindP (onRWorld (saveConfig api config)) (orWrap ''Error writing new docker config to file'')))))))"

section \<open>The body of main\<close>

datatype outcome = Returned | Panicked goerr | Hangs

text \<open>A deferred function runs when the body returns or panics; a panic of its own takes over.\<close>

definition withDefer :: "('s \<Rightarrow> outcome \<times> 's) \<Rightarrow> ('s \<Rightarrow> outcome \<times> 's) \<Rightarrow> 's \<Rightarrow> outcome \<times> 's" where
  "withDefer d m s = (case m s of
       (Hangs, s') \<Rightarrow> (Hangs, s')
     | (r, s') \<Rightarrow> (case d s' of (Returned, s'') \<Rightarrow> (r, s'') | (r', s'') \<Rightarrow> (r', s'')))"

definition pushMetrics :: "('k, 'd, 'c, 'x) runner_api \<Rightarrow> 'x pod \<Rightarrow> outcome \<times> 'x pod" where
  "pushMetrics api s = (case pushGateway api (jobRunning s, jobStarted s, jobFinished s) (rworld s) of
       (None, x) \<Rightarrow> (Returned, record_seen (Pushed (jobRunning s) (jobStarted s) (jobFinished s)) (s\<lparr>rworld := x\<rparr>))
     | (Some e, x) \<Rightarrow> (Panicked (WrapError ''Error pushing metrics to Prometheus' Push Gateway'' e), s\<lparr>rworld := x\<rparr>))"

text \<open>An error of the request is only logged.\<close>

definition requestDindTermination :: "('k, 'd, 'c, 'x) runner_api \<Rightarrow> bool \<Rightarrow> 'x pod \<Rightarrow> outcome \<times> 'x pod" where
  "requestDindTermination api hasDockerCapability s =
     (if \<not> hasDockerCapability then (Returned, s)
      else case dialTermination api (rworld s) of (err, x) \<Rightarrow> (Returned, record_seen (Dialled (err = None)) (s\<lparr>rworld := x\<rparr>)))"

definition gitHubActionsRunnerPath :: string where
  "gitHubActionsRunnerPath = ''/opt/actions-runner/run.sh''"

definition getGitHubActionsRunnerArgs :: "(string \<rightharpoonup> string) \<Rightarrow> string list" where
  "getGitHubActionsRunnerArgs env = (case env ''GITHUB_ACTIONS_RUNNER_ARGS'' of
       Some argsRaw \<Rightarrow> if argsRaw = [] then [] else split_on CHR '','' argsRaw
     | None \<Rightarrow> [''--once''])"

definition runGitHubActionsRunner :: "('k, 'd, 'c, 'x) runner_api \<Rightarrow> 'x pod \<Rightarrow> outcome \<times> 'x pod" where
  "runGitHubActionsRunner api s = (case runP (run api gitHubActionsRunnerPath (getGitHubActionsRunnerArgs (osEnv s))) s of
       (None, s') \<Rightarrow> (Hangs, s')
     | (Some (Inr None), s') \<Rightarrow> (Returned, s')
     | (Some (Inr (Some e)), s') \<Rightarrow> (Panicked (WrapError ''Error waiting for GitHub Actions Runner process'' e), s')
     | (Some (Inl e), s') \<Rightarrow> (Panicked e, s'))"

definition markRunning :: "('k, 'd, 'c, 'x) runner_api \<Rightarrow> 'x pod \<Rightarrow> 'x pod" where
  "markRunning api s = s\<lparr>jobRunning := 1, jobStarted := Some (wallClock api (rworld s))\<rparr>"

definition markFinished :: "('k, 'd, 'c, 'x) runner_api \<Rightarrow> 'x pod \<Rightarrow> 'x pod" where
  "markFinished api s = s\<lparr>jobRunning := 0, jobFinished := Some (wallClock api (rworld s))\<rparr>"

definition mainBody :: "('k, 'd, 'c, 'x) runner_api \<Rightarrow> bool \<Rightarrow> 'x pod \<Rightarrow> outcome \<times> 'x pod" where
  "mainBody api hasDockerCapability = withDefer (requestDindTermination api hasDockerCapability) (\<lambda>s.
     case pushMetrics api (markRunning api s) of
       (Returned, s') \<Rightarrow> withDefer (\<lambda>s. pushMetrics api (markFinished api s)) (runGitHubActionsRunner api) s'
     | (r, s') \<Rightarrow> (r, s'))"

section \<open>The process\<close>

datatype main_pc = Receiving nat | Over outcome

record 'x process =
  tasksOf :: "('x pod, unit) proc list"
  pc :: main_pc
  shared :: "'x pod"

definition tasks :: "('k, 'd, 'c, 'x) runner_api \<Rightarrow> bool \<Rightarrow> ('x pod, unit) proc list" where
  "tasks api hasDockerCapability =
     [updateCaCertificates api, setupGitCredentials api,
      bindP (ensureAwsEnv api) (\<lambda>_. setupDockerConfig api), waitForDocker api hasDockerCapability]"

definition startProcess :: "('k, 'd, 'c, 'x) runner_api \<Rightarrow> bool \<Rightarrow> 'x pod \<Rightarrow> 'x process" where
  "startProcess api cap s = \<lparr>tasksOf = tasks api cap, pc = Receiving 0, shared = s\<rparr>"

text \<open>Whether there is a dind container the process learns from its environment, once, when it starts.\<close>

definition hasDockerCapability :: "(string \<rightharpoonup> string) \<Rightarrow> bool" where
  "hasDockerCapability env \<longleftrightarrow> env ''DOCKER_HOST'' \<noteq> None"

text \<open>
  A goroutine makes one action; main receives from the next channel in its list, panicking on an error;
  after the last it runs its body, when no goroutine is left.
\<close>

inductive runner_step :: "('k, 'd, 'c, 'x) runner_api \<Rightarrow> bool \<Rightarrow> 'x process \<Rightarrow> 'x process \<Rightarrow> bool"
  for api :: "('k, 'd, 'c, 'x) runner_api" and cap :: bool where
  act: "pc p = Receiving n \<Longrightarrow> i < length (tasksOf p) \<Longrightarrow> tasksOf p ! i = Act f \<Longrightarrow> f (shared p) = (s', q) \<Longrightarrow>
    runner_step api cap p (p\<lparr>tasksOf := (tasksOf p)[i := q], shared := s'\<rparr>)"
| receive: "pc p = Receiving n \<Longrightarrow> n < length (tasksOf p) \<Longrightarrow> tasksOf p ! n = Ended (Inr ()) \<Longrightarrow>
    runner_step api cap p (p\<lparr>pc := Receiving (Suc n)\<rparr>)"
| give_up: "pc p = Receiving n \<Longrightarrow> n < length (tasksOf p) \<Longrightarrow> tasksOf p ! n = Ended (Inl e) \<Longrightarrow>
    runner_step api cap p (p\<lparr>pc := Over (Panicked e)\<rparr>)"
| body: "pc p = Receiving n \<Longrightarrow> n = length (tasksOf p) \<Longrightarrow> mainBody api cap (shared p) = (r, s') \<Longrightarrow>
    runner_step api cap p (p\<lparr>pc := Over r, shared := s'\<rparr>)"

section \<open>What the set-up shows the outside\<close>

text \<open>A set-up task starts nothing but \<^verbatim>\<open>sudo\<close>, and shows the outside nothing else.\<close>

definition setup_effect :: "effect \<Rightarrow> bool" where
  "setup_effect e = (case e of Started command _ \<Rightarrow> command = ''sudo'' | _ \<Rightarrow> False)"

definition adds :: "(effect \<Rightarrow> bool) \<Rightarrow> 'x pod \<Rightarrow> 'x pod \<Rightarrow> bool" where
  "adds P s s' \<longleftrightarrow> (\<exists>es. seen s' = seen s @ es \<and> list_all P es)"

lemma adds_same: "seen s' = seen s \<Longrightarrow> adds P s s'"
  by (auto simp: adds_def intro: exI [of _ "[]"])

lemma obeys_onRWorld [simp]: "obeys (adds P) (onRWorld f)"
  unfolding onRWorld_def by (rule obeys_call) (simp add: adds_same split: prod.splits)

lemma obeys_LookupEnv [simp]: "obeys (adds P) (LookupEnv k)"
  unfolding LookupEnv_def by (rule obeys_call) (simp add: adds_same)

lemma obeys_run: "P (Started c as) \<Longrightarrow> obeys (adds P) (run api c as)"
  unfolding run_def
  by (intro obeys_bindP obeys_call) (auto simp: adds_def record_seen_def split: prod.splits option.splits)

lemma obeys_setAll: "obeys (adds P) (setAll kvs)"
  by (induction kvs rule: setAll.induct) (auto intro!: obeys_bindP obeys_call simp: Setenv_def adds_same)

lemma obeys_probeDocker: "obeys (adds P) (probeDocker api d n err)"
  by (induction n arbitrary: err) (auto intro!: obeys_bindP split: option.splits)

lemma obeys_loadEnvInto: "obeys (adds P) (loadEnvInto api env key c)"
  unfolding loadEnvInto_def by (auto intro!: obeys_bindP obeys_call simp: adds_same split: option.splits sum.splits)

lemma tasks_obey:
  assumes "p \<in> set (tasks api cap)"
  shows "obeys (adds setup_effect) p"
proof -
  let ?R = "adds setup_effect"
  have "obeys ?R (updateCaCertificates api)" "obeys ?R (setupGitCredentials api)"
    by (auto simp: updateCaCertificates_def setupGitCredentials_def setup_effect_def intro!: obeys_bindP obeys_run)
  moreover have "obeys ?R (ensureAwsEnv api)"
    by (auto simp: ensureAwsEnv_def detectAwsRegion_def intro!: obeys_bindP obeys_setAll split: option.splits sum.splits)
  moreover have "obeys ?R (setupDockerConfig api)"
    by (auto simp: setupDockerConfig_def existingConfig_def adds_same intro!: obeys_bindP obeys_call obeys_loadEnvInto
        split: option.splits sum.splits if_splits)
  moreover have "obeys ?R (waitForDocker api cap)"
    by (auto simp: waitForDocker_def adds_same intro!: obeys_bindP obeys_call obeys_probeDocker split: option.splits sum.splits prod.splits)
  ultimately show ?thesis using assms by (auto simp: tasks_def intro: obeys_bindP)
qed

section \<open>What the body shows the outside\<close>

definition asked :: "bool \<Rightarrow> bool \<Rightarrow> effect list" where
  "asked cap ok = (if cap then [Dialled ok] else [])"

text \<open>The effects of the body, by how it ends.\<close>

definition body_trace :: "string list \<Rightarrow> bool \<Rightarrow> outcome \<Rightarrow> effect list \<Rightarrow> bool" where
  "body_trace as cap r es \<longleftrightarrow>
     (\<exists>t u v ok. r = Returned \<and> es = [Pushed 1 (Some t) u, Started gitHubActionsRunnerPath as, Pushed 0 (Some t) (Some v)] @ asked cap ok) \<or>
     (\<exists>e t u mid ok. r = Panicked e \<and> es = Pushed 1 (Some t) u # Started gitHubActionsRunnerPath as # mid @ asked cap ok \<and>
        (mid = [] \<or> (\<exists>v. mid = [Pushed 0 (Some t) (Some v)]))) \<or>
     (\<exists>e ok. r = Panicked e \<and> es = asked cap ok) \<or>
     (\<exists>t u. r = Hangs \<and> es = [Pushed 1 (Some t) u])"

lemma runGitHubActionsRunner_cases:
  assumes "runGitHubActionsRunner api s = (r, s')"
  shows "jobRunning s' = jobRunning s \<and> jobStarted s' = jobStarted s \<and>
    (r = Hangs \<and> seen s' = seen s \<or>
     r \<noteq> Hangs \<and> seen s' = seen s @ [Started gitHubActionsRunnerPath (getGitHubActionsRunnerArgs (osEnv s))])"
  using assms
  by (auto simp: runGitHubActionsRunner_def run_def onRWorld_def call_def record_seen_def split: prod.splits option.splits sum.splits if_splits)

lemma pushMetrics_cases:
  "pushMetrics api s = (r, s') \<Longrightarrow>
     (r = Returned \<and> seen s' = seen s @ [Pushed (jobRunning s) (jobStarted s) (jobFinished s)] \<or>
      (\<exists>e. r = Panicked e) \<and> seen s' = seen s) \<and> osEnv s' = osEnv s \<and> jobRunning s' = jobRunning s \<and> jobStarted s' = jobStarted s"
  by (auto simp: pushMetrics_def record_seen_def split: prod.splits option.splits)

lemma requestDindTermination_asks:
  "requestDindTermination api cap s = (r, s') \<Longrightarrow> r = Returned \<and> (\<exists>ok. seen s' = seen s @ asked cap ok)"
  by (auto simp: requestDindTermination_def record_seen_def asked_def split: prod.splits if_splits)

lemma withDefer_cases:
  assumes "withDefer d m s = (r, s')"
  obtains "m s = (Hangs, s')" "r = Hangs"
  | r1 s1 r2 where "m s = (r1, s1)" "r1 \<noteq> Hangs" "d s1 = (r2, s')" "r = (if r2 = Returned then r1 else r2)"
  using assms by (auto simp: withDefer_def split: prod.splits outcome.splits)

lemma runner_between_pushes:
  assumes run: "withDefer (\<lambda>s. pushMetrics api (markFinished api s)) (runGitHubActionsRunner api) s = (r, s')"
  shows "r = Hangs \<and> seen s' = seen s \<or>
    (\<exists>mid. seen s' = seen s @ Started gitHubActionsRunnerPath (getGitHubActionsRunnerArgs (osEnv s)) # mid \<and>
      ((\<exists>v. mid = [Pushed 0 (jobStarted s) (Some v)]) \<and> r \<noteq> Hangs \<or> mid = [] \<and> (\<exists>e. r = Panicked e)))"
  using run
proof (cases rule: withDefer_cases)
  case 1
  then show ?thesis using runGitHubActionsRunner_cases [OF 1(1)] by simp
next
  case (2 r1 s1 r2)
  note g = runGitHubActionsRunner_cases [OF 2(1)] and p = pushMetrics_cases [OF 2(3)]
  from g 2(2) have "seen (markFinished api s1) = seen s @ [Started gitHubActionsRunnerPath (getGitHubActionsRunnerArgs (osEnv s))]"
    "jobStarted (markFinished api s1) = jobStarted s" "jobRunning (markFinished api s1) = 0" "\<exists>v. jobFinished (markFinished api s1) = Some v"
    by (auto simp: markFinished_def)
  with p 2(2,4) show ?thesis by auto
qed

lemma mainBody_trace:
  assumes run: "mainBody api cap s = (r, s')"
  shows "\<exists>es. seen s' = seen s @ es \<and> body_trace (getGitHubActionsRunnerArgs (osEnv s)) cap r es"
proof -
  let ?inner = "\<lambda>s. case pushMetrics api (markRunning api s) of
       (Returned, s') \<Rightarrow> withDefer (\<lambda>s. pushMetrics api (markFinished api s)) (runGitHubActionsRunner api) s'
     | (r, s') \<Rightarrow> (r, s')"
  obtain r0 s0 where p0: "pushMetrics api (markRunning api s) = (r0, s0)" by fastforce
  note p = pushMetrics_cases [OF p0]
  have m: "seen (markRunning api s) = seen s" "osEnv (markRunning api s) = osEnv s" "jobRunning (markRunning api s) = 1"
    "\<exists>t. jobStarted (markRunning api s) = Some t" by (simp_all add: markRunning_def)
  have inner: "(\<exists>e. r1 = Panicked e) \<and> seen s1 = seen s \<or>
      (\<exists>t u. r0 = Returned \<and> seen s0 = seen s @ [Pushed 1 (Some t) u] \<and> jobStarted s0 = Some t \<and> osEnv s0 = osEnv s \<and>
        withDefer (\<lambda>s. pushMetrics api (markFinished api s)) (runGitHubActionsRunner api) s0 = (r1, s1))"
    if "?inner s = (r1, s1)" for r1 s1
    using that p0 p m by (cases r0) auto
  from run [unfolded mainBody_def] show ?thesis
  proof (cases rule: withDefer_cases)
    case 1
    from inner [OF 1(1)] 1(2) show ?thesis
      by (auto simp: body_trace_def dest!: runner_between_pushes)
  next
    case (2 r1 s1 r2)
    from requestDindTermination_asks [OF 2(3)] 2(4) obtain ok where r: "r = r1" and d: "seen s' = seen s1 @ asked cap ok" by auto
    from inner [OF 2(1)] show ?thesis
    proof (elim disjE conjE exE)
      fix e assume "r1 = Panicked e" "seen s1 = seen s"
      then show ?thesis using r d by (auto simp: body_trace_def)
    next
      fix t u
      assume s0: "seen s0 = seen s @ [Pushed 1 (Some t) u]" "jobStarted s0 = Some t" "osEnv s0 = osEnv s"
        and w: "withDefer (\<lambda>s. pushMetrics api (markFinished api s)) (runGitHubActionsRunner api) s0 = (r1, s1)"
      from runner_between_pushes [OF w] 2(2) obtain mid where
        mid: "seen s1 = seen s0 @ Started gitHubActionsRunnerPath (getGitHubActionsRunnerArgs (osEnv s)) # mid"
        "(\<exists>v. mid = [Pushed 0 (Some t) (Some v)]) \<or> mid = [] \<and> (\<exists>e. r1 = Panicked e)"
        using s0 by auto
      show ?thesis using r d s0(1) mid 2(2) by (cases r1) (auto simp: body_trace_def)
    qed
  qed
qed

section \<open>The process, whatever the interleaving\<close>

definition process_inv :: "bool \<Rightarrow> 'x process \<Rightarrow> bool" where
  "process_inv cap p \<longleftrightarrow> length (tasksOf p) = 4 \<and> (case pc p of
       Receiving n \<Rightarrow> n \<le> 4 \<and> (\<forall>i<n. tasksOf p ! i = Ended (Inr ())) \<and>
         (\<forall>t\<in>set (tasksOf p). obeys (adds setup_effect) t) \<and> list_all setup_effect (seen (shared p))
     | Over r \<Rightarrow>
         (\<exists>n<4. \<exists>e. tasksOf p ! n = Ended (Inl e) \<and> r = Panicked e \<and> list_all setup_effect (seen (shared p))) \<or>
         (\<forall>i<4. tasksOf p ! i = Ended (Inr ())) \<and>
         (\<exists>pre es as. seen (shared p) = pre @ es \<and> list_all setup_effect pre \<and> body_trace as cap r es))"

definition fresh :: "('k, 'd, 'c, 'x) runner_api \<Rightarrow> bool \<Rightarrow> 'x process \<Rightarrow> bool" where
  "fresh api cap p \<longleftrightarrow> (\<exists>s. seen s = [] \<and> p = startProcess api cap s)"

lemma process_inv_start: "fresh api cap p \<Longrightarrow> process_inv cap p"
proof -
  have "length (tasks api cap) = 4" by (simp add: tasks_def)
  then show "fresh api cap p \<Longrightarrow> process_inv cap p"
    using tasks_obey [of _ api cap] by (auto simp: fresh_def startProcess_def process_inv_def)
qed

lemma process_inv_act:
  assumes inv: "process_inv cap p" and n: "pc p = Receiving n" and i: "i < length (tasksOf p)" "tasksOf p ! i = Act f"
    and f: "f (shared p) = (s', q)"
  shows "process_inv cap (p\<lparr>tasksOf := (tasksOf p)[i := q], shared := s'\<rparr>)"
proof -
  have "Act f \<in> set (tasksOf p)" using i by (metis nth_mem)
  then have "obeys (adds setup_effect) (Act f)" using inv n unfolding process_inv_def by fastforce
  then have o: "adds setup_effect (shared p) s'" "obeys (adds setup_effect) q"
    using f by (metis obeys_simps(3) fst_conv, metis obeys_simps(3) snd_conv)
  have "tasksOf p ! j \<noteq> Act f" if "j < n" for j using inv n that by (simp add: process_inv_def)
  then have "\<not> i < n" using i(2) by blast
  then have "\<forall>j<n. (tasksOf p)[i := q] ! j = Ended (Inr ())" using inv n by (auto simp: process_inv_def)
  moreover have "\<forall>t\<in>set ((tasksOf p)[i := q]). obeys (adds setup_effect) t"
    using inv n o(2) set_update_subset_insert [of "tasksOf p" i q] by (auto simp: process_inv_def)
  moreover have "list_all setup_effect (seen s')" using inv n o(1) by (auto simp: process_inv_def adds_def)
  ultimately show ?thesis using inv n by (simp add: process_inv_def)
qed

lemma process_inv_step:
  assumes "process_inv cap p" and "runner_step api cap p p'"
  shows "process_inv cap p'"
  using assms(2,1)
proof (cases rule: runner_step.cases)
  case (act n i f s' q)
  then show ?thesis using process_inv_act [OF assms(1) act(2-5)] by simp
next
  case (receive n)
  then show ?thesis using assms(1) by (auto simp: process_inv_def less_Suc_eq)
next
  case (give_up n e)
  then show ?thesis using assms(1) by (auto simp: process_inv_def)
next
  case (body n r s')
  obtain es where "seen s' = seen (shared p) @ es" "body_trace (getGitHubActionsRunnerArgs (osEnv (shared p))) cap r es"
    using mainBody_trace [OF body(4)] by blast
  then show ?thesis using body assms(1) by (auto simp: process_inv_def)
qed

interpretation runner_runs: transition_system "fresh api cap" "runner_step api cap" "process_inv cap"
  for api :: "('k, 'd, 'c, 'x) runner_api" and cap
  by unfold_locales (fact process_inv_start, fact process_inv_step)

section \<open>Every run is finite\<close>

definition main_left :: "'x process \<Rightarrow> nat" where
  "main_left p = (case pc p of Receiving n \<Rightarrow> Suc (length (tasksOf p)) - n | Over _ \<Rightarrow> 0)"

lemma runner_step_decreases:
  assumes "runner_step api cap p p'"
  shows "((mset (tasksOf p'), main_left p'), (mset (tasksOf p), main_left p)) \<in> mult rest_of <*lex*> less_than"
  using assms
proof (cases rule: runner_step.cases)
  case (act n i f s' q)
  have "(q, Act f) \<in> rest_of" using act(5) by (auto simp: rest_of_def intro!: exI [of _ f] exI [of _ "shared p"])
  then have "(mset (tasksOf p) - {#Act f#} + {#q#}, mset (tasksOf p) - {#Act f#} + {#Act f#}) \<in> mult rest_of"
    by (intro one_step_implies_mult) auto
  moreover have "mset (tasksOf p) - {#Act f#} + {#Act f#} = mset (tasksOf p)"
    using act(3,4) by (metis add_mset_add_single insert_DiffM2 nth_mem_mset)
  ultimately show ?thesis using act by (simp add: mset_update)
qed (auto simp: main_left_def)

lemma runner_step_wf: "wfP (\<lambda>p' p. runner_step api cap p p')"
proof (rule wfp_subset [of "\<lambda>p' p. ((mset (tasksOf p'), main_left p'), (mset (tasksOf p), main_left p)) \<in> mult rest_of <*lex*> less_than"])
  show "wfP (\<lambda>p' p :: 'a process. ((mset (tasksOf p'), main_left p'), (mset (tasksOf p), main_left p)) \<in> mult rest_of <*lex*> less_than)"
    using wf_inv_image [OF wf_lex_prod [OF wf_mult [OF wf_rest_of] wf_less_than], of "\<lambda>p :: 'a process. (mset (tasksOf p), main_left p)"]
    by (simp add: wfp_def inv_image_def)
qed (intro predicate2I runner_step_decreases)

lemma stuck_process:
  assumes inv: "process_inv cap p" and stuck: "\<And>p'. \<not> runner_step api cap p p'"
  shows "(\<exists>r. pc p = Over r) \<or> (\<exists>n<4. pc p = Receiving n \<and> tasksOf p ! n = Hanging)"
proof (cases "pc p")
  case (Receiving n)
  have len: "length (tasksOf p) = 4" "n \<le> 4" using inv Receiving by (simp_all add: process_inv_def)
  have "n \<noteq> 4"
  proof
    assume "n = 4"
    obtain r s' where "mainBody api cap (shared p) = (r, s')" by fastforce
    then show False using stuck runner_step.body [OF Receiving] len \<open>n = 4\<close> by metis
  qed
  then have n: "n < length (tasksOf p)" using len by simp
  have "tasksOf p ! n = Hanging"
  proof (cases "tasksOf p ! n")
    case (Ended r)
    then show ?thesis
      using stuck runner_step.receive [OF Receiving n] runner_step.give_up [OF Receiving n] by (cases r) auto
  next
    case (Act f)
    obtain s' q where "f (shared p) = (s', q)" by fastforce
    then show ?thesis using stuck runner_step.act [OF Receiving n Act] by blast
  qed
  then show ?thesis using n len Receiving by auto
qed simp

section \<open>The tasks one after the other\<close>

fun runTasks :: "('s, unit) proc list \<Rightarrow> 's \<Rightarrow> 's option" where
  "runTasks [] s = Some s"
| "runTasks (t # ts) s = (case runP t s of (Some (Inr _), s') \<Rightarrow> runTasks ts s' | _ \<Rightarrow> None)"

lemma runTasks_Cons:
  assumes "runTasks (t # ts) s = Some s'"
  shows "\<exists>s1. runP t s = (Some (Inr ()), s1) \<and> runTasks ts s1 = Some s'"
proof -
  obtain r s1 where e: "runP t s = (r, s1)" by (rule prod.exhaust)
  show ?thesis
  proof (cases r)
    case (Some x)
    then show ?thesis using assms e by (cases x) simp_all
  qed (use assms e in simp)
qed

lemma task_can_run:
  "runP t (shared p) = (Some r, s') \<Longrightarrow> pc p = Receiving n \<Longrightarrow> i < length (tasksOf p) \<Longrightarrow> tasksOf p ! i = t \<Longrightarrow>
     rtranclp (runner_step api cap) p (p\<lparr>tasksOf := (tasksOf p)[i := Ended r], shared := s'\<rparr>)"
proof (induction t arbitrary: p)
  case (Ended r')
  then have "p\<lparr>tasksOf := (tasksOf p)[i := Ended r], shared := s'\<rparr> = p" by (simp add: list_update_same_conv)
  then show ?case by simp
next
  case (Act f)
  obtain s1 q where f: "f (shared p) = (s1, q)" by fastforce
  let ?p = "p\<lparr>tasksOf := (tasksOf p)[i := q], shared := s1\<rparr>"
  have "runner_step api cap p ?p" by (rule runner_step.act [OF Act.prems(2-4) f])
  moreover have "rtranclp (runner_step api cap) ?p (?p\<lparr>tasksOf := (tasksOf ?p)[i := Ended r], shared := s'\<rparr>)"
    using Act.prems f by (intro Act.IH [of "f (shared p)" q]) (auto simp: snds.intros intro: range_eqI [of _ f "shared p"])
  ultimately show ?case by (auto intro: converse_rtranclp_into_rtranclp)
qed simp

lemma tasks_can_run:
  "runTasks ts (shared p) = Some s' \<Longrightarrow> tasksOf p = replicate n (Ended (Inr ())) @ ts \<Longrightarrow> pc p = Receiving n \<Longrightarrow>
     rtranclp (runner_step api cap) p
       (p\<lparr>tasksOf := replicate (n + length ts) (Ended (Inr ())), pc := Receiving (n + length ts), shared := s'\<rparr>)"
proof (induction ts arbitrary: p n)
  case Nil
  then have "p\<lparr>tasksOf := replicate (n + length []) (Ended (Inr ())), pc := Receiving (n + length []), shared := s'\<rparr> = p" by simp
  then show ?case by simp
next
  case (Cons t ts)
  obtain s1 where t: "runP t (shared p) = (Some (Inr ()), s1)" "runTasks ts s1 = Some s'"
    using runTasks_Cons [OF Cons.prems(1)] by blast
  let ?q = "p\<lparr>tasksOf := (tasksOf p)[n := Ended (Inr ())], shared := s1\<rparr>"
  let ?p = "?q\<lparr>pc := Receiving (Suc n)\<rparr>"
  have len: "n < length (tasksOf p)" "tasksOf p ! n = t" using Cons.prems(2) by (simp_all add: nth_append)
  have "rtranclp (runner_step api cap) p ?q" by (rule task_can_run [OF t(1) Cons.prems(3) len])
  also have "runner_step api cap ?q ?p" by (rule runner_step.receive) (use Cons.prems(3) len in simp_all)
  also have "rtranclp (runner_step api cap) ?p
      (?p\<lparr>tasksOf := replicate (Suc n + length ts) (Ended (Inr ())), pc := Receiving (Suc n + length ts), shared := s'\<rparr>)"
    using Cons.prems t(2) by (intro Cons.IH) (simp_all add: list_update_append replicate_append_same)
  finally show ?case by simp
qed

lemma process_can_finish:
  assumes "runTasks (tasks api cap) s = Some s1" and "mainBody api cap s1 = (r, s2)"
  shows "rtranclp (runner_step api cap) (startProcess api cap s)
    \<lparr>tasksOf = replicate 4 (Ended (Inr ())), pc = Over r, shared = s2\<rparr>"
proof -
  have len: "length (tasks api cap) = 4" by (simp add: tasks_def)
  let ?p = "\<lparr>tasksOf = replicate 4 (Ended (Inr ())), pc = Receiving 4, shared = s1\<rparr>"
  have "rtranclp (runner_step api cap) (startProcess api cap s) ?p"
    using tasks_can_run [of "tasks api cap" "startProcess api cap s" s1 0] assms(1) len by (simp add: startProcess_def)
  moreover have "runner_step api cap ?p (?p\<lparr>pc := Over r, shared := s2\<rparr>)"
    by (rule runner_step.body) (use assms(2) in simp_all)
  ultimately show ?thesis by (simp add: rtranclp.rtrancl_into_rtrancl)
qed

section \<open>Templates\<close>

text \<open>A setting as text with references to variables.\<close>

datatype part = Lit string | Ref string

fun render :: "part \<Rightarrow> string" where
  "render (Lit t) = t"
| "render (Ref n) = ''${'' @ n @ ''}''"

fun plain_part :: "part \<Rightarrow> bool" where
  "plain_part (Lit t) = (CHR ''$'' \<notin> set t)"
| "plain_part (Ref n) = (n \<noteq> [] \<and> CHR ''}'' \<notin> set n)"

fun part_value :: "(string \<Rightarrow> string) \<Rightarrow> part \<Rightarrow> string" where
  "part_value m (Lit t) = t"
| "part_value m (Ref n) = m n"

lemma expand_literal: "CHR ''$'' \<notin> set t \<Longrightarrow> expand m (t @ r) = t @ expand m r"
  by (induction t) auto

lemma getShellName_braced:
  assumes "n \<noteq> []" and "CHR ''}'' \<notin> set n"
  shows "getShellName (CHR ''{'' # n @ CHR ''}'' # r) = (n, length n + 2)"
proof -
  have w: "takeWhile (\<lambda>c. c \<noteq> CHR ''}'') (n @ CHR ''}'' # r) = n"
    using assms(2) by (intro takeWhile_prefix_all) (auto simp: list_all_iff)
  obtain c cs where n: "n = c # cs" using assms(1) by (cases n) auto
  show ?thesis
  proof (cases cs)
    case Nil
    then show ?thesis using w by (auto simp: getShellName_def n Let_def)
  next
    case (Cons d ds)
    then have "d \<noteq> CHR ''}''" using assms(2) n by auto
    then show ?thesis using w by (auto simp: getShellName_def n Cons Let_def)
  qed
qed

lemma expand_reference:
  "n \<noteq> [] \<Longrightarrow> CHR ''}'' \<notin> set n \<Longrightarrow> expand m (''${'' @ n @ ''}'' @ r) = m n @ expand m r"
  using getShellName_braced [of n r] by simp

lemma expand_template: "list_all plain_part ps \<Longrightarrow> expand m (concat (map render ps)) = concat (map (part_value m) ps)"
proof (induction ps)
  case (Cons p ps)
  then show ?case using expand_literal expand_reference by (cases p) auto
qed simp

section \<open>The detected environment\<close>

lemma setAll_sets:
  "runP (setAll kvs) s = (Some (Inr ()), s') \<Longrightarrow> distinct (map fst kvs) \<Longrightarrow> osEnv s' = osEnv s ++ map_of kvs"
proof (induction kvs arbitrary: s rule: setAll.induct)
  case (2 k v kvs)
  have "runP (setAll kvs) (s\<lparr>osEnv := (osEnv s)(k \<mapsto> v)\<rparr>) = (Some (Inr ()), s')"
    using 2(2) by (auto simp: runP_simps Setenv_def split: if_splits)
  with 2 have "osEnv s' = (osEnv s)(k \<mapsto> v) ++ map_of kvs" by auto
  moreover have "k \<notin> dom (map_of kvs)" using 2(3) by (simp add: dom_map_of_conv_image_fst)
  ultimately show ?case by (auto simp: fun_eq_iff map_add_def dom_def split: option.splits)
qed (simp add: giving_def)

lemma envVars_distinct: "distinct (map fst (envVars region out))"
  by (auto simp: envVars_def split: option.splits)

definition expected_region :: "(string \<rightharpoonup> string) \<Rightarrow> string option \<Rightarrow> string" where
  "expected_region env imds = (case env ''AWS_REGION'' of Some r \<Rightarrow> r | None \<Rightarrow>
     (case env ''AWS_DEFAULT_REGION'' of Some r \<Rightarrow> r | None \<Rightarrow> (case imds of Some r \<Rightarrow> r | None \<Rightarrow> ''us-east-1'')))"

lemma detectAwsRegion_detects:
  "\<exists>s1. runP (detectAwsRegion api) s = (Some (Inr (expected_region (osEnv s) (fst (imdsRegion api (rworld s))))), s1) \<and> osEnv s1 = osEnv s"
  by (auto simp: detectAwsRegion_def LookupEnv_def onRWorld_def runP_simps expected_region_def split: option.splits prod.splits)

lemma ensureAwsEnv_sets:
  assumes lawful: "\<forall>kvs x. mset (fst (rangeOrder api kvs x)) = mset kvs"
    and run: "runP (ensureAwsEnv api) s = (Some (Inr ()), s')"
  shows "\<exists>out. osEnv s' = osEnv s ++ map_of (envVars (expected_region (osEnv s) (fst (imdsRegion api (rworld s)))) out)"
proof -
  let ?region = "expected_region (osEnv s) (fst (imdsRegion api (rworld s)))"
  obtain s1 where d: "runP (detectAwsRegion api) s = (Some (Inr ?region), s1)" "osEnv s1 = osEnv s"
    using detectAwsRegion_detects by blast
  obtain out x s2 where s2: "osEnv s2 = osEnv s1"
      "runP (setAll (fst (rangeOrder api (envVars ?region out) x))) s2 = (Some (Inr ()), s')"
    using run d(1) by (auto simp: ensureAwsEnv_def onRWorld_def runP_simps split: prod.splits sum.splits) (metis fst_conv pod.ext_inject pod.select_convs(1) pod.surjective pod.update_convs(6))
  let ?kvs = "fst (rangeOrder api (envVars ?region out) x)"
  have "mset ?kvs = mset (envVars ?region out)" using lawful by blast
  then have "distinct (map fst ?kvs)" "map_of ?kvs = map_of (envVars ?region out)"
    using envVars_distinct [of ?region out]
    by (metis mset_eq_imp_distinct_iff mset_map, metis envVars_distinct map_of_inject_set mset_eq_imp_distinct_iff mset_eq_setD mset_map)
  then show ?thesis using setAll_sets [OF s2(2)] s2(1) d(2) by auto
qed

section \<open>Commands that start\<close>

lemma lively_pod [simp]: "lively (onRWorld g)" "lively (LookupEnv v)"
  by (simp_all add: onRWorld_def LookupEnv_def)

lemma lively_run: "\<forall>x. fst (startCommand api c as x) = None \<Longrightarrow> lively (run api c as)"
  by (auto simp: run_def call_def onRWorld_def split: prod.splits option.splits) (metis fst_conv option.distinct(1))+

lemma lively_setAll: "lively (setAll kvs)"
  by (induction kvs rule: setAll.induct) (auto intro!: lively_bindP)

lemma lively_probeDocker: "lively (probeDocker api d n err)"
  by (induction n arbitrary: err) (auto intro!: lively_bindP split: option.splits)

lemmas lively_loops = lively_setAll lively_probeDocker

lemma tasks_lively:
  assumes "\<forall>c as x. fst (startCommand api c as x) = None" and "t \<in> set (tasks api cap)"
  shows "lively t"
proof -
  have r: "lively (run api c as)" for c as using assms(1) by (intro lively_run) blast
  have "lively (updateCaCertificates api)" "lively (setupGitCredentials api)"
    by (auto simp: updateCaCertificates_def setupGitCredentials_def intro!: lively_bindP r)
  moreover have "lively (ensureAwsEnv api)"
    by (auto simp: ensureAwsEnv_def detectAwsRegion_def intro!: lively_bindP lively_loops split: option.splits sum.splits)
  moreover have "lively (setupDockerConfig api)"
    by (auto simp: setupDockerConfig_def existingConfig_def loadEnvInto_def intro!: lively_bindP split: option.splits sum.splits)
  moreover have "lively (waitForDocker api cap)"
    by (auto simp: waitForDocker_def intro!: lively_bindP lively_loops split: sum.splits)
  ultimately show ?thesis using assms(2) by (auto simp: tasks_def intro: lively_bindP)
qed

text \<open>What is kept by the actions of a goroutine holds of all tasks after a step.\<close>

lemma step_tasks:
  assumes "runner_step api cap p q" and "\<forall>t\<in>set (tasksOf p). P t" and closed: "\<And>f s. P (Act f) \<Longrightarrow> P (snd (f s))"
  shows "\<forall>t\<in>set (tasksOf q). P t"
  using assms(1)
proof (cases rule: runner_step.cases)
  case (act n i f s' r)
  then have "P (Act f)" using assms(2) by (metis nth_mem)
  then have "P r" using act(5) closed by (metis snd_conv)
  then show ?thesis using act(1) assms(2) set_update_subset_insert [of "tasksOf p" i r] by auto
qed (use assms(2) in auto)

lemma step_lively:
  "runner_step api cap p q \<Longrightarrow> \<forall>t\<in>set (tasksOf p). lively t \<Longrightarrow> \<forall>t\<in>set (tasksOf q). lively t"
  by (erule step_tasks) simp_all

lemma run_lively:
  "rtranclp (runner_step api cap) p q \<Longrightarrow> \<forall>t\<in>set (tasksOf p). lively t \<Longrightarrow> \<forall>t\<in>set (tasksOf q). lively t"
  by (induction rule: rtranclp_induct) (auto dest: step_lively)

section \<open>A container in which everything works\<close>

definition demo_runner :: "(unit, unit, string list, unit) runner_api" where
  "demo_runner = \<lparr>startCommand = (\<lambda>c as x. (None, x)), waitCommand = (\<lambda>c as x. (None, x)), imdsRegion = (\<lambda>x. (Some ''sa-east-1'', x)),
     loadDefaultConfig = (\<lambda>r x. (Inr (), x)),
     getCallerIdentity = (\<lambda>k x. (Some \<lparr>IdAccount = Some ''42'', IdArn = None, IdUserId = None\<rparr>, x)), rangeOrder = (\<lambda>kvs x. (rev kvs, x)),
     newEnvClient = (\<lambda>e x. (Inr (), x)), serverVersion = (\<lambda>d x. (None, x)), dockerConfigDir = (\<lambda>e. ''/root/.docker''),
     mkdirAll = (\<lambda>p x. (None, x)), statFile = (\<lambda>p x. (Some (External ''no such file''), x)), openFile = (\<lambda>p x. (Inr [], x)),
     newConfigFile = (\<lambda>p. []), loadConfig = (\<lambda>t. Inr [t]), loadInto = (\<lambda>c t. Inr (c @ [t])), saveConfig = (\<lambda>c x. (None, x)),
     pushGateway = (\<lambda>g x. (None, x)), dialTermination = (\<lambda>x. (None, x)), wallClock = (\<lambda>x. 9)\<rparr>"

definition demo_pod :: "unit pod" where
  "demo_pod = \<lparr>osEnv = [''DOCKER_HOST'' \<mapsto> ''tcp://127.0.0.1'', ''DOCKER_CREDENTIAL_HELPERS'' \<mapsto> ''${AWS_ACCOUNT}''], jobRunning = 0,
     jobStarted = None, jobFinished = None, seen = [], rworld = ()\<rparr>"

lemmas runner_evaluation = tasks_def updateCaCertificates_def setupGitCredentials_def run_def ensureAwsEnv_def detectAwsRegion_def
  LookupEnv_def onRWorld_def record_seen_def envVars_def Setenv_def setupDockerConfig_def existingConfig_def loadEnvInto_def
  waitForDocker_def demo_runner_def demo_pod_def eval_nat_numeral

lemma demo_setup: "\<exists>s. runTasks (tasks demo_runner True) demo_pod = Some s"
  by (simp add: runner_evaluation runP_simps)

lemma demo_setup_without_settings:
  assumes "e ''AWS_REGION'' = None" "e ''AWS_DEFAULT_REGION'' = None" "e ''DOCKER_AUTHS'' = None" "e ''DOCKER_PLUGINS'' = None"
    "e ''DOCKER_CREDENTIAL_HELPERS'' = None"
  shows "\<exists>s. runTasks (tasks demo_runner True) (demo_pod\<lparr>osEnv := e\<rparr>) = Some s"
  using assms by (simp add: runner_evaluation runP_simps)

lemma demo_pushes: "pushMetrics demo_runner s = (Returned, record_seen (Pushed (jobRunning s) (jobStarted s) (jobFinished s)) s)"
  by (simp add: pushMetrics_def demo_runner_def record_seen_def)

lemma demo_body: "fst (mainBody demo_runner True s) = Returned"
  by (simp add: mainBody_def withDefer_def demo_pushes runGitHubActionsRunner_def run_def onRWorld_def record_seen_def runP_simps
      requestDindTermination_def split_beta) (simp add: demo_runner_def requestDindTermination_def)

lemma setup_effect_iff: "setup_effect e \<longleftrightarrow> (\<exists>as. e = Started ''sudo'' as)"
  by (cases e) (auto simp: setup_effect_def)

section \<open>Properties\<close>

lemma only_sudo: "list_all setup_effect es \<longleftrightarrow> (\<forall>e\<in>set es. \<exists>as. e = Started ''sudo'' as)"
  by (simp add: list_all_iff setup_effect_iff)

text \<open>Dind is asked to stop only by a process with the capability, and by every one whose body ends.\<close>

lemma dials_only_if_capable:
  assumes "process_inv cap p" and "Dialled ok \<in> set (seen (shared p))"
  shows cap
  using assms by (auto simp: process_inv_def only_sudo body_trace_def asked_def split: main_pc.splits if_splits)

lemma dials_if_capable:
  assumes "process_inv cap p" and "pc p = Over r" and "r \<noteq> Hangs" and "\<forall>i<4. tasksOf p ! i = Ended (Inr ())" and cap
  shows "\<exists>ok. Dialled ok \<in> set (seen (shared p))"
  using assms by (auto simp: process_inv_def body_trace_def asked_def)

lemma body_trace_shown:
  "body_trace as cap r es \<Longrightarrow> case r of
      Returned \<Rightarrow> \<exists>t u v ok. es = [Pushed 1 (Some t) u, Started ''/opt/actions-runner/run.sh'' as, Pushed 0 (Some t) (Some v)] @
        (if cap then [Dialled ok] else [])
    | Panicked _ \<Rightarrow> \<exists>mid ok. es = mid @ (if cap then [Dialled ok] else []) \<and>
        (mid = [] \<or> (\<exists>t u rest. mid = Pushed 1 (Some t) u # Started ''/opt/actions-runner/run.sh'' as # rest \<and>
           (rest = [] \<or> (\<exists>v. rest = [Pushed 0 (Some t) (Some v)]))))
    | Hangs \<Rightarrow> \<exists>t u. es = [Pushed 1 (Some t) u]"
  by (cases r) (fastforce simp: body_trace_def asked_def gitHubActionsRunnerPath_def)+

text \<open>
  Claim C16. The actions runner runs between its brackets: however the four set-up tasks interleave and whatever
  fails, nothing but \<^verbatim>\<open>sudo\<close> commands happens before all of them have succeeded; a task that fails
  makes the process panic without running the actions runner and without asking dind to stop; once main runs its body,
  the actions runner is started at most once, after the metrics said that the job runs, and when it returns, the
  metrics have said that it finished and dind, if there is one, has been asked to stop last, as it has whenever the body panics.
\<close>

theorem actions_runner_runs_between_brackets:
  assumes "seen s = []" and "rtranclp (runner_step api cap) (startProcess api cap s) p"
  shows "case pc p of
      Receiving n \<Rightarrow> (\<forall>i<n. tasksOf p ! i = Ended (Inr ())) \<and> (\<forall>e\<in>set (seen (shared p)). \<exists>as. e = Started ''sudo'' as)
    | Over r \<Rightarrow>
        (\<exists>n<4. \<exists>e. tasksOf p ! n = Ended (Inl e) \<and> r = Panicked e) \<and> (\<forall>e\<in>set (seen (shared p)). \<exists>as. e = Started ''sudo'' as) \<or>
        (\<forall>i<4. tasksOf p ! i = Ended (Inr ())) \<and>
        (\<exists>pre es as. seen (shared p) = pre @ es \<and> (\<forall>e\<in>set pre. \<exists>as. e = Started ''sudo'' as) \<and>
           (case r of
              Returned \<Rightarrow> \<exists>t u v ok. es = [Pushed 1 (Some t) u, Started ''/opt/actions-runner/run.sh'' as, Pushed 0 (Some t) (Some v)] @
                (if cap then [Dialled ok] else [])
            | Panicked _ \<Rightarrow> \<exists>mid ok. es = mid @ (if cap then [Dialled ok] else []) \<and>
                (mid = [] \<or> (\<exists>t u rest. mid = Pushed 1 (Some t) u # Started ''/opt/actions-runner/run.sh'' as # rest \<and>
                   (rest = [] \<or> (\<exists>v. rest = [Pushed 0 (Some t) (Some v)]))))
            | Hangs \<Rightarrow> \<exists>t u. es = [Pushed 1 (Some t) u]))"
proof -
  have "fresh api cap (startProcess api cap s)" using assms(1) by (auto simp: fresh_def)
  from runner_runs.reachable_inv [OF this assms(2)] have inv: "process_inv cap p" .
  show ?thesis
  proof (cases "pc p")
    case (Receiving n)
    then show ?thesis using inv by (simp add: process_inv_def only_sudo)
  next
    case (Over r)
    with inv consider "\<exists>n<4. \<exists>e. tasksOf p ! n = Ended (Inl e) \<and> r = Panicked e" "list_all setup_effect (seen (shared p))"
      | pre es as where "\<forall>i<4. tasksOf p ! i = Ended (Inr ())" "seen (shared p) = pre @ es" "list_all setup_effect pre" "body_trace as cap r es"
      by (auto simp: process_inv_def)
    then show ?thesis
    proof cases
      case 1
      then show ?thesis using Over by (simp add: only_sudo)
    next
      case 2
      show ?thesis
        unfolding Over main_pc.case
        by (intro disjI2 conjI exI [of _ pre] exI [of _ es] exI [of _ as] 2(1,2) 2(3) [unfolded only_sudo] body_trace_shown [OF 2(4)])
    qed
  qed
qed

theorem actions_runner_runs_between_brackets_witness:
  "\<exists>p. pc p = Over Returned \<and> (\<exists>ok. last (seen (shared p)) = Dialled ok) \<and> rtranclp (runner_step demo_runner True) (startProcess demo_runner True demo_pod) p"
proof -
  obtain s1 where s1: "runTasks (tasks demo_runner True) demo_pod = Some s1" using demo_setup by blast
  obtain s2 where s2: "mainBody demo_runner True s1 = (Returned, s2)" using demo_body [of s1] by (metis prod.collapse)
  let ?p = "\<lparr>tasksOf = replicate 4 (Ended (Inr ())), pc = Over Returned, shared = s2\<rparr>"
  have r: "rtranclp (runner_step demo_runner True) (startProcess demo_runner True demo_pod) ?p" by (rule process_can_finish [OF s1 s2])
  have "seen demo_pod = []" by (simp add: demo_pod_def)
  from actions_runner_runs_between_brackets [OF this r] have "\<exists>ok. last (seen s2) = Dialled ok" by auto
  with r show ?thesis by (intro exI [of _ ?p]) simp
qed



text \<open>
  A command that cannot be started stops the container for good: its error is sent before anyone can
  receive it, so that when \<^verbatim>\<open>sudo\<close> does not start, main never gets past the first channel, neither to
  a panic nor to its body.
\<close>

theorem unstartable_command_hangs:
  assumes fails: "\<forall>as x. fst (startCommand api ''sudo'' as x) \<noteq> None"
    and run: "rtranclp (runner_step api cap) (startProcess api cap s) p"
  shows "pc p = Receiving 0"
proof -
  have hang: "snd (f s) = Hanging" if f: "updateCaCertificates api = Act f" for f s
  proof -
    have "fst (startCommand api ''sudo'' [''update-ca-certificates''] (rworld s)) \<noteq> None" using fails by blast
    then show ?thesis using f by (auto simp: updateCaCertificates_def run_def call_def split: prod.splits option.splits)
  qed
  from run have "pc p = Receiving 0 \<and> 0 < length (tasksOf p) \<and> tasksOf p ! 0 \<in> {updateCaCertificates api, Hanging}"
  proof (induction rule: rtranclp_induct)
    case base
    then show ?case by (simp add: startProcess_def tasks_def)
  next
    case (step p q)
    from step.hyps(2) show ?case
    proof (cases rule: runner_step.cases)
      case (act n i f s' r)
      have "r = Hanging" if "i = 0"
      proof -
        have "updateCaCertificates api = Act f" using step.IH act(4) that by auto
        from hang [OF this, of "shared p"] show ?thesis using act(5) by simp
      qed
      then show ?thesis using step.IH act by (cases i) simp_all
    qed (use step.IH in \<open>auto simp: updateCaCertificates_def run_def call_def\<close>)
  qed
  then show ?thesis by simp
qed



end
