(* ===== verification/Pod.thy ===== *)
theory Pod
  imports Dind_Start Runner
begin

text \<open>
  The two containers of a pod with the docker capability: the runner (\<^verbatim>\<open>runner/main.go\<close>) and dind (\<^verbatim>\<open>dind/main.go\<close>), each
  making its calls on one world. The runner's request to stop is a connection to the port dind listens
  on; dind exits when its listener gets one. The pod runs its containers with the restart policy
  \<^verbatim>\<open>Never\<close>, so it ends when both have.
\<close>

section \<open>The pod\<close>

datatype dind_end = DindRunning | DindExited int | DindDied

record 'w two_containers =
  runnerOf :: "'w process"
  setupLeft :: "('w dind_proc, int option) proc"
  dindOf :: "'w dind_proc"
  dindEnd :: dind_end

definition podWorld :: "'w two_containers \<Rightarrow> 'w" where
  "podWorld n = rworld (shared (runnerOf n))"

definition dindNow :: "'w two_containers \<Rightarrow> 'w dind_proc" where
  "dindNow n = (dindOf n)\<lparr>core := (core (dindOf n))\<lparr>dworld := podWorld n\<rparr>\<rparr>"

text \<open>The state after dind acted: its own, and the world that the runner shares.\<close>

definition putDind :: "'w dind_proc \<Rightarrow> 'w two_containers \<Rightarrow> 'w two_containers" where
  "putDind d n = n\<lparr>dindOf := d, runnerOf := (runnerOf n)\<lparr>shared := (shared (runnerOf n))\<lparr>rworld := dworld (core d)\<rparr>\<rparr>\<rparr>"

definition exitOf :: "main_out res \<Rightarrow> dind_end" where
  "exitOf r = (case r of Ok Continue \<Rightarrow> DindRunning | Ok BreakLoop \<Rightarrow> DindExited 0 | Ok (OsExit st) \<Rightarrow> DindExited st | _ \<Rightarrow> DindDied)"

text \<open>The runner dialled, and its connection was made.\<close>

definition dialled :: "'w two_containers \<Rightarrow> bool" where
  "dialled n \<longleftrightarrow> (\<exists>ok. Dialled ok \<in> set (seen (shared (runnerOf n))))"

definition connected :: "'w two_containers \<Rightarrow> bool" where
  "connected n \<longleftrightarrow> Dialled True \<in> set (seen (shared (runnerOf n)))"

inductive pod_step ::
    "('k, 'd, 'c, 'w) runner_api \<Rightarrow> 'w start_api \<Rightarrow> 'w docker_api \<Rightarrow> 'w os_api \<Rightarrow> 'w host_api \<Rightarrow>
     'w two_containers \<Rightarrow> 'w two_containers \<Rightarrow> bool"
  for api :: "('k, 'd, 'c, 'w) runner_api" and sa dapi os h where
  runner: "runner_step api True (runnerOf n) p \<Longrightarrow> pod_step api sa dapi os h n (n\<lparr>runnerOf := p\<rparr>)"
| dind_setup: "dindEnd n = DindRunning \<Longrightarrow> setupLeft n = Act f \<Longrightarrow> f (dindNow n) = (d, q) \<Longrightarrow>
    pod_step api sa dapi os h n ((putDind d n)\<lparr>setupLeft := q\<rparr>)"
| dind_panic: "dindEnd n = DindRunning \<Longrightarrow> setupLeft n = Ended (Inl e) \<Longrightarrow> pod_step api sa dapi os h n (n\<lparr>dindEnd := DindDied\<rparr>)"
| dind_event: "dindEnd n = DindRunning \<Longrightarrow> setupLeft n = Ended (Inr pid) \<Longrightarrow> handleEvent dapi m (core (dindNow n)) = (r, c) \<Longrightarrow>
    pod_step api sa dapi os h n ((putDind ((dindOf n)\<lparr>core := c\<rparr>) n)\<lparr>dindEnd := (if r = Ok () then DindRunning else DindDied)\<rparr>)"
| dind_loop: "dindEnd n = DindRunning \<Longrightarrow> setupLeft n = Ended (Inr pid) \<Longrightarrow> mainStep os h i (core (dindNow n)) = (r, c) \<Longrightarrow>
    pod_step api sa dapi os h n ((putDind ((dindOf n)\<lparr>core := c\<rparr>) n)\<lparr>dindEnd := exitOf r\<rparr>)"
| interrupt: "dindEnd n = DindRunning \<Longrightarrow> tcp (dindOf n) = Accepting \<Longrightarrow> connected n \<Longrightarrow> onConnection sa (core (dindNow n)) = (r, c) \<Longrightarrow>
    pod_step api sa dapi os h n ((putDind ((dindOf n)\<lparr>core := c, tcp := ListenerClosed\<rparr>) n)
      \<lparr>dindEnd := (case r of Ok st \<Rightarrow> DindExited st | _ \<Rightarrow> DindDied)\<rparr>)"

definition startPod ::
    "('k, 'd, 'c, 'w) runner_api \<Rightarrow> 'w start_api \<Rightarrow> 'w docker_api \<Rightarrow> 'w os_api \<Rightarrow> string \<Rightarrow> string list \<Rightarrow> 'w pod \<Rightarrow> 'w dind \<Rightarrow> 'w two_containers" where
  "startPod api sa dapi os dockerHost osArgs s d =
     \<lparr>runnerOf = startProcess api True s, setupLeft = dindSetup sa dapi os dockerHost osArgs, dindOf = \<lparr>core = d, tcp = NoListener\<rparr>,
      dindEnd = DindRunning\<rparr>"

section \<open>What the runner relies on\<close>

text \<open>
  The docker daemon answers only when it is up, and neither the runner's calls nor the opening of the
  port brings it up: \<open>up\<close> tells whether it is.
\<close>

definition keeps_down :: "('w \<Rightarrow> bool) \<Rightarrow> ('w \<Rightarrow> 'a \<times> 'w) \<Rightarrow> bool" where
  "keeps_down up f \<longleftrightarrow> (\<forall>w. \<not> up w \<longrightarrow> \<not> up (snd (f w)))"

definition docker_law :: "('w \<Rightarrow> bool) \<Rightarrow> ('k, 'd, 'c, 'w) runner_api \<Rightarrow> 'w start_api \<Rightarrow> bool" where
  "docker_law up api sa \<longleftrightarrow>
     (\<forall>d w. fst (serverVersion api d w) = None \<longrightarrow> up w) \<and> keeps_down up (listenTcp sa '':2378'') \<and>
     (\<forall>c as. keeps_down up (startCommand api c as)) \<and> (\<forall>c as. keeps_down up (waitCommand api c as)) \<and> keeps_down up (imdsRegion api) \<and>
     (\<forall>r. keeps_down up (loadDefaultConfig api r)) \<and> (\<forall>k. keeps_down up (getCallerIdentity api k)) \<and> (\<forall>kvs. keeps_down up (rangeOrder api kvs)) \<and>
     (\<forall>e. keeps_down up (newEnvClient api e)) \<and> (\<forall>d. keeps_down up (serverVersion api d)) \<and> (\<forall>p. keeps_down up (mkdirAll api p)) \<and>
     (\<forall>p. keeps_down up (statFile api p)) \<and> (\<forall>p. keeps_down up (openFile api p)) \<and> (\<forall>c. keeps_down up (saveConfig api c))"

definition stays_down :: "('w \<Rightarrow> bool) \<Rightarrow> 'w pod \<Rightarrow> 'w pod \<Rightarrow> bool" where
  "stays_down up s s' \<longleftrightarrow> (\<not> up (rworld s) \<longrightarrow> \<not> up (rworld s'))"

lemma down_onRWorld: "keeps_down up f \<Longrightarrow> obeys (stays_down up) (onRWorld f)"
  unfolding onRWorld_def keeps_down_def by (rule obeys_call) (simp add: stays_down_def split_beta)

lemma down_pure: "(\<And>s. rworld (snd (f s)) = rworld s) \<Longrightarrow> obeys (stays_down up) (call f)"
  by (rule obeys_call) (simp add: stays_down_def)

lemma down_run:
  assumes "docker_law up api sa"
  shows "obeys (stays_down up) (run api c as)"
proof -
  have k: "keeps_down up (startCommand api c as)" "keeps_down up (waitCommand api c as)" using assms by (simp_all add: docker_law_def)
  have w: "rworld (snd (case startCommand api c as (rworld s) of
         (None, x) \<Rightarrow> (True, record_seen (Started c as) (s\<lparr>rworld := x\<rparr>))
       | (Some e, x) \<Rightarrow> (False, s\<lparr>rworld := x\<rparr>))) = snd (startCommand api c as (rworld s))" for s
    by (simp add: record_seen_def split: prod.splits option.splits)
  show ?thesis
    unfolding run_def using k(1)
    by (intro obeys_bindP obeys_call) (simp_all add: stays_down_def w keeps_down_def down_onRWorld [OF k(2)])
qed

lemma down_setAll: "obeys (stays_down up) (setAll kvs)"
  by (induction kvs rule: setAll.induct) (auto intro!: obeys_bindP down_pure simp: Setenv_def)

lemma down_probeDocker: "docker_law up api sa \<Longrightarrow> obeys (stays_down up) (probeDocker api d n err)"
  by (induction n arbitrary: err) (auto intro!: obeys_bindP down_onRWorld simp: docker_law_def split: option.splits)

lemma tasks_stay_down:
  assumes law: "docker_law up api sa" and "t \<in> set (tasks api cap)"
  shows "obeys (stays_down up) t"
proof -
  let ?R = "stays_down up"
  note k = law [unfolded docker_law_def]
  have env: "obeys ?R (LookupEnv v)" for v unfolding LookupEnv_def by (rule down_pure) simp
  have "obeys ?R (updateCaCertificates api)" "obeys ?R (setupGitCredentials api)"
    by (auto simp: updateCaCertificates_def setupGitCredentials_def intro!: obeys_bindP down_run [OF law])
  moreover have "obeys ?R (ensureAwsEnv api)"
    using k by (auto simp: ensureAwsEnv_def detectAwsRegion_def intro!: obeys_bindP env down_onRWorld down_setAll split: option.splits sum.splits)
  moreover have "obeys ?R (setupDockerConfig api)"
    using k by (auto simp: setupDockerConfig_def existingConfig_def loadEnvInto_def intro!: obeys_bindP env down_onRWorld down_pure
        split: option.splits sum.splits if_splits)
  moreover have "obeys ?R (waitForDocker api cap)"
  proof -
    have "obeys ?R (call (\<lambda>s. case newEnvClient api (osEnv s) (rworld s) of (r, x) \<Rightarrow> (r, s\<lparr>rworld := x\<rparr>)))"
      using k by (intro obeys_call) (simp add: stays_down_def keeps_down_def split_beta)
    then show ?thesis
      by (auto simp: waitForDocker_def intro!: obeys_bindP down_probeDocker [OF law] split: sum.splits)
  qed
  ultimately show ?thesis using assms(2) by (auto simp: tasks_def intro: obeys_bindP)
qed

lemma probeDocker_gated:
  assumes "\<forall>d w. fst (serverVersion api d w) = None \<longrightarrow> up w"
  shows "0 < n \<or> err \<noteq> None \<Longrightarrow> gated (\<lambda>s. up (rworld s)) (\<lambda>r. r = None) (probeDocker api d n err)"
proof (induction n arbitrary: err)
  case (Suc n)
  have "gated (\<lambda>s. up (rworld s)) (\<lambda>r. r = None) (onRWorld (serverVersion api d))"
    unfolding onRWorld_def using assms by (intro gated_call) (simp add: split_beta)
  then show ?case using Suc.IH by (auto intro!: gated_bindP split: option.splits)
qed (simp add: giving_def)

lemma waitForDocker_gated:
  assumes "docker_law up api sa"
  shows "gated (\<lambda>s. up (rworld s)) (\<lambda>_. True) (waitForDocker api True)"
proof -
  let ?U = "\<lambda>s :: 'a pod. up (rworld s)"
  have p: "gated ?U (\<lambda>r. r = None) (probeDocker api d 15 None)" for d
    using assms by (intro probeDocker_gated) (simp_all add: docker_law_def)
  have "gated ?U (\<lambda>_. False) (call f)" for f :: "'a pod \<Rightarrow> _ \<times> 'a pod" by (rule gated_call) simp
  moreover have "gated ?U (\<lambda>_. True) (bindP (probeDocker api d 15 None) (orWrap m))" for d m
    by (rule gated_bindP [OF p]) (auto simp: orWrap_def)
  ultimately show ?thesis
    unfolding waitForDocker_def by (auto intro!: gated_bindP [where P = "\<lambda>_. False"] split: sum.splits)
qed

section \<open>The invariant of the pod\<close>

definition pod_inv ::
    "('w \<Rightarrow> bool) \<Rightarrow> ('w dind_proc, int option) proc \<Rightarrow> 'w two_containers \<Rightarrow> bool" where
  "pod_inv up setup0 n \<longleftrightarrow> process_inv True (runnerOf n) \<and>
     (\<forall>t\<in>set (tasksOf (runnerOf n)). obeys (stays_down up) t) \<and> obeys listens_still (setupLeft n) \<and>
     (dindEnd n = DindRunning \<longrightarrow> tcp (dindOf n) \<noteq> ListenerClosed) \<and>
     (tcp (dindOf n) = NoListener \<longrightarrow> \<not> up (podWorld n) \<and> gated (\<lambda>s. up (rworld s)) (\<lambda>_. True) (tasksOf (runnerOf n) ! 3) \<and>
        (setupLeft n = setup0 \<or> (\<exists>e. setupLeft n = Ended (Inl e))))"

lemma runner_step_down:
  assumes inv: "process_inv True p" and obey: "\<forall>t\<in>set (tasksOf p). obeys (stays_down up) t" and down: "\<not> up (rworld (shared p))"
    and g: "gated (\<lambda>s. up (rworld s)) (\<lambda>_. True) (tasksOf p ! 3)" and step: "runner_step api True p q"
  shows "\<not> up (rworld (shared q)) \<and> gated (\<lambda>s. up (rworld s)) (\<lambda>_. True) (tasksOf q ! 3)"
  using step
proof (cases rule: runner_step.cases)
  case (act n i f s' r)
  have "obeys (stays_down up) (Act f)" using obey act(3,4) by (metis nth_mem)
  then have "stays_down up (shared p) s'" using act(5) by (metis fst_conv obeys_simps(3))
  moreover have "gated (\<lambda>s. up (rworld s)) (\<lambda>_. True) ((tasksOf p)[i := r] ! 3)"
  proof (cases "i = 3")
    case True
    then have "gated (\<lambda>s. up (rworld s)) (\<lambda>_. True) (Act f)" using g act(4) by simp
    then show ?thesis using True act(3,5) down by (metis gated_simps(4) nth_list_update_eq snd_conv)
  qed (use g in simp)
  ultimately show ?thesis using act(1) down by (simp add: stays_down_def)
next
  case (body n r s')
  have "tasksOf p ! 3 = Ended (Inr ())" using inv body(2,3) by (simp add: process_inv_def)
  then show ?thesis using g by simp
qed (use down g in auto)

lemma putDind_fields [simp]:
  "runnerOf (putDind d n) = (runnerOf n)\<lparr>shared := (shared (runnerOf n))\<lparr>rworld := dworld (core d)\<rparr>\<rparr>"
  "dindOf (putDind d n) = d" "dindEnd (putDind d n) = dindEnd n" "setupLeft (putDind d n) = setupLeft n"
  "podWorld (putDind d n) = dworld (core d)"
  by (simp_all add: putDind_def podWorld_def)

lemma podWorld_frame [simp]:
  "podWorld (n\<lparr>setupLeft := q\<rparr>) = podWorld n" "podWorld (n\<lparr>dindEnd := e\<rparr>) = podWorld n" "podWorld (n\<lparr>dindOf := d\<rparr>) = podWorld n"
  by (simp_all add: podWorld_def)

lemma process_inv_world [simp]: "process_inv cap (p\<lparr>shared := (shared p)\<lparr>rworld := w\<rparr>\<rparr>) = process_inv cap p"
  by (simp add: process_inv_def cong: main_pc.case_cong)

lemma pod_inv_runner:
  assumes inv: "pod_inv up setup0 n" and step: "runner_step api True (runnerOf n) p"
  shows "pod_inv up setup0 (n\<lparr>runnerOf := p\<rparr>)"
proof -
  have i: "process_inv True (runnerOf n)" "\<forall>t\<in>set (tasksOf (runnerOf n)). obeys (stays_down up) t" using inv by (simp_all add: pod_inv_def)
  have "\<forall>t\<in>set (tasksOf p). obeys (stays_down up) t" by (rule step_tasks [OF step i(2)]) simp
  moreover have "process_inv True p" by (rule process_inv_step [OF i(1) step])
  moreover have "\<not> up (rworld (shared p)) \<and> gated (\<lambda>s. up (rworld s)) (\<lambda>_. True) (tasksOf p ! 3)" if "tcp (dindOf n) = NoListener"
    using inv that runner_step_down [OF i _ _ step] by (simp add: pod_inv_def podWorld_def)
  ultimately show ?thesis using inv by (simp add: pod_inv_def podWorld_def)
qed

lemma pod_inv_setup:
  assumes inv: "pod_inv up (dindSetup sa dapi os host args) n" and down: "keeps_down up (listenTcp sa '':2378'')"
    and run: "dindEnd n = DindRunning" "setupLeft n = Act f" "f (dindNow n) = (d, q)"
  shows "pod_inv up (dindSetup sa dapi os host args) ((putDind d n)\<lparr>setupLeft := q\<rparr>)"
proof -
  have o: "obeys listens_still (Act f)" using inv run(2) by (simp add: pod_inv_def)
  then have q: "obeys listens_still q" "listens_still (dindNow n) d" using run(3) by (metis obeys_simps(3) snd_conv, metis obeys_simps(3) fst_conv)
  have t: "tcp (dindNow n) = tcp (dindOf n)" "dworld (core (dindNow n)) = podWorld n" by (simp_all add: dindNow_def)
  show ?thesis
  proof (cases "tcp (dindOf n) = NoListener")
    case True
    then have f: "dindSetup sa dapi os host args = Act f" and "\<not> up (podWorld n)" using inv run(2) by (auto simp: pod_inv_def)
    then have "\<not> up (snd (listenTcp sa '':2378'' (podWorld n)))" using down by (simp add: keeps_down_def)
    with dindSetup_first [OF f, of "dindNow n" d q] run(3) t True inv q(1) show ?thesis by (auto simp: pod_inv_def)
  next
    case False
    then have "tcp (dindOf n) = Accepting" using inv run(1) by (cases "tcp (dindOf n)") (auto simp: pod_inv_def)
    then have "tcp d = Accepting" using q(2) t(1) by (simp add: listens_still_def)
    then show ?thesis using inv q(1) by (simp add: pod_inv_def)
  qed
qed

lemma pod_inv_looping:
  assumes inv: "pod_inv up (dindSetup sa dapi os host args) n" and "setupLeft n = Ended (Inr pid)"
  shows "tcp (dindOf n) \<noteq> NoListener"
proof
  assume "tcp (dindOf n) = NoListener"
  then have "dindSetup sa dapi os host args = Ended (Inr pid)" using assms by (auto simp: pod_inv_def)
  then show False by (simp add: dindSetup_def listenForInterrupt_def call_def)
qed

lemma pod_inv_step:
  assumes law: "docker_law up api sa" and inv: "pod_inv up (dindSetup sa dapi os host args) n" and step: "pod_step api sa dapi os h n n'"
  shows "pod_inv up (dindSetup sa dapi os host args) n'"
  using step
proof (cases rule: pod_step.cases)
  case (runner p)
  then show ?thesis using pod_inv_runner [OF inv] by blast
next
  case (dind_setup f d q)
  then show ?thesis using pod_inv_setup [OF inv] law by (simp add: docker_law_def)
next
  case dind_panic
  then show ?thesis using inv by (simp add: pod_inv_def podWorld_def)
next
  case (dind_event pid m r c)
  then show ?thesis using inv pod_inv_looping [OF inv dind_event(3)] by (simp add: pod_inv_def)
next
  case (dind_loop pid i r c)
  then show ?thesis using inv pod_inv_looping [OF inv dind_loop(3)] by (simp add: pod_inv_def)
next
  case (interrupt r c)
  then show ?thesis using inv by (simp add: pod_inv_def split: res.splits)
qed

definition fresh_pod ::
    "('w \<Rightarrow> bool) \<Rightarrow> ('k, 'd, 'c, 'w) runner_api \<Rightarrow> 'w start_api \<Rightarrow> 'w docker_api \<Rightarrow> 'w os_api \<Rightarrow> string \<Rightarrow> string list \<Rightarrow> 'w two_containers \<Rightarrow> bool" where
  "fresh_pod up api sa dapi os host args n \<longleftrightarrow> docker_law up api sa \<and>
     (\<exists>s d. seen s = [] \<and> \<not> up (rworld s) \<and> n = startPod api sa dapi os host args s d)"

lemma pod_inv_start:
  assumes "fresh_pod up api sa dapi os host args n"
  shows "pod_inv up (dindSetup sa dapi os host args) n"
proof -
  obtain s d where law: "docker_law up api sa" and s: "seen s = []" "\<not> up (rworld s)" and n: "n = startPod api sa dapi os host args s d"
    using assms by (auto simp: fresh_pod_def)
  have "process_inv True (startProcess api True s)" using s(1) by (intro process_inv_start [of api]) (auto simp: fresh_def)
  moreover have "tasks api True ! 3 = waitForDocker api True" by (simp add: tasks_def eval_nat_numeral)
  ultimately show ?thesis
    using s(2) tasks_stay_down [OF law] waitForDocker_gated [OF law] dindSetup_listens
    by (simp add: pod_inv_def n startPod_def podWorld_def startProcess_def)
qed

interpretation pod_runs: transition_system "fresh_pod up api sa dapi os host args" "pod_step api sa dapi os h"
    "\<lambda>n. docker_law up api sa \<and> pod_inv up (dindSetup sa dapi os host args) n"
  for up :: "'w \<Rightarrow> bool" and api :: "('k, 'd, 'c, 'w) runner_api" and sa dapi os host args h
proof unfold_locales
  fix n
  assume f: "fresh_pod up api sa dapi os host args n"
  then have "docker_law up api sa" by (simp add: fresh_pod_def)
  with pod_inv_start [OF f] show "docker_law up api sa \<and> pod_inv up (dindSetup sa dapi os host args) n" by blast
next
  fix n n'
  assume "docker_law up api sa \<and> pod_inv up (dindSetup sa dapi os host args) n" and "pod_step api sa dapi os h n n'"
  then show "docker_law up api sa \<and> pod_inv up (dindSetup sa dapi os host args) n'" using pod_inv_step by blast
qed

section \<open>Asking\<close>

lemma setup_never_asks: "list_all setup_effect (seen (shared (runnerOf n))) \<Longrightarrow> \<not> dialled n"
  by (auto simp: dialled_def list_all_iff setup_effect_def)

lemma pod_inv_asked:
  assumes "pod_inv up setup0 n" and "dialled n"
  shows "tcp (dindOf n) \<noteq> NoListener"
proof
  assume "tcp (dindOf n) = NoListener"
  then have g: "gated (\<lambda>s. up (rworld s)) (\<lambda>_. True) (tasksOf (runnerOf n) ! 3)" using assms(1) by (simp add: pod_inv_def)
  have "\<not> list_all setup_effect (seen (shared (runnerOf n)))" using assms(2) setup_never_asks by blast
  then have "tasksOf (runnerOf n) ! 3 = Ended (Inr ())"
    using assms(1) by (auto simp: pod_inv_def process_inv_def split: main_pc.splits)
  with g show False by simp
qed

lemma over_runner_keeps_seen:
  assumes "rtranclp (pod_step api sa dapi os h) n n'" and "pc (runnerOf n) = Over r"
  shows "pc (runnerOf n') = Over r \<and> dialled n' = dialled n"
  using assms
proof (induction rule: rtranclp_induct)
  case (step m m')
  from step.hyps(2) step.IH [OF step.prems] show ?case
    by (cases rule: pod_step.cases) (auto simp: dialled_def elim: runner_step.cases)
qed simp

lemma setup_failure_never_asks:
  assumes "process_inv True (runnerOf n)" and "pc (runnerOf n) = Over r" and "i < 4" "tasksOf (runnerOf n) ! i = Ended (Inl e)"
  shows "\<not> dialled n"
proof -
  have "list_all setup_effect (seen (shared (runnerOf n)))" using assms by (auto simp: process_inv_def)
  then show ?thesis by (rule setup_never_asks)
qed

lemma pod_runs_runner:
  "rtranclp (runner_step api True) p q \<Longrightarrow> runnerOf n = p \<Longrightarrow> rtranclp (pod_step api sa dapi os h) n (n\<lparr>runnerOf := q\<rparr>)"
proof (induction rule: rtranclp_induct)
  case base
  then have "n\<lparr>runnerOf := p\<rparr> = n" by simp
  then show ?case by simp
next
  case (step q r)
  have "pod_step api sa dapi os h (n\<lparr>runnerOf := q\<rparr>) ((n\<lparr>runnerOf := q\<rparr>)\<lparr>runnerOf := r\<rparr>)"
    using step.hyps(2) by (intro pod_step.runner) simp
  then show ?case using step.IH [OF step.prems] by (auto intro: rtranclp.rtrancl_into_rtrancl)
qed

lemma pod_runs_setup:
  "runP t (dindNow n) = (Some r, d) \<Longrightarrow> setupLeft n = t \<Longrightarrow> dindEnd n = DindRunning \<Longrightarrow>
     \<exists>n'. rtranclp (pod_step api sa dapi os h) n n' \<and> dindEnd n' = DindRunning \<and>
       runnerOf n' = (runnerOf n)\<lparr>shared := (shared (runnerOf n))\<lparr>rworld := dworld (core d)\<rparr>\<rparr>"
proof (induction t arbitrary: n)
  case (Ended r')
  then show ?case by (intro exI [of _ n]) (auto simp: dindNow_def podWorld_def)
next
  case (Act f)
  obtain d1 q where f: "f (dindNow n) = (d1, q)" by (rule prod.exhaust)
  let ?n = "(putDind d1 n)\<lparr>setupLeft := q\<rparr>"
  have s: "pod_step api sa dapi os h n ?n" by (rule pod_step.dind_setup [OF Act.prems(3,2) f])
  have now: "dindNow ?n = d1" by (simp add: dindNow_def putDind_def podWorld_def)
  have "\<exists>n'. rtranclp (pod_step api sa dapi os h) ?n n' \<and> dindEnd n' = DindRunning \<and>
      runnerOf n' = (runnerOf ?n)\<lparr>shared := (shared (runnerOf ?n))\<lparr>rworld := dworld (core d)\<rparr>\<rparr>"
    using Act.prems f now by (intro Act.IH [of "f (dindNow n)" q]) (auto simp: snds.intros intro: range_eqI [of _ f "dindNow n"])
  then show ?case using s by (auto intro: converse_rtranclp_into_rtranclp)
qed simp

section \<open>A pod in which everything works\<close>

text \<open>The world is whether the daemon is up.\<close>

definition pod_runner :: "(unit, unit, unit, bool) runner_api" where
  "pod_runner = \<lparr>startCommand = (\<lambda>c as x. (None, x)), waitCommand = (\<lambda>c as x. (None, x)), imdsRegion = (\<lambda>x. (None, x)),
     loadDefaultConfig = (\<lambda>r x. (Inr (), x)), getCallerIdentity = (\<lambda>k x. (None, x)), rangeOrder = (\<lambda>kvs x. (kvs, x)),
     newEnvClient = (\<lambda>e x. (Inr (), x)), serverVersion = (\<lambda>d x. (if x then None else Some (External ''refused''), x)),
     dockerConfigDir = (\<lambda>e. ''/root/.docker''), mkdirAll = (\<lambda>p x. (None, x)), statFile = (\<lambda>p x. (Some (External ''no such file''), x)),
     openFile = (\<lambda>p x. (Inr [], x)), newConfigFile = (\<lambda>p. ()), loadConfig = (\<lambda>t. Inr ()), loadInto = (\<lambda>c t. Inr ()),
     saveConfig = (\<lambda>c x. (None, x)), pushGateway = (\<lambda>g x. (None, x)), dialTermination = (\<lambda>x. (None, x)), wallClock = (\<lambda>x. 9)\<rparr>"

definition pod_start :: "bool start_api" where
  "pod_start = \<lparr>listenTcp = (\<lambda>a x. (Inr (), x)), acceptConn = (\<lambda>x. (Inr (), x)), closeConn = (\<lambda>x. (Inr (), x)), closeListener = (\<lambda>x. (Inr (), x)),
     userLookup = (\<lambda>u x. (Inr (''1000'', ''1000''), x)), runCommand = (\<lambda>c as x. (Inr (), x)), newIptables = (\<lambda>x. (Inr (), x))\<rparr>"

definition pod_docker :: "bool docker_api" where
  "pod_docker = \<lparr>NetworkInspect = (\<lambda>i x. (Inr [], x)), ContainerInspect = (\<lambda>i x. (Inl (External ''none''), x)),
     ServerVersion = (\<lambda>x. (if x then Inr () else Inl (External ''refused''), x))\<rparr>"

definition pod_os :: "bool os_api" where
  "pod_os = \<lparr>LookPath = (\<lambda>c x. (Inr c, x)), LookupEnv = (\<lambda>v x. None), CmdStart = (\<lambda>c as x. (Inr 1, True)), Chown = (\<lambda>d u g x. (Inr (), x))\<rparr>"

definition pod_runner_state :: "bool pod" where
  "pod_runner_state = \<lparr>osEnv = Map.empty, jobRunning = 0, jobStarted = None, jobFinished = None, seen = [], rworld = False\<rparr>"

definition pod_dind_state :: "bool dind" where
  "pod_dind_state = \<lparr>dcache = NewCache, usedHostSecondOctet = replicate 256 False, sent = [], closed = False, dworld = False\<rparr>"

lemma pod_law: "docker_law (\<lambda>x. x) pod_runner pod_start"
  by (simp add: docker_law_def keeps_down_def pod_runner_def pod_start_def)

abbreviation pod0 :: "bool two_containers" where
  "pod0 \<equiv> startPod pod_runner pod_start pod_docker pod_os ''tcp://127.0.0.1'' [''dind''] pod_runner_state pod_dind_state"

lemma pod_setup: "\<exists>r d. runP (setupLeft pod0) (dindNow pod0) = (Some r, d) \<and> dworld (core d)"
  by (simp add: startPod_def dindNow_def podWorld_def dindSetup_def listenForInterrupt_def orDie_def orGoOn_def onCore_def runP_simps NewDockerClient_def
      PatchRuntimeDirs_def removeRootlessUserPrivileges_def StartDockerd_def WaitForDockerd_def onWorld_def go_simps pod_start_def pod_os_def
      pod_docker_def ParseInt_def digitsValue_def is_digit_def eval_nat_numeral startProcess_def pod_runner_state_def pod_dind_state_def)

definition pod_host :: "bool host_api" where
  "pod_host = \<lparr>AppendUnique = (\<lambda>r x. (Inr (), x)), IptDelete = (\<lambda>r x. (Inr (), x)), KillPid = (\<lambda>p x. (Inr (), x))\<rparr>"

lemma pod_runner_setup: "\<exists>s. runTasks (tasks pod_runner True) (pod_runner_state\<lparr>rworld := True\<rparr>) = Some s"
  by (simp add: tasks_def updateCaCertificates_def setupGitCredentials_def run_def ensureAwsEnv_def detectAwsRegion_def Runner.LookupEnv_def onRWorld_def
      record_seen_def envVars_def Setenv_def setupDockerConfig_def existingConfig_def loadEnvInto_def waitForDocker_def pod_runner_def
      pod_runner_state_def eval_nat_numeral runP_simps)

lemma pod_runner_body: "\<exists>s'. mainBody pod_runner True s = (Returned, s') \<and> Dialled True \<in> set (seen s')"
  by (simp add: mainBody_def withDefer_def pushMetrics_def runGitHubActionsRunner_def run_def onRWorld_def record_seen_def runP_simps
      requestDindTermination_def pod_runner_def)

lemma pod_can_ask:
  "\<exists>n. rtranclp (pod_step pod_runner pod_start pod_docker pod_os pod_host) pod0 n \<and> connected n"
proof -
  let ?step = "pod_step pod_runner pod_start pod_docker pod_os pod_host"
  obtain r d where d: "runP (setupLeft pod0) (dindNow pod0) = (Some r, d)" "dworld (core d)" using pod_setup by blast
  have "dindEnd pod0 = DindRunning" by (simp add: startPod_def)
  from pod_runs_setup [OF d(1) refl this, of pod_runner pod_start pod_docker pod_os pod_host] obtain n where
    n: "rtranclp ?step pod0 n" "runnerOf n = (runnerOf pod0)\<lparr>shared := (shared (runnerOf pod0))\<lparr>rworld := dworld (core d)\<rparr>\<rparr>" by blast
  have p: "runnerOf n = startProcess pod_runner True (pod_runner_state\<lparr>rworld := True\<rparr>)"
    using n(2) d(2) by (simp add: startPod_def startProcess_def)
  obtain s1 where s1: "runTasks (tasks pod_runner True) (pod_runner_state\<lparr>rworld := True\<rparr>) = Some s1" using pod_runner_setup by blast
  obtain s2 where s2: "mainBody pod_runner True s1 = (Returned, s2)" "Dialled True \<in> set (seen s2)" using pod_runner_body by blast
  let ?q = "\<lparr>tasksOf = replicate 4 (Ended (Inr ())), pc = Over Returned, shared = s2\<rparr>"
  have "rtranclp ?step n (n\<lparr>runnerOf := ?q\<rparr>)" by (rule pod_runs_runner [OF process_can_finish [OF s1 s2(1)] p])
  with n(1) have "rtranclp ?step pod0 (n\<lparr>runnerOf := ?q\<rparr>)" by (rule rtranclp_trans)
  then show ?thesis using s2(2) by (intro exI conjI) (assumption, simp add: connected_def)
qed

section \<open>Properties\<close>

text \<open>
  Claim C14. Dind hears the runner: in a pod with docker, however the two containers interleave, the runner asks dind
  to stop only once dind has opened its port, because it runs only after the daemon has answered and the daemon is
  started after the port is opened. When the connection is made, a dind that still runs can take it, and exits with
  status 0 when taking and closing it succeed. When a set-up task of the runner failed, dind is never asked, whatever happens afterwards.
\<close>

theorem dind_hears_the_runner:
  assumes "docker_law up api sa" and "seen s = []" and "\<not> up (rworld s)"
    and "rtranclp (pod_step api sa dapi os h) (startPod api sa dapi os dockerHost osArgs s d) n"
  shows "(\<forall>ok. Dialled ok \<in> set (seen (shared (runnerOf n))) \<longrightarrow> tcp (dindOf n) \<noteq> NoListener) \<and>
     (Dialled True \<in> set (seen (shared (runnerOf n))) \<and> dindEnd n = DindRunning \<longrightarrow>
        (\<exists>n'. pod_step api sa dapi os h n n' \<and> dindEnd n' \<noteq> DindRunning \<and>
          (fst (onConnection sa (core (dindNow n))) = Ok 0 \<longrightarrow> dindEnd n' = DindExited 0))) \<and>
     (\<forall>r i e n' ok. pc (runnerOf n) = Over r \<and> i < 4 \<and> tasksOf (runnerOf n) ! i = Ended (Inl e) \<and> rtranclp (pod_step api sa dapi os h) n n' \<longrightarrow>
        Dialled ok \<notin> set (seen (shared (runnerOf n'))))"
proof -
  have "fresh_pod up api sa dapi os dockerHost osArgs (startPod api sa dapi os dockerHost osArgs s d)"
    using assms(1-3) by (auto simp: fresh_pod_def)
  from pod_runs.reachable_inv [OF this assms(4)] have inv: "pod_inv up (dindSetup sa dapi os dockerHost osArgs) n" by blast
  have ask: "\<exists>n'. pod_step api sa dapi os h n n' \<and> dindEnd n' \<noteq> DindRunning \<and>
      (fst (onConnection sa (core (dindNow n))) = Ok 0 \<longrightarrow> dindEnd n' = DindExited 0)" if c: "connected n" and r: "dindEnd n = DindRunning"
  proof -
    have "dialled n" using c by (auto simp: connected_def dialled_def)
    then have "tcp (dindOf n) = Accepting" using pod_inv_asked [OF inv] inv r by (cases "tcp (dindOf n)") (auto simp: pod_inv_def)
    moreover obtain x c' where o: "onConnection sa (core (dindNow n)) = (x, c')" by (rule prod.exhaust)
    ultimately show ?thesis using pod_step.interrupt [OF r _ c o] by (intro exI conjI) (auto split: res.splits)
  qed
  have never: "\<not> dialled n'" if "pc (runnerOf n) = Over r" "i < 4" "tasksOf (runnerOf n) ! i = Ended (Inl e)" "rtranclp (pod_step api sa dapi os h) n n'" for r i e n'
    using over_runner_keeps_seen [OF that(4,1)] setup_failure_never_asks [OF _ that(1-3)] inv by (simp add: pod_inv_def)
  show ?thesis
    using ask never pod_inv_asked [OF inv] unfolding dialled_def connected_def by blast
qed

theorem dind_hears_the_runner_witness:
  "\<exists>n. rtranclp (pod_step pod_runner pod_start pod_docker pod_os pod_host) pod0 n \<and> Dialled True \<in> set (seen (shared (runnerOf n))) \<and>
     tcp (dindOf n) \<noteq> NoListener"
proof -
  obtain n where n: "rtranclp (pod_step pod_runner pod_start pod_docker pod_os pod_host) pod0 n" "connected n" using pod_can_ask by blast
  have "seen pod_runner_state = []" "\<not> rworld pod_runner_state" by (simp_all add: pod_runner_state_def)
  from dind_hears_the_runner [OF pod_law this n(1)] n show ?thesis by (auto simp: connected_def)
qed

end
