(* ===== verification/Deep_Copy.thy ===== *)
theory Deep_Copy
  imports Api_Types "HOL-Library.Finite_Map" "HOL-Library.Char_ord" "HOL-Library.List_Lexorder"
begin

text \<open>
  The deep copies of the operator's kinds (\<^verbatim>\<open>operator/api/v1alpha1/zz_generated.deepcopy.go\<close>), over an explicit memory: a slice is
  a window of an array cell, a map, a pointer and an array are addresses, a struct holds them by value. Elsewhere the
  development takes resources as values; here a value is what a struct means in a memory, and a copy is shown to mean the same
  and to share no cell with the original. The structs of the Kubernetes libraries with their own copy
  functions are a parameter. A new cell gets its content when the content has been copied, which no program can tell from filling it
  in place, and what \<^verbatim>\<open>DeepCopyInto\<close> writes to its target is its result.
\<close>

section \<open>Memory\<close>

record slice_hdr =
  Arr :: nat
  Off :: nat
  Len :: nat

definition window :: "slice_hdr \<Rightarrow> 'a list \<Rightarrow> 'a list" where
  "window s xs = take (Len s) (drop (Off s) xs)"

record policy_mem =
  mMust :: "slice_hdr option"
  mMustNot :: "slice_hdr option"

record spec_mem =
  mRepository :: ActionsRunnerRepository
  mPolicy :: policy_mem
  mCapabilities :: "slice_hdr option"
  mAnnotations :: "nat option"
  mLabels :: "slice_hdr option"
  mVersion :: string
  mVolumes :: "slice_hdr option"
  mVolumeMounts :: "slice_hdr option"
  mEnvFrom :: "slice_hdr option"
  mEnv :: "slice_hdr option"
  mResources :: "nat option"
  mServiceAccountName :: string
  mAffinity :: "nat option"
  mTolerations :: "slice_hdr option"
  mNodeSelector :: "nat option"

record set_spec_mem =
  mReplicas :: "64 word"
  mTemplate :: spec_mem

text \<open>\<open>'e\<close> stands for the structs of the libraries; type metadata is the kind and the API version.\<close>

type_synonym TypeMeta = "string \<times> string"

record 'e runner_mem =
  mRunnerType :: TypeMeta
  mRunnerMeta :: 'e
  mRunnerSpec :: spec_mem
  mRunnerStatus :: unit

record 'e job_mem =
  mJobType :: TypeMeta
  mJobMeta :: 'e
  mJobSpec :: unit
  mJobStatus :: ActionsRunnerJobStatus

record 'e set_mem =
  mSetType :: TypeMeta
  mSetMeta :: 'e
  mSetSpec :: set_spec_mem
  mSetStatus :: ActionsRunnerReplicaSetStatus

record 'e list_mem =
  mListType :: TypeMeta
  mListMeta :: 'e
  mItems :: "slice_hdr option"

datatype 'e cell =
    StringsCell (stringsOf: "string list") | StringMapCell (stringMapOf: "(string, string) fmap")
  | LibsCell (libsOf: "'e list") | LibMapCell (libMapOf: "(string, 'e) fmap") | LibCell (libOf: 'e)
  | RunnersCell (runnersOf: "'e runner_mem list") | JobsCell (jobsOf: "'e job_mem list") | SetsCell (setsOf: "'e set_mem list")
  | RunnerCell (runnerOf: "'e runner_mem") | JobCell (jobOf: "'e job_mem") | SetCell (setOf: "'e set_mem")
  | ListCell (listOf: "'e list_mem") | SpecCell (specOf: spec_mem) | PolicyCell (policyOf: policy_mem) | SetSpecCell (setSpecOf: set_spec_mem)
  | RepositoryCell (repositoryOf: ActionsRunnerRepository) | JobStatusCell (jobStatusOf: ActionsRunnerJobStatus)
  | SetStatusCell (setStatusOf: ActionsRunnerReplicaSetStatus) | EmptyCell (emptyOf: unit)

record 'e memory =
  cells :: "nat \<Rightarrow> 'e cell"
  lim :: nat

definition load :: "nat \<Rightarrow> ('e memory, 'e cell) go" where
  "load a = andThen ask (\<lambda>h. ret (cells h a))"

definition alloc :: "'e cell \<Rightarrow> ('e memory, nat) go" where
  "alloc c h = (Ok (lim h), h\<lparr>cells := (cells h)(lim h := c), lim := Suc (lim h)\<rparr>)"

section \<open>Copying\<close>

text \<open>The loop over a slice.\<close>

fun copyEach :: "('a \<Rightarrow> ('s, 'b) go) \<Rightarrow> 'a list \<Rightarrow> ('s, 'b list) go" where
  "copyEach c [] = ret []"
| "copyEach c (x # xs) = andThen (c x) (\<lambda>y. andThen (copyEach c xs) (\<lambda>ys. ret (y # ys)))"

definition copySlice :: "('a list \<Rightarrow> 'e cell) \<Rightarrow> ('e cell \<Rightarrow> 'a list) \<Rightarrow> ('a \<Rightarrow> ('e memory, 'a) go) \<Rightarrow>
    slice_hdr option \<Rightarrow> ('e memory, slice_hdr option) go" where
  "copySlice mk un c sl = (case sl of
       None \<Rightarrow> ret None
     | Some s \<Rightarrow>
         andThen (load (Arr s)) (\<lambda>cell.
         andThen (copyEach c (window s (un cell))) (\<lambda>ys.
         andThen (alloc (mk ys)) (\<lambda>a. ret (Some \<lparr>Arr = a, Off = 0, Len = length ys\<rparr>)))))"

text \<open>A pointer to a struct: \<^verbatim>\<open>new\<close> and the copy of the struct.\<close>

definition copyBox :: "('a \<Rightarrow> 'e cell) \<Rightarrow> ('e cell \<Rightarrow> 'a) \<Rightarrow> ('a \<Rightarrow> ('e memory, 'a) go) \<Rightarrow> nat option \<Rightarrow> ('e memory, nat option) go" where
  "copyBox mk un c p = (case p of
       None \<Rightarrow> ret None
     | Some a \<Rightarrow>
         andThen (load a) (\<lambda>cell.
         andThen (c (un cell)) (\<lambda>x.
         andThen (alloc (mk x)) (\<lambda>b. ret (Some b)))))"

text \<open>The loop over a map, in the order \<open>ks\<close> in which the keys come.\<close>

fun copyKeys :: "('a \<Rightarrow> ('s, 'a) go) \<Rightarrow> (string, 'a) fmap \<Rightarrow> string list \<Rightarrow> (string, 'a) fmap \<Rightarrow> ('s, (string, 'a) fmap) go" where
  "copyKeys c m [] out = ret out"
| "copyKeys c m (k # ks) out = (case fmlookup m k of
       None \<Rightarrow> copyKeys c m ks out
     | Some v \<Rightarrow> andThen (c v) (\<lambda>w. copyKeys c m ks (fmupd k w out)))"

text \<open>The libraries: how they copy a struct, what a struct means, and in which order a map is ranged over.\<close>

record ('e, 'v) k8s_lib =
  libCopy :: "'e \<Rightarrow> ('e memory, 'e) go"
  libView :: "'e \<Rightarrow> 'e memory \<Rightarrow> nat set \<times> 'v"
  rangeKeys :: "string fset \<Rightarrow> string list"
  asMeta :: "'v \<Rightarrow> ObjectMeta"
  asVolume :: "'v \<Rightarrow> Volume"
  asVolumeMount :: "'v \<Rightarrow> VolumeMount"
  asEnvFromSource :: "'v \<Rightarrow> EnvFromSource"
  asEnvVar :: "'v \<Rightarrow> EnvVar"
  asResources :: "'v \<Rightarrow> ResourceRequirements"
  asAffinity :: "'v \<Rightarrow> AffinityT"
  asToleration :: "'v \<Rightarrow> Toleration"

definition copyMap :: "('e, 'v) k8s_lib \<Rightarrow> ((string, 'a) fmap \<Rightarrow> 'e cell) \<Rightarrow> ('e cell \<Rightarrow> (string, 'a) fmap) \<Rightarrow> ('a \<Rightarrow> ('e memory, 'a) go) \<Rightarrow>
    nat option \<Rightarrow> ('e memory, nat option) go" where
  "copyMap L mk un c = copyBox mk un (\<lambda>m. copyKeys c m (rangeKeys L (fmdom m)) fmempty)"

definition copyStrings :: "slice_hdr option \<Rightarrow> ('e memory, slice_hdr option) go" where
  "copyStrings = copySlice StringsCell stringsOf ret"

definition copyLibs :: "('e, 'v) k8s_lib \<Rightarrow> slice_hdr option \<Rightarrow> ('e memory, slice_hdr option) go" where
  "copyLibs L = copySlice LibsCell libsOf (libCopy L)"

definition copyStringMap :: "('e, 'v) k8s_lib \<Rightarrow> nat option \<Rightarrow> ('e memory, nat option) go" where
  "copyStringMap L = copyMap L StringMapCell stringMapOf ret"

definition copyLibMap :: "('e, 'v) k8s_lib \<Rightarrow> nat option \<Rightarrow> ('e memory, nat option) go" where
  "copyLibMap L = copyMap L LibMapCell libMapOf (libCopy L)"

section \<open>The kinds\<close>

definition DeepCopyInto_Repository :: "ActionsRunnerRepository \<Rightarrow> ('e memory, ActionsRunnerRepository) go" where
  "DeepCopyInto_Repository = ret"

definition DeepCopyInto_Status :: "unit \<Rightarrow> ('e memory, unit) go" where
  "DeepCopyInto_Status = ret"

definition DeepCopyInto_JobSpec :: "unit \<Rightarrow> ('e memory, unit) go" where
  "DeepCopyInto_JobSpec = ret"

definition DeepCopyInto_JobStatus :: "ActionsRunnerJobStatus \<Rightarrow> ('e memory, ActionsRunnerJobStatus) go" where
  "DeepCopyInto_JobStatus = ret"

definition DeepCopyInto_ReplicaSetStatus :: "ActionsRunnerReplicaSetStatus \<Rightarrow> ('e memory, ActionsRunnerReplicaSetStatus) go" where
  "DeepCopyInto_ReplicaSetStatus = ret"

definition DeepCopyInto_Policy :: "policy_mem \<Rightarrow> ('e memory, policy_mem) go" where
  "DeepCopyInto_Policy p =
     andThen (copyStrings (mMust p)) (\<lambda>must.
     andThen (copyStrings (mMustNot p)) (\<lambda>mustNot.
     ret (p\<lparr>mMust := must, mMustNot := mustNot\<rparr>)))"

definition DeepCopyInto_Spec :: "('e, 'v) k8s_lib \<Rightarrow> spec_mem \<Rightarrow> ('e memory, spec_mem) go" where
  "DeepCopyInto_Spec L s =
     andThen (DeepCopyInto_Policy (mPolicy s)) (\<lambda>pol.
     andThen (copyStrings (mCapabilities s)) (\<lambda>caps.
     andThen (copyStringMap L (mAnnotations s)) (\<lambda>annotations.
     andThen (copyStrings (mLabels s)) (\<lambda>labels.
     andThen (copyLibs L (mVolumes s)) (\<lambda>volumes.
     andThen (copyLibs L (mVolumeMounts s)) (\<lambda>mounts.
     andThen (copyLibs L (mEnvFrom s)) (\<lambda>envFrom.
     andThen (copyLibs L (mEnv s)) (\<lambda>env.
     andThen (copyLibMap L (mResources s)) (\<lambda>resources.
     andThen (copyBox LibCell libOf (libCopy L) (mAffinity s)) (\<lambda>affinity.
     andThen (copyLibs L (mTolerations s)) (\<lambda>tolerations.
     andThen (copyStringMap L (mNodeSelector s)) (\<lambda>nodeSelector.
     ret (s\<lparr>mPolicy := pol, mCapabilities := caps, mAnnotations := annotations, mLabels := labels, mVolumes := volumes,
       mVolumeMounts := mounts, mEnvFrom := envFrom, mEnv := env, mResources := resources, mAffinity := affinity,
       mTolerations := tolerations, mNodeSelector := nodeSelector\<rparr>)))))))))))))"

definition DeepCopyInto_ReplicaSetSpec :: "('e, 'v) k8s_lib \<Rightarrow> set_spec_mem \<Rightarrow> ('e memory, set_spec_mem) go" where
  "DeepCopyInto_ReplicaSetSpec L s = andThen (DeepCopyInto_Spec L (mTemplate s)) (\<lambda>t. ret (s\<lparr>mTemplate := t\<rparr>))"

definition DeepCopyInto_Runner :: "('e, 'v) k8s_lib \<Rightarrow> 'e runner_mem \<Rightarrow> ('e memory, 'e runner_mem) go" where
  "DeepCopyInto_Runner L r =
     andThen (libCopy L (mRunnerMeta r)) (\<lambda>m.
     andThen (DeepCopyInto_Spec L (mRunnerSpec r)) (\<lambda>s.
     ret (r\<lparr>mRunnerMeta := m, mRunnerSpec := s\<rparr>)))"

definition DeepCopyInto_Job :: "('e, 'v) k8s_lib \<Rightarrow> 'e job_mem \<Rightarrow> ('e memory, 'e job_mem) go" where
  "DeepCopyInto_Job L j = andThen (libCopy L (mJobMeta j)) (\<lambda>m. ret (j\<lparr>mJobMeta := m\<rparr>))"

definition DeepCopyInto_ReplicaSet :: "('e, 'v) k8s_lib \<Rightarrow> 'e set_mem \<Rightarrow> ('e memory, 'e set_mem) go" where
  "DeepCopyInto_ReplicaSet L r =
     andThen (libCopy L (mSetMeta r)) (\<lambda>m.
     andThen (DeepCopyInto_ReplicaSetSpec L (mSetSpec r)) (\<lambda>s.
     ret (r\<lparr>mSetMeta := m, mSetSpec := s\<rparr>)))"

definition copyList :: "('e, 'v) k8s_lib \<Rightarrow> ('a list \<Rightarrow> 'e cell) \<Rightarrow> ('e cell \<Rightarrow> 'a list) \<Rightarrow> ('a \<Rightarrow> ('e memory, 'a) go) \<Rightarrow>
    'e list_mem \<Rightarrow> ('e memory, 'e list_mem) go" where
  "copyList L mk un c l =
     andThen (libCopy L (mListMeta l)) (\<lambda>m.
     andThen (copySlice mk un c (mItems l)) (\<lambda>items.
     ret (l\<lparr>mListMeta := m, mItems := items\<rparr>)))"

definition DeepCopyInto_RunnerList :: "('e, 'v) k8s_lib \<Rightarrow> 'e list_mem \<Rightarrow> ('e memory, 'e list_mem) go" where
  "DeepCopyInto_RunnerList L = copyList L RunnersCell runnersOf (DeepCopyInto_Runner L)"

definition DeepCopyInto_JobList :: "('e, 'v) k8s_lib \<Rightarrow> 'e list_mem \<Rightarrow> ('e memory, 'e list_mem) go" where
  "DeepCopyInto_JobList L = copyList L JobsCell jobsOf (DeepCopyInto_Job L)"

definition DeepCopyInto_ReplicaSetList :: "('e, 'v) k8s_lib \<Rightarrow> 'e list_mem \<Rightarrow> ('e memory, 'e list_mem) go" where
  "DeepCopyInto_ReplicaSetList L = copyList L SetsCell setsOf (DeepCopyInto_ReplicaSet L)"

section \<open>Pointers to the kinds\<close>

definition DeepCopy_Runner :: "('e, 'v) k8s_lib \<Rightarrow> nat option \<Rightarrow> ('e memory, nat option) go" where
  "DeepCopy_Runner L = copyBox RunnerCell runnerOf (DeepCopyInto_Runner L)"

definition DeepCopy_Job :: "('e, 'v) k8s_lib \<Rightarrow> nat option \<Rightarrow> ('e memory, nat option) go" where
  "DeepCopy_Job L = copyBox JobCell jobOf (DeepCopyInto_Job L)"

definition DeepCopy_ReplicaSet :: "('e, 'v) k8s_lib \<Rightarrow> nat option \<Rightarrow> ('e memory, nat option) go" where
  "DeepCopy_ReplicaSet L = copyBox SetCell setOf (DeepCopyInto_ReplicaSet L)"

definition DeepCopy_RunnerList :: "('e, 'v) k8s_lib \<Rightarrow> nat option \<Rightarrow> ('e memory, nat option) go" where
  "DeepCopy_RunnerList L = copyBox ListCell listOf (DeepCopyInto_RunnerList L)"

definition DeepCopy_JobList :: "('e, 'v) k8s_lib \<Rightarrow> nat option \<Rightarrow> ('e memory, nat option) go" where
  "DeepCopy_JobList L = copyBox ListCell listOf (DeepCopyInto_JobList L)"

definition DeepCopy_ReplicaSetList :: "('e, 'v) k8s_lib \<Rightarrow> nat option \<Rightarrow> ('e memory, nat option) go" where
  "DeepCopy_ReplicaSetList L = copyBox ListCell listOf (DeepCopyInto_ReplicaSetList L)"

definition DeepCopy_Spec :: "('e, 'v) k8s_lib \<Rightarrow> nat option \<Rightarrow> ('e memory, nat option) go" where
  "DeepCopy_Spec L = copyBox SpecCell specOf (DeepCopyInto_Spec L)"

definition DeepCopy_ReplicaSetSpec :: "('e, 'v) k8s_lib \<Rightarrow> nat option \<Rightarrow> ('e memory, nat option) go" where
  "DeepCopy_ReplicaSetSpec L = copyBox SetSpecCell setSpecOf (DeepCopyInto_ReplicaSetSpec L)"

definition DeepCopy_Policy :: "nat option \<Rightarrow> ('e memory, nat option) go" where
  "DeepCopy_Policy = copyBox PolicyCell policyOf DeepCopyInto_Policy"

definition DeepCopy_Repository :: "nat option \<Rightarrow> ('e memory, nat option) go" where
  "DeepCopy_Repository = copyBox RepositoryCell repositoryOf DeepCopyInto_Repository"

definition DeepCopy_Status :: "nat option \<Rightarrow> ('e memory, nat option) go" where
  "DeepCopy_Status = copyBox EmptyCell emptyOf DeepCopyInto_Status"

definition DeepCopy_JobSpec :: "nat option \<Rightarrow> ('e memory, nat option) go" where
  "DeepCopy_JobSpec = copyBox EmptyCell emptyOf DeepCopyInto_JobSpec"

definition DeepCopy_JobStatus :: "nat option \<Rightarrow> ('e memory, nat option) go" where
  "DeepCopy_JobStatus = copyBox JobStatusCell jobStatusOf DeepCopyInto_JobStatus"

definition DeepCopy_ReplicaSetStatus :: "nat option \<Rightarrow> ('e memory, nat option) go" where
  "DeepCopy_ReplicaSetStatus = copyBox SetStatusCell setStatusOf DeepCopyInto_ReplicaSetStatus"

text \<open>A nil copy becomes a nil object.\<close>

definition DeepCopyObject_Runner :: "('e, 'v) k8s_lib \<Rightarrow> nat option \<Rightarrow> ('e memory, nat option) go" where
  "DeepCopyObject_Runner L p = andThen (DeepCopy_Runner L p) (\<lambda>c. case c of Some a \<Rightarrow> ret (Some a) | None \<Rightarrow> ret None)"

definition DeepCopyObject_RunnerList :: "('e, 'v) k8s_lib \<Rightarrow> nat option \<Rightarrow> ('e memory, nat option) go" where
  "DeepCopyObject_RunnerList L p = andThen (DeepCopy_RunnerList L p) (\<lambda>c. case c of Some a \<Rightarrow> ret (Some a) | None \<Rightarrow> ret None)"

definition DeepCopyObject_Job :: "('e, 'v) k8s_lib \<Rightarrow> nat option \<Rightarrow> ('e memory, nat option) go" where
  "DeepCopyObject_Job L p = andThen (DeepCopy_Job L p) (\<lambda>c. case c of Some a \<Rightarrow> ret (Some a) | None \<Rightarrow> ret None)"

definition DeepCopyObject_JobList :: "('e, 'v) k8s_lib \<Rightarrow> nat option \<Rightarrow> ('e memory, nat option) go" where
  "DeepCopyObject_JobList L p = andThen (DeepCopy_JobList L p) (\<lambda>c. case c of Some a \<Rightarrow> ret (Some a) | None \<Rightarrow> ret None)"

definition DeepCopyObject_ReplicaSet :: "('e, 'v) k8s_lib \<Rightarrow> nat option \<Rightarrow> ('e memory, nat option) go" where
  "DeepCopyObject_ReplicaSet L p = andThen (DeepCopy_ReplicaSet L p) (\<lambda>c. case c of Some a \<Rightarrow> ret (Some a) | None \<Rightarrow> ret None)"

definition DeepCopyObject_ReplicaSetList :: "('e, 'v) k8s_lib \<Rightarrow> nat option \<Rightarrow> ('e memory, nat option) go" where
  "DeepCopyObject_ReplicaSetList L p = andThen (DeepCopy_ReplicaSetList L p) (\<lambda>c. case c of Some a \<Rightarrow> ret (Some a) | None \<Rightarrow> ret None)"

section \<open>What a struct means and which cells it owns\<close>

text \<open>A view gives the cells a representation reaches and its value.\<close>

type_synonym ('e, 'a, 'v) view = "'a \<Rightarrow> 'e memory \<Rightarrow> nat set \<times> 'v"

definition plainV :: "('e, 'a, 'a) view" where
  "plainV x h = ({}, x)"

definition prodV :: "('e, 'a, 'v) view \<Rightarrow> ('e, 'b, 'w) view \<Rightarrow> ('e, 'a \<times> 'b, 'v \<times> 'w) view" where
  "prodV V W p h = (fst (V (fst p) h) \<union> fst (W (snd p) h), (snd (V (fst p) h), snd (W (snd p) h)))"

definition listV :: "('e, 'a, 'v) view \<Rightarrow> ('e, 'a list, 'v list) view" where
  "listV V xs h = (\<Union>x\<in>set xs. fst (V x h), map (\<lambda>x. snd (V x h)) xs)"

definition sliceV :: "('e cell \<Rightarrow> 'a list) \<Rightarrow> ('e, 'a, 'v) view \<Rightarrow> ('e, slice_hdr option, 'v slice) view" where
  "sliceV un V sl h = (case sl of
       None \<Rightarrow> ({}, None)
     | Some s \<Rightarrow> let v = listV V (window s (un (cells h (Arr s)))) h in (insert (Arr s) (fst v), Some (snd v)))"

definition boxV :: "('e cell \<Rightarrow> 'a) \<Rightarrow> ('e, 'a, 'v) view \<Rightarrow> ('e, nat option, 'v option) view" where
  "boxV un V p h = (case p of
       None \<Rightarrow> ({}, None)
     | Some a \<Rightarrow> let v = V (un (cells h a)) h in (insert a (fst v), Some (snd v)))"

definition fmapV :: "('e, 'a, 'v) view \<Rightarrow> ('e, (string, 'a) fmap, string \<rightharpoonup> 'v) view" where
  "fmapV V m h = (\<Union>x\<in>fmran' m. fst (V x h), \<lambda>k. map_option (\<lambda>x. snd (V x h)) (fmlookup m k))"

text \<open>A struct whose fields \<open>f\<close> are viewed by \<open>V\<close>, with a value that \<open>g\<close> puts together.\<close>

definition structV :: "('a \<Rightarrow> 'b) \<Rightarrow> ('a \<Rightarrow> 'v \<Rightarrow> 'w) \<Rightarrow> ('e, 'b, 'v) view \<Rightarrow> ('e, 'a, 'w) view" where
  "structV f g V x h = (fst (V (f x) h), g x (snd (V (f x) h)))"

text \<open>Its value and its cells depend on these cells alone.\<close>

definition localised :: "('e, 'a, 'v) view \<Rightarrow> bool" where
  "localised V \<longleftrightarrow> (\<forall>x h h'. (\<forall>a\<in>fst (V x h). cells h' a = cells h a) \<longrightarrow> V x h' = V x h)"

lemma localisedI: "(\<And>x h h'. (\<And>a. a \<in> fst (V x h) \<Longrightarrow> cells h' a = cells h a) \<Longrightarrow> V x h' = V x h) \<Longrightarrow> localised V"
  unfolding localised_def by blast

lemma localisedD: "localised V \<Longrightarrow> (\<And>a. a \<in> fst (V x h) \<Longrightarrow> cells h' a = cells h a) \<Longrightarrow> V x h' = V x h"
  unfolding localised_def by blast

lemma localised_plain [intro]: "localised plainV"
  by (rule localisedI) (simp add: plainV_def)

lemma localised_prod [intro]:
  assumes "localised (V :: ('e, 'a, 'v) view)" and "localised (W :: ('e, 'b, 'w) view)"
  shows "localised (prodV V W)"
proof (rule localisedI)
  fix p and h h' :: "'e memory"
  assume c: "\<And>a. a \<in> fst (prodV V W p h) \<Longrightarrow> cells h' a = cells h a"
  have "V (fst p) h' = V (fst p) h" using c by (intro localisedD [OF assms(1)]) (simp add: prodV_def)
  moreover have "W (snd p) h' = W (snd p) h" using c by (intro localisedD [OF assms(2)]) (simp add: prodV_def)
  ultimately show "prodV V W p h' = prodV V W p h" by (simp add: prodV_def)
qed

lemma localised_list [intro]:
  assumes "localised (V :: ('e, 'a, 'v) view)"
  shows "localised (listV V)"
proof (rule localisedI)
  fix xs and h h' :: "'e memory"
  assume "\<And>a. a \<in> fst (listV V xs h) \<Longrightarrow> cells h' a = cells h a"
  then have "V x h' = V x h" if "x \<in> set xs" for x
    using that by (intro localisedD [OF assms]) (auto simp: listV_def)
  then show "listV V xs h' = listV V xs h" by (simp add: listV_def cong: map_cong)
qed

lemma localised_slice [intro]:
  assumes "localised (V :: ('e, 'a, 'v) view)"
  shows "localised (sliceV un V)"
proof (rule localisedI)
  fix sl and h h' :: "'e memory"
  assume c: "\<And>a. a \<in> fst (sliceV un V sl h) \<Longrightarrow> cells h' a = cells h a"
  show "sliceV un V sl h' = sliceV un V sl h"
  proof (cases sl)
    case (Some s)
    then have "cells h' (Arr s) = cells h (Arr s)" using c by (simp add: sliceV_def Let_def)
    moreover have "listV V (window s (un (cells h (Arr s)))) h' = listV V (window s (un (cells h (Arr s)))) h"
      using c Some by (intro localisedD [OF localised_list [OF assms]]) (simp add: sliceV_def Let_def)
    ultimately show ?thesis using Some by (simp add: sliceV_def)
  qed (simp add: sliceV_def)
qed

lemma localised_box [intro]:
  assumes "localised (V :: ('e, 'a, 'v) view)"
  shows "localised (boxV un V)"
proof (rule localisedI)
  fix p and h h' :: "'e memory"
  assume c: "\<And>a. a \<in> fst (boxV un V p h) \<Longrightarrow> cells h' a = cells h a"
  show "boxV un V p h' = boxV un V p h"
  proof (cases p)
    case (Some a)
    then have "cells h' a = cells h a" using c by (simp add: boxV_def Let_def)
    moreover have "V (un (cells h a)) h' = V (un (cells h a)) h"
      using c Some by (intro localisedD [OF assms]) (simp add: boxV_def Let_def)
    ultimately show ?thesis using Some by (simp add: boxV_def)
  qed (simp add: boxV_def)
qed

lemma localised_fmap [intro]:
  assumes "localised (V :: ('e, 'a, 'v) view)"
  shows "localised (fmapV V)"
proof (rule localisedI)
  fix m and h h' :: "'e memory"
  assume "\<And>a. a \<in> fst (fmapV V m h) \<Longrightarrow> cells h' a = cells h a"
  then have v: "V x h' = V x h" if "x \<in> fmran' m" for x
    using that by (intro localisedD [OF assms]) (auto simp: fmapV_def)
  have "map_option (\<lambda>x. snd (V x h')) (fmlookup m k) = map_option (\<lambda>x. snd (V x h)) (fmlookup m k)" for k
    using v fmran'I [of m k] by (cases "fmlookup m k") auto
  with v show "fmapV V m h' = fmapV V m h" by (simp add: fmapV_def)
qed

lemma localised_struct [intro]:
  assumes "localised (V :: ('e, 'a, 'v) view)"
  shows "localised (structV f g V)"
proof (rule localisedI)
  fix x and h h' :: "'e memory"
  assume "\<And>a. a \<in> fst (structV f g V x h) \<Longrightarrow> cells h' a = cells h a"
  then have "V (f x) h' = V (f x) h" by (intro localisedD [OF assms]) (simp add: structV_def)
  then show "structV f g V x h' = structV f g V x h" by (simp add: structV_def)
qed

section \<open>Copies\<close>

definition extends :: "'e memory \<Rightarrow> 'e memory \<Rightarrow> bool" where
  "extends h h' \<longleftrightarrow> lim h \<le> lim h' \<and> (\<forall>a<lim h. cells h' a = cells h a)"

definition within :: "('e, 'a, 'v) view \<Rightarrow> 'a \<Rightarrow> 'e memory \<Rightarrow> bool" where
  "within V x h \<longleftrightarrow> fst (V x h) \<subseteq> {..<lim h}"

text \<open>\<open>x'\<close> means in \<open>h'\<close> what \<open>x\<close> means in \<open>h\<close>, with new cells only, and nothing of \<open>h\<close> is changed.\<close>

definition copied :: "('e, 'a, 'v) view \<Rightarrow> 'a \<Rightarrow> 'e memory \<Rightarrow> 'a \<Rightarrow> 'e memory \<Rightarrow> bool" where
  "copied V x h x' h' \<longleftrightarrow> extends h h' \<and> snd (V x' h') = snd (V x h) \<and> fst (V x' h') \<subseteq> {lim h..<lim h'}"

definition copies :: "('e, 'a, 'v) view \<Rightarrow> ('a \<Rightarrow> ('e memory, 'a) go) \<Rightarrow> bool" where
  "copies V c \<longleftrightarrow> (\<forall>x h. within V x h \<longrightarrow> (\<exists>x' h'. c x h = (Ok x', h') \<and> copied V x h x' h'))"

lemma copiesI: "(\<And>x h. within V x h \<Longrightarrow> \<exists>x' h'. c x h = (Ok x', h') \<and> copied V x h x' h') \<Longrightarrow> copies V c"
  by (simp add: copies_def)

lemma copiesD: "copies V c \<Longrightarrow> within V x h \<Longrightarrow> \<exists>x' h'. c x h = (Ok x', h') \<and> copied V x h x' h'"
  by (simp add: copies_def)

lemma extends_refl [simp]: "extends h h"
  by (simp add: extends_def)

lemma extends_trans: "extends h h1 \<Longrightarrow> extends h1 h2 \<Longrightarrow> extends h h2"
  by (auto simp: extends_def)

lemma view_extends:
  assumes "localised V" and "within V x h" and "extends h h'"
  shows "V x h' = V x h" and "within V x h'"
proof -
  show v: "V x h' = V x h" using assms by (intro localisedD) (auto simp: within_def extends_def)
  show "within V x h'" using assms(2,3) v by (auto simp: within_def extends_def)
qed

lemma copied_within: "copied V x h x' h' \<Longrightarrow> within V x' h'"
  by (auto simp: copied_def within_def)

lemma copied_extends:
  assumes "localised V" and "copied V x h x' h1" and "extends h1 h2"
  shows "copied V x h x' h2"
  using assms(2,3) view_extends(1) [OF assms(1) copied_within [OF assms(2)] assms(3)] extends_trans
  by (auto simp: copied_def extends_def)

lemma copied_from:
  assumes "localised V" and "within V x h" and "extends h h1" and "copied V x h1 x' h2"
  shows "copied V x h x' h2"
  using assms(3,4) view_extends(1) [OF assms(1-3)] extends_trans [OF assms(3)] by (auto simp: copied_def extends_def)

lemma alloc_extends: "alloc c h = (r, h') \<Longrightarrow> r = Ok (lim h) \<and> extends h h' \<and> cells h' (lim h) = c \<and> lim h' = Suc (lim h)"
  by (auto simp: alloc_def extends_def)

lemma copies_plain [intro]: "copies plainV ret"
  by (rule copiesI) (simp add: ret_def copied_def plainV_def)

definition prodC :: "('a \<Rightarrow> ('s, 'a) go) \<Rightarrow> ('b \<Rightarrow> ('s, 'b) go) \<Rightarrow> 'a \<times> 'b \<Rightarrow> ('s, 'a \<times> 'b) go" where
  "prodC c d p = andThen (c (fst p)) (\<lambda>x. andThen (d (snd p)) (\<lambda>y. ret (x, y)))"

lemma copies_prod [intro]:
  assumes V: "localised V" "copies V c" and W: "localised W" "copies W d"
  shows "copies (prodV V W) (prodC c d)"
proof (rule copiesI)
  fix p h
  assume "within (prodV V W) p h"
  then have w: "within V (fst p) h" "within W (snd p) h" by (auto simp: within_def prodV_def)
  obtain x h1 where x: "c (fst p) h = (Ok x, h1)" "copied V (fst p) h x h1" using copiesD [OF V(2) w(1)] by blast
  have e: "extends h h1" using x(2) by (simp add: copied_def)
  obtain y h2 where y: "d (snd p) h1 = (Ok y, h2)" "copied W (snd p) h1 y h2"
    using copiesD [OF W(2) view_extends(2) [OF W(1) w(2) e]] by blast
  have "copied V (fst p) h x h2" using y(2) by (intro copied_extends [OF V(1) x(2)]) (simp add: copied_def)
  moreover have "copied W (snd p) h y h2" by (rule copied_from [OF W(1) w(2) e y(2)])
  ultimately have "copied (prodV V W) p h (x, y) h2" by (auto simp: copied_def prodV_def)
  with x(1) y(1) show "\<exists>x' h'. prodC c d p h = (Ok x', h') \<and> copied (prodV V W) p h x' h'"
    by (simp add: prodC_def andThen_def ret_def)
qed

lemma copies_each [intro]:
  assumes V: "localised V" "copies V c"
  shows "copies (listV V) (copyEach c)"
proof (rule copiesI)
  fix xs h
  show "within (listV V) xs h \<Longrightarrow> \<exists>ys h'. copyEach c xs h = (Ok ys, h') \<and> copied (listV V) xs h ys h'"
  proof (induction xs arbitrary: h)
    case Nil
    then show ?case by (simp add: ret_def copied_def listV_def)
  next
    case (Cons x xs)
    then have w: "within V x h" "within (listV V) xs h" by (auto simp: within_def listV_def)
    obtain y h1 where y: "c x h = (Ok y, h1)" "copied V x h y h1" using copiesD [OF V(2) w(1)] by blast
    have e: "extends h h1" using y(2) by (simp add: copied_def)
    have lV: "localised (listV V)" using V(1) by blast
    obtain ys h2 where ys: "copyEach c xs h1 = (Ok ys, h2)" "copied (listV V) xs h1 ys h2"
      using Cons.IH [OF view_extends(2) [OF lV w(2) e]] by blast
    have "copied V x h y h2" using ys(2) by (intro copied_extends [OF V(1) y(2)]) (simp add: copied_def)
    moreover have "copied (listV V) xs h ys h2" by (rule copied_from [OF lV w(2) e ys(2)])
    ultimately have "copied (listV V) (x # xs) h (y # ys) h2" by (auto simp: copied_def listV_def)
    then show ?case using y(1) ys(1) by (simp add: andThen_def ret_def)
  qed
qed

lemma copyEach_length: "copyEach c xs h = (Ok ys, h') \<Longrightarrow> length ys = length xs"
  by (induction xs arbitrary: h h' ys) (auto simp: andThen_Ok_iff ret_def)

lemma copies_box [intro]:
  assumes V: "localised V" "copies V c" and un: "\<And>x. un (mk x) = x"
  shows "copies (boxV un V) (copyBox mk un c)"
proof (rule copiesI)
  fix p h
  assume w: "within (boxV un V) p h"
  show "\<exists>x' h'. copyBox mk un c p h = (Ok x', h') \<and> copied (boxV un V) p h x' h'"
  proof (cases p)
    case None
    then show ?thesis by (simp add: copyBox_def ret_def copied_def boxV_def)
  next
    case (Some a)
    then have "within V (un (cells h a)) h" using w by (auto simp: within_def boxV_def Let_def)
    then obtain x h1 where x: "c (un (cells h a)) h = (Ok x, h1)" "copied V (un (cells h a)) h x h1"
      using copiesD [OF V(2)] by blast
    obtain h2 where h2: "alloc (mk x) h1 = (Ok (lim h1), h2)" by (simp add: alloc_def)
    note n = alloc_extends [OF h2]
    have "copied V (un (cells h a)) h x h2" using n by (intro copied_extends [OF V(1) x(2)]) simp
    then have "copied (boxV un V) p h (Some (lim h1)) h2"
      using n un x(2) Some by (auto simp: copied_def boxV_def Let_def extends_def)
    then show ?thesis using x(1) h2 Some by (simp add: copyBox_def load_def andThen_def ask_def ret_def)
  qed
qed

lemma copies_slice [intro]:
  assumes V: "localised V" "copies V c" and un: "\<And>x. un (mk x) = x"
  shows "copies (sliceV un V) (copySlice mk un c)"
proof (rule copiesI)
  fix sl h
  assume w: "within (sliceV un V) sl h"
  have lV: "localised (listV V)" using V(1) by blast
  show "\<exists>x' h'. copySlice mk un c sl h = (Ok x', h') \<and> copied (sliceV un V) sl h x' h'"
  proof (cases sl)
    case None
    then show ?thesis by (simp add: copySlice_def ret_def copied_def sliceV_def)
  next
    case (Some s)
    let ?xs = "window s (un (cells h (Arr s)))"
    have "within (listV V) ?xs h" using w Some by (auto simp: within_def sliceV_def Let_def)
    then obtain ys h1 where ys: "copyEach c ?xs h = (Ok ys, h1)" "copied (listV V) ?xs h ys h1"
      using copiesD [OF copies_each [OF V]] by blast
    obtain h2 where h2: "alloc (mk ys) h1 = (Ok (lim h1), h2)" by (simp add: alloc_def)
    note n = alloc_extends [OF h2]
    have "copied (listV V) ?xs h ys h2" using n by (intro copied_extends [OF lV ys(2)]) simp
    then have "copied (sliceV un V) sl h (Some \<lparr>Arr = lim h1, Off = 0, Len = length ys\<rparr>) h2"
      using n un ys(2) Some by (auto simp: copied_def sliceV_def Let_def extends_def window_def)
    then show ?thesis using ys(1) h2 Some by (simp add: copySlice_def load_def andThen_def ask_def ret_def)
  qed
qed

text \<open>The copied entries of a map.\<close>

definition entries_copied :: "('e, 'a, 'v) view \<Rightarrow> (string, 'a) fmap \<Rightarrow> 'e memory \<Rightarrow> (string, 'a) fmap \<Rightarrow> 'e memory \<Rightarrow> bool" where
  "entries_copied V m h out h' \<longleftrightarrow> (\<forall>k w. fmlookup out k = Some w \<longrightarrow> (\<exists>v. fmlookup m k = Some v \<and> copied V v h w h'))"

lemma copyKeys_entries:
  assumes V: "localised V" "copies V c" and w: "\<And>v. v \<in> fmran' m \<Longrightarrow> within V v h"
  shows "extends h h1 \<Longrightarrow> entries_copied V m h out h1 \<Longrightarrow>
    \<exists>out' h2. copyKeys c m ks out h1 = (Ok out', h2) \<and> extends h1 h2 \<and> entries_copied V m h out' h2 \<and>
      fmdom' out' = fmdom' out \<union> (set ks \<inter> fmdom' m)"
proof (induction ks arbitrary: out h1)
  case Nil
  then show ?case by (simp add: ret_def)
next
  case (Cons k ks)
  show ?case
  proof (cases "fmlookup m k")
    case None
    then show ?thesis using Cons.IH [OF Cons.prems] by (auto simp: fmlookup_dom'_iff)
  next
    case (Some v)
    have v: "within V v h" using w Some by (blast intro: fmran'I)
    obtain y h2 where y: "c v h1 = (Ok y, h2)" "copied V v h1 y h2"
      using copiesD [OF V(2) view_extends(2) [OF V(1) v Cons.prems(1)]] by blast
    have e: "extends h1 h2" using y(2) by (simp add: copied_def)
    have "entries_copied V m h (fmupd k y out) h2"
      using Cons.prems(2) Some copied_from [OF V(1) v Cons.prems(1) y(2)] copied_extends [OF V(1) _ e]
      by (auto simp: entries_copied_def) blast+
    from Cons.IH [OF extends_trans [OF Cons.prems(1) e] this] Some y(1) extends_trans [OF e] show ?thesis
      by (fastforce simp: andThen_def fmlookup_dom'_iff)
  qed
qed

lemma copies_keys [intro]:
  assumes V: "localised V" "copies V c" and ks: "\<And>S. fset_of_list (ks S) = S"
  shows "copies (fmapV V) (\<lambda>m. copyKeys c m (ks (fmdom m)) fmempty)"
proof (rule copiesI)
  fix m h
  assume "within (fmapV V) m h"
  then have "\<And>v. v \<in> fmran' m \<Longrightarrow> within V v h" by (auto simp: within_def fmapV_def)
  from copyKeys_entries [OF V this extends_refl, where m = m and out = fmempty and ks = "ks (fmdom m)"] obtain out h' where
    run: "copyKeys c m (ks (fmdom m)) fmempty h = (Ok out, h')" "extends h h'" "entries_copied V m h out h'"
    and dom: "fmdom' out = set (ks (fmdom m)) \<inter> fmdom' m"
    by (auto simp: entries_copied_def)
  have "set (ks (fmdom m)) = fmdom' m" using arg_cong [OF ks, of fset] by (simp add: fset_of_list.rep_eq fmdom'_alt_def)
  then have dom: "fmdom' out = fmdom' m" using dom by simp
  have "map_option (\<lambda>x. snd (V x h')) (fmlookup out k) = map_option (\<lambda>x. snd (V x h)) (fmlookup m k)" for k
  proof (cases "fmlookup out k")
    case None
    then have "fmlookup m k = None" using dom by (metis fmdom'_notD fmdom'_notI)
    then show ?thesis using None by simp
  next
    case (Some w)
    then obtain v where "fmlookup m k = Some v" "copied V v h w h'" using run(3) unfolding entries_copied_def by blast
    then show ?thesis using Some by (simp add: copied_def)
  qed
  moreover have "fst (V w h') \<subseteq> {lim h..<lim h'}" if "w \<in> fmran' out" for w
    using that run(3) by (auto simp: entries_copied_def copied_def fmlookup_ran'_iff)
  ultimately have "copied (fmapV V) m h out h'" using run(2) by (auto simp: copied_def fmapV_def)
  with run(1) show "\<exists>x' h'. copyKeys c m (ks (fmdom m)) fmempty h = (Ok x', h') \<and> copied (fmapV V) m h x' h'" by blast
qed

lemma copies_struct:
  assumes "copies V c" and "\<And>x t. f (put x t) = t" and "\<And>x t v. g (put x t) v = g x v"
  shows "copies (structV f g V) (\<lambda>x. andThen (c (f x)) (\<lambda>t. ret (put x t)))"
proof (rule copiesI)
  fix x h
  assume "within (structV f g V) x h"
  then have "within V (f x) h" by (simp add: within_def structV_def)
  then obtain t h' where t: "c (f x) h = (Ok t, h')" "copied V (f x) h t h'" using copiesD [OF assms(1)] by blast
  then have "copied (structV f g V) x h (put x t) h'" by (simp add: copied_def structV_def assms(2,3))
  with t(1) show "\<exists>x' h'. andThen (c (f x)) (\<lambda>t. ret (put x t)) h = (Ok x', h') \<and> copied (structV f g V) x h x' h'"
    by (simp add: andThen_def ret_def)
qed

section \<open>The values of the kinds\<close>

definition libAs :: "('e, 'v) k8s_lib \<Rightarrow> ('v \<Rightarrow> 'w) \<Rightarrow> ('e, 'e, 'w) view" where
  "libAs L f = structV (\<lambda>x. x) (\<lambda>x. f) (libView L)"

definition policyV :: "('e, policy_mem, ActionsRunnerPolicy) view" where
  "policyV = structV (\<lambda>p. (mMust p, mMustNot p)) (\<lambda>p (must, mustNot). \<lparr>Must = must, MustNot = mustNot\<rparr>)
     (prodV (sliceV stringsOf plainV) (sliceV stringsOf plainV))"

definition specV :: "('e, 'v) k8s_lib \<Rightarrow> ('e, spec_mem, ActionsRunnerSpec) view" where
  "specV L = structV
     (\<lambda>s. (mPolicy s, mCapabilities s, mAnnotations s, mLabels s, mVolumes s, mVolumeMounts s, mEnvFrom s, mEnv s, mResources s,
        mAffinity s, mTolerations s, mNodeSelector s))
     (\<lambda>s (pol, caps, annotations, labels, volumes, mounts, envFrom, env, resources, affinity, tolerations, nodeSelector).
        \<lparr>Repository = mRepository s, Policy = pol, Capabilities = caps, Annotations = annotations, Labels = labels, Version = mVersion s,
         Volumes = volumes, VolumeMounts = mounts, EnvFrom = envFrom, Env = env, Resources = resources,
         ServiceAccountName = mServiceAccountName s, Affinity = affinity, Tolerations = tolerations, NodeSelector = nodeSelector\<rparr>)
     (prodV policyV (prodV (sliceV stringsOf plainV) (prodV (boxV stringMapOf (fmapV plainV)) (prodV (sliceV stringsOf plainV)
     (prodV (sliceV libsOf (libAs L (asVolume L))) (prodV (sliceV libsOf (libAs L (asVolumeMount L)))
     (prodV (sliceV libsOf (libAs L (asEnvFromSource L))) (prodV (sliceV libsOf (libAs L (asEnvVar L)))
     (prodV (boxV libMapOf (fmapV (libAs L (asResources L)))) (prodV (boxV libOf (libAs L (asAffinity L)))
     (prodV (sliceV libsOf (libAs L (asToleration L))) (boxV stringMapOf (fmapV plainV)))))))))))))"

definition setSpecV :: "('e, 'v) k8s_lib \<Rightarrow> ('e, set_spec_mem, ActionsRunnerReplicaSetSpec) view" where
  "setSpecV L = structV mTemplate (\<lambda>s t. \<lparr>Replicas = mReplicas s, Template = t\<rparr>) (specV L)"

definition runnerV :: "('e, 'v) k8s_lib \<Rightarrow> ('e, 'e runner_mem, TypeMeta \<times> ActionsRunner) view" where
  "runnerV L = structV (\<lambda>r. (mRunnerMeta r, mRunnerSpec r)) (\<lambda>r (m, s). (mRunnerType r, \<lparr>ArMeta = m, ArSpec = s\<rparr>))
     (prodV (libAs L (asMeta L)) (specV L))"

definition jobV :: "('e, 'v) k8s_lib \<Rightarrow> ('e, 'e job_mem, TypeMeta \<times> ActionsRunnerJob) view" where
  "jobV L = structV mJobMeta (\<lambda>j m. (mJobType j, \<lparr>ArjMeta = m, ArjStatus = mJobStatus j\<rparr>)) (libAs L (asMeta L))"

definition setV :: "('e, 'v) k8s_lib \<Rightarrow> ('e, 'e set_mem, TypeMeta \<times> ActionsRunnerReplicaSet) view" where
  "setV L = structV (\<lambda>r. (mSetMeta r, mSetSpec r)) (\<lambda>r (m, s). (mSetType r, \<lparr>ArrsMeta = m, ArrsSpec = s, ArrsStatus = mSetStatus r\<rparr>))
     (prodV (libAs L (asMeta L)) (setSpecV L))"

text \<open>A list means its type, its metadata and its items.\<close>

definition itemsV :: "('e, 'v) k8s_lib \<Rightarrow> ('e cell \<Rightarrow> 'a list) \<Rightarrow> ('e, 'a, 'w) view \<Rightarrow> ('e, 'e list_mem, TypeMeta \<times> 'v \<times> 'w slice) view" where
  "itemsV L un V = structV (\<lambda>l. (mListMeta l, mItems l)) (\<lambda>l (m, items). (mListType l, m, items)) (prodV (libView L) (sliceV un V))"

section \<open>The copies of the kinds\<close>

text \<open>The libraries copy their structs, and a range over a map comes by every key.\<close>

definition lib_law :: "('e, 'v) k8s_lib \<Rightarrow> bool" where
  "lib_law L \<longleftrightarrow> localised (libView L) \<and> copies (libView L) (libCopy L) \<and> (\<forall>S. fset_of_list (rangeKeys L S) = S)"

lemma lib_lawD:
  assumes "lib_law L"
  shows "localised (libView L)" "copies (libView L) (libCopy L)" "fset_of_list (rangeKeys L S) = S"
  using assms by (auto simp: lib_law_def)

lemma localised_libAs: "lib_law L \<Longrightarrow> localised (libAs L f)"
  unfolding libAs_def by (intro localised_struct lib_lawD)

lemma copies_libAs:
  assumes "lib_law L"
  shows "copies (libAs L f) (libCopy L)"
proof -
  have "copies (libAs L f) (\<lambda>x. andThen (libCopy L x) (\<lambda>t. ret t))"
    unfolding libAs_def by (rule copies_struct [OF lib_lawD(2) [OF assms]]) simp_all
  moreover have "andThen m (\<lambda>t. ret t) = m" for m :: "('a memory, 'a) go"
    by (auto simp: andThen_def ret_def fun_eq_iff split: prod.splits res.splits)
  ultimately show ?thesis by simp
qed

lemma localised_policy: "localised policyV"
  unfolding policyV_def by (intro localised_struct localised_prod localised_slice localised_plain)

text \<open>Each copy is the copy of its fields, one after the other.\<close>

lemma into_policy:
  "DeepCopyInto_Policy = (\<lambda>p. andThen (prodC copyStrings copyStrings (mMust p, mMustNot p))
     (\<lambda>t. ret (p\<lparr>mMust := fst t, mMustNot := snd t\<rparr>)))"
  by (simp add: DeepCopyInto_Policy_def prodC_def andThen_assoc fun_eq_iff)

lemma copies_policy: "copies policyV DeepCopyInto_Policy"
  unfolding policyV_def into_policy copyStrings_def
  by (rule copies_struct, (intro copies_prod copies_slice localised_slice localised_plain copies_plain; simp)) simp_all

lemma localised_spec: "lib_law L \<Longrightarrow> localised (specV L)"
  unfolding specV_def
  by (intro localised_struct localised_prod localised_slice localised_box localised_fmap localised_plain localised_policy localised_libAs)

definition putSpec where
  "putSpec s = (\<lambda>(pol, caps, annotations, labels, volumes, mounts, envFrom, env, resources, affinity, tolerations, nodeSelector).
     s\<lparr>mPolicy := pol, mCapabilities := caps, mAnnotations := annotations, mLabels := labels, mVolumes := volumes,
       mVolumeMounts := mounts, mEnvFrom := envFrom, mEnv := env, mResources := resources, mAffinity := affinity,
       mTolerations := tolerations, mNodeSelector := nodeSelector\<rparr>)"

lemma into_spec:
  "DeepCopyInto_Spec L = (\<lambda>s. andThen (prodC DeepCopyInto_Policy (prodC copyStrings (prodC (copyStringMap L) (prodC copyStrings (prodC (copyLibs L)
     (prodC (copyLibs L) (prodC (copyLibs L) (prodC (copyLibs L) (prodC (copyLibMap L) (prodC (copyBox LibCell libOf (libCopy L))
     (prodC (copyLibs L) (copyStringMap L)))))))))))
       (mPolicy s, mCapabilities s, mAnnotations s, mLabels s, mVolumes s, mVolumeMounts s, mEnvFrom s, mEnv s, mResources s,
        mAffinity s, mTolerations s, mNodeSelector s))
     (\<lambda>t. ret (putSpec s t)))"
  by (simp add: DeepCopyInto_Spec_def prodC_def andThen_assoc fun_eq_iff putSpec_def)

lemma copies_fields:
  assumes "lib_law L"
  shows "copies (sliceV stringsOf plainV) copyStrings" "copies (sliceV libsOf (libAs L f)) (copyLibs L)"
    "copies (boxV stringMapOf (fmapV plainV)) (copyStringMap L)" "copies (boxV libMapOf (fmapV (libAs L f))) (copyLibMap L)"
    "copies (boxV libOf (libAs L f)) (copyBox LibCell libOf (libCopy L))"
  unfolding copyStrings_def copyLibs_def copyStringMap_def copyLibMap_def copyMap_def
  by (intro copies_slice copies_box copies_keys localised_fmap localised_plain copies_plain localised_libAs copies_libAs
      lib_lawD(3) assms; simp)+

lemma copies_spec:
  assumes "lib_law L"
  shows "copies (specV L) (DeepCopyInto_Spec L)"
  unfolding specV_def into_spec
proof (rule copies_struct)
  fix s t v
  show "(mPolicy (putSpec s t), mCapabilities (putSpec s t), mAnnotations (putSpec s t), mLabels (putSpec s t), mVolumes (putSpec s t),
      mVolumeMounts (putSpec s t), mEnvFrom (putSpec s t), mEnv (putSpec s t), mResources (putSpec s t), mAffinity (putSpec s t),
      mTolerations (putSpec s t), mNodeSelector (putSpec s t)) = t"
    by (simp add: putSpec_def split: prod.splits)
qed (intro copies_prod localised_prod localised_slice localised_box localised_fmap localised_plain localised_libAs localised_policy
      copies_policy copies_fields [OF assms] assms, simp add: putSpec_def split: prod.splits)

lemma localised_kinds:
  assumes "lib_law L"
  shows "localised (setSpecV L)" "localised (runnerV L)" "localised (jobV L)" "localised (setV L)"
    "localised V \<Longrightarrow> localised (itemsV L un V)"
  unfolding setV_def setSpecV_def runnerV_def jobV_def itemsV_def
  by (intro localised_struct localised_prod localised_slice localised_libAs localised_spec lib_lawD(1) assms; assumption)+

lemma into_kinds:
  "DeepCopyInto_Runner L = (\<lambda>r. andThen (prodC (libCopy L) (DeepCopyInto_Spec L) (mRunnerMeta r, mRunnerSpec r))
     (\<lambda>t. ret (r\<lparr>mRunnerMeta := fst t, mRunnerSpec := snd t\<rparr>)))"
  "DeepCopyInto_ReplicaSet L = (\<lambda>r. andThen (prodC (libCopy L) (DeepCopyInto_ReplicaSetSpec L) (mSetMeta r, mSetSpec r))
     (\<lambda>t. ret (r\<lparr>mSetMeta := fst t, mSetSpec := snd t\<rparr>)))"
  "copyList L mk un c = (\<lambda>l. andThen (prodC (libCopy L) (copySlice mk un c) (mListMeta l, mItems l))
     (\<lambda>t. ret (l\<lparr>mListMeta := fst t, mItems := snd t\<rparr>)))"
  by (simp_all add: DeepCopyInto_Runner_def DeepCopyInto_ReplicaSet_def copyList_def prodC_def andThen_assoc fun_eq_iff)

lemma copies_setSpec: "lib_law L \<Longrightarrow> copies (setSpecV L) (DeepCopyInto_ReplicaSetSpec L)"
  unfolding setSpecV_def DeepCopyInto_ReplicaSetSpec_def [abs_def]
  by (rule copies_struct) (simp_all add: copies_spec)

lemma copies_runner: "lib_law L \<Longrightarrow> copies (runnerV L) (DeepCopyInto_Runner L)"
  unfolding runnerV_def into_kinds
  by (rule copies_struct, intro copies_prod localised_libAs copies_libAs localised_spec copies_spec) simp_all

lemma copies_job: "lib_law L \<Longrightarrow> copies (jobV L) (DeepCopyInto_Job L)"
  unfolding jobV_def DeepCopyInto_Job_def [abs_def]
  by (rule copies_struct) (simp_all add: copies_libAs)

lemma copies_set: "lib_law L \<Longrightarrow> copies (setV L) (DeepCopyInto_ReplicaSet L)"
  unfolding setV_def into_kinds
  by (rule copies_struct, intro copies_prod localised_libAs copies_libAs localised_kinds copies_setSpec) simp_all

lemma copies_items:
  assumes "lib_law L" and "localised V" "copies V c" and "\<And>x. un (mk x) = x"
  shows "copies (itemsV L un V) (copyList L mk un c)"
  unfolding itemsV_def into_kinds
  by (rule copies_struct, intro copies_prod lib_lawD(1,2) localised_slice copies_slice assms) simp_all

section \<open>Independence\<close>

text \<open>
  A copy succeeds and means the same; whatever is written to the cells of one of the two, the
  other keeps its meaning.
\<close>

definition independent_copy :: "('e, nat option, 'w) view \<Rightarrow> (nat option \<Rightarrow> ('e memory, nat option) go) \<Rightarrow> nat option \<Rightarrow> 'e memory \<Rightarrow> bool" where
  "independent_copy V copy p h \<longleftrightarrow> (\<exists>q h'. copy p h = (Ok q, h') \<and> V p h' = V p h \<and> snd (V q h') = snd (V p h) \<and>
     (\<forall>g. (\<forall>a. a \<notin> fst (V q h') \<longrightarrow> cells g a = cells h' a) \<longrightarrow> snd (V p g) = snd (V p h)) \<and>
     (\<forall>g. (\<forall>a. a \<notin> fst (V p h') \<longrightarrow> cells g a = cells h' a) \<longrightarrow> snd (V q g) = snd (V p h)))"

locale deep_copied =
  fixes view :: "('e, nat option, 'w) view"
    and copy :: "nat option \<Rightarrow> ('e memory, nat option) go"
    and lawful :: bool
  assumes local_view: "lawful \<Longrightarrow> localised view"
    and copying: "lawful \<Longrightarrow> copies view copy"
begin

lemma independent:
  assumes lawful and "within view p h"
  shows "independent_copy view copy p h"
proof -
  obtain q h' where q: "copy p h = (Ok q, h')" "copied view p h q h'" using copiesD [OF copying [OF assms(1)] assms(2)] by blast
  note l = local_view [OF assms(1)]
  have p: "view p h' = view p h" using q(2) by (intro view_extends(1) [OF l assms(2)]) (simp add: copied_def)
  have "fst (view p h') \<inter> fst (view q h') = {}" using q(2) assms(2) by (fastforce simp: p copied_def within_def)
  then have w1: "view p g = view p h'" if "\<forall>a. a \<notin> fst (view q h') \<longrightarrow> cells g a = cells h' a" for g
    using that by (intro localisedD [OF l]) blast
  have w2: "view q g = view q h'" if "\<forall>a. a \<notin> fst (view p h') \<longrightarrow> cells g a = cells h' a" for g
    using that \<open>_ = {}\<close> by (intro localisedD [OF l]) blast
  have m: "snd (view q h') = snd (view p h)" using q(2) by (simp add: copied_def)
  show ?thesis
    unfolding independent_copy_def
    by (intro exI [of _ q] exI [of _ h'] conjI allI impI q(1) p m) (simp_all only: w1 w2 p m)
qed

end

lemma DeepCopyObject_eq:
  "DeepCopyObject_Runner L = copyBox RunnerCell runnerOf (DeepCopyInto_Runner L)"
  "DeepCopyObject_Job L = copyBox JobCell jobOf (DeepCopyInto_Job L)"
  "DeepCopyObject_ReplicaSet L = copyBox SetCell setOf (DeepCopyInto_ReplicaSet L)"
  "DeepCopyObject_RunnerList L = copyBox ListCell listOf (DeepCopyInto_RunnerList L)"
  "DeepCopyObject_JobList L = copyBox ListCell listOf (DeepCopyInto_JobList L)"
  "DeepCopyObject_ReplicaSetList L = copyBox ListCell listOf (DeepCopyInto_ReplicaSetList L)"
proof -
  have r: "andThen m (\<lambda>c. case c of None \<Rightarrow> ret None | Some a \<Rightarrow> ret (Some a)) = m" for m :: "('e memory, nat option) go"
    by (auto simp: andThen_def ret_def fun_eq_iff split: prod.splits res.splits option.splits)
  show "DeepCopyObject_Runner L = copyBox RunnerCell runnerOf (DeepCopyInto_Runner L)"
    "DeepCopyObject_Job L = copyBox JobCell jobOf (DeepCopyInto_Job L)"
    "DeepCopyObject_ReplicaSet L = copyBox SetCell setOf (DeepCopyInto_ReplicaSet L)"
    "DeepCopyObject_RunnerList L = copyBox ListCell listOf (DeepCopyInto_RunnerList L)"
    "DeepCopyObject_JobList L = copyBox ListCell listOf (DeepCopyInto_JobList L)"
    "DeepCopyObject_ReplicaSetList L = copyBox ListCell listOf (DeepCopyInto_ReplicaSetList L)"
    unfolding DeepCopyObject_Runner_def DeepCopyObject_Job_def DeepCopyObject_ReplicaSet_def DeepCopyObject_RunnerList_def
      DeepCopyObject_JobList_def DeepCopyObject_ReplicaSetList_def DeepCopy_Runner_def DeepCopy_Job_def DeepCopy_ReplicaSet_def
      DeepCopy_RunnerList_def DeepCopy_JobList_def DeepCopy_ReplicaSetList_def r
    by (rule refl)+
qed

interpretation runner_copies: deep_copied "boxV runnerOf (runnerV L)" "DeepCopyObject_Runner L" "lib_law L" for L
  by unfold_locales (auto simp: DeepCopyObject_eq intro!: localised_box localised_kinds copies_box copies_runner)

interpretation job_copies: deep_copied "boxV jobOf (jobV L)" "DeepCopyObject_Job L" "lib_law L" for L
  by unfold_locales (auto simp: DeepCopyObject_eq intro!: localised_box localised_kinds copies_box copies_job)

interpretation set_copies: deep_copied "boxV setOf (setV L)" "DeepCopyObject_ReplicaSet L" "lib_law L" for L
  by unfold_locales (auto simp: DeepCopyObject_eq intro!: localised_box localised_kinds copies_box copies_set)

interpretation runner_list_copies: deep_copied "boxV listOf (itemsV L runnersOf (runnerV L))" "DeepCopyObject_RunnerList L" "lib_law L" for L
  by unfold_locales (auto simp: DeepCopyObject_eq DeepCopyInto_RunnerList_def
      intro!: localised_box localised_kinds copies_box copies_items copies_runner)

interpretation job_list_copies: deep_copied "boxV listOf (itemsV L jobsOf (jobV L))" "DeepCopyObject_JobList L" "lib_law L" for L
  by unfold_locales (auto simp: DeepCopyObject_eq DeepCopyInto_JobList_def
      intro!: localised_box localised_kinds copies_box copies_items copies_job)

interpretation set_list_copies: deep_copied "boxV listOf (itemsV L setsOf (setV L))" "DeepCopyObject_ReplicaSetList L" "lib_law L" for L
  by unfold_locales (auto simp: DeepCopyObject_eq DeepCopyInto_ReplicaSetList_def
      intro!: localised_box localised_kinds copies_box copies_items copies_set)

section \<open>A library to run on\<close>

text \<open>Its structs are pointers to arrays of strings.\<close>

definition demo_lib :: "(nat option, string list option) k8s_lib" where
  "demo_lib = \<lparr>libCopy = copyBox StringsCell stringsOf ret, libView = boxV stringsOf plainV, rangeKeys = sorted_list_of_fset,
     asMeta = (\<lambda>v. zeroMeta\<lparr>MetaName := concat (elems v)\<rparr>), asVolume = (\<lambda>v. \<lparr>VolName = concat (elems v), VolConfigMap = None, VolSecret = None, VolClaim = None, VolOther = None\<rparr>),
     asVolumeMount = (\<lambda>v. \<lparr>MountPath = concat (elems v), MountName = [], SubPath = []\<rparr>),
     asEnvFromSource = (\<lambda>v. \<lparr>ConfigMapRef = map_option concat v, SecretRef = None\<rparr>),
     asEnvVar = (\<lambda>v. \<lparr>EnvName = concat (elems v), EnvValue = [], ValueFrom = None\<rparr>), asResources = (\<lambda>v. zeroResources),
     asAffinity = (\<lambda>v. \<lparr>NodeAffinity = None, PodAffinity = map_option concat v, PodAntiAffinity = None\<rparr>),
     asToleration = (\<lambda>v. \<lparr>TolKey = concat (elems v), TolOperator = [], TolValue = [], TolEffect = []\<rparr>)\<rparr>"

lemma demo_lib_law: "lib_law demo_lib"
proof -
  have "fset_of_list (sorted_list_of_fset S) = S" for S :: "string fset"
    by (rule fset_eqI) (simp add: fset_of_list_elem)
  moreover have "copies (boxV stringsOf plainV) (copyBox StringsCell stringsOf ret)"
    by (intro copies_box localised_plain copies_plain) simp
  ultimately show ?thesis by (simp add: lib_law_def demo_lib_def localised_box localised_plain)
qed

text \<open>A runner at cell 2, with its metadata in cell 0 and a capability in cell 1.\<close>

definition demo_memory :: "nat option memory" where
  "demo_memory = \<lparr>cells = (\<lambda>a. if a = 0 then StringsCell [''ar''] else if a = 1 then StringsCell [''docker''] else
     RunnerCell \<lparr>mRunnerType = (''ActionsRunner'', ''v1alpha1''), mRunnerMeta = Some 0, mRunnerSpec =
       \<lparr>mRepository = \<lparr>Owner = [], RepoName = [], APIEndpoint = []\<rparr>, mPolicy = \<lparr>mMust = None, mMustNot = None\<rparr>,
        mCapabilities = Some \<lparr>Arr = 1, Off = 0, Len = 1\<rparr>, mAnnotations = None, mLabels = None, mVersion = [], mVolumes = None,
        mVolumeMounts = None, mEnvFrom = None, mEnv = None, mResources = None, mServiceAccountName = [], mAffinity = None,
        mTolerations = None, mNodeSelector = None\<rparr>, mRunnerStatus = ()\<rparr>), lim = 3\<rparr>"

lemmas view_defs = boxV_def runnerV_def specV_def policyV_def structV_def prodV_def sliceV_def listV_def plainV_def fmapV_def libAs_def Let_def

section \<open>Properties\<close>

text \<open>
  Claim C21. Deep copies are copies and deep: when the libraries copy their own structs, copying an object or a list of any of the
  three kinds succeeds and gives a pointer to an equal value, in new memory; whatever is then written to the
  memory of the copy the original keeps its value, and the other way round.
\<close>

theorem deep_copies_are_independent:
  assumes "lib_law L"
  shows "(within (boxV runnerOf (runnerV L)) p h \<longrightarrow> independent_copy (boxV runnerOf (runnerV L)) (DeepCopyObject_Runner L) p h) \<and>
    (within (boxV jobOf (jobV L)) p h \<longrightarrow> independent_copy (boxV jobOf (jobV L)) (DeepCopyObject_Job L) p h) \<and>
    (within (boxV setOf (setV L)) p h \<longrightarrow> independent_copy (boxV setOf (setV L)) (DeepCopyObject_ReplicaSet L) p h) \<and>
    (within (boxV listOf (itemsV L runnersOf (runnerV L))) p h \<longrightarrow>
       independent_copy (boxV listOf (itemsV L runnersOf (runnerV L))) (DeepCopyObject_RunnerList L) p h) \<and>
    (within (boxV listOf (itemsV L jobsOf (jobV L))) p h \<longrightarrow>
       independent_copy (boxV listOf (itemsV L jobsOf (jobV L))) (DeepCopyObject_JobList L) p h) \<and>
    (within (boxV listOf (itemsV L setsOf (setV L))) p h \<longrightarrow>
       independent_copy (boxV listOf (itemsV L setsOf (setV L))) (DeepCopyObject_ReplicaSetList L) p h)"
  using runner_copies.independent [OF assms] job_copies.independent [OF assms] set_copies.independent [OF assms]
    runner_list_copies.independent [OF assms] job_list_copies.independent [OF assms] set_list_copies.independent [OF assms]
  by blast

theorem deep_copies_are_independent_witness:
  "\<exists>q h' v. DeepCopyObject_Runner demo_lib (Some 2) demo_memory = (Ok q, h') \<and>
     snd (boxV runnerOf (runnerV demo_lib) q h') = Some v \<and> MetaName (ArMeta (snd v)) = ''ar'' \<and> Capabilities (ArSpec (snd v)) = Some [''docker''] \<and>
     snd (boxV runnerOf (runnerV demo_lib) q (h'\<lparr>cells := (cells h')(1 := StringsCell [''secret''])\<rparr>)) = Some v"
proof -
  let ?V = "boxV runnerOf (runnerV demo_lib)"
  let ?v = "((''ActionsRunner'', ''v1alpha1''), \<lparr>ArMeta = zeroMeta\<lparr>MetaName := ''ar''\<rparr>, ArSpec = emptySpec\<lparr>Capabilities := Some [''docker'']\<rparr>\<rparr>)"
  have v: "?V (Some 2) demo_memory = ({0, 1, 2}, Some ?v)"
    by (auto simp: view_defs demo_lib_def demo_memory_def window_def emptySpec_def)
  then have "within ?V (Some 2) demo_memory" by (simp add: within_def demo_memory_def)
  with deep_copies_are_independent [OF demo_lib_law] have "independent_copy ?V (DeepCopyObject_Runner demo_lib) (Some 2) demo_memory" by blast
  then obtain q h' where q: "DeepCopyObject_Runner demo_lib (Some 2) demo_memory = (Ok q, h')" "?V (Some 2) h' = ?V (Some 2) demo_memory"
      "snd (?V q h') = snd (?V (Some 2) demo_memory)"
    and w: "\<And>g. \<forall>a. a \<notin> fst (?V (Some 2) h') \<longrightarrow> cells g a = cells h' a \<Longrightarrow> snd (?V q g) = snd (?V (Some 2) demo_memory)"
    unfolding independent_copy_def by blast
  have "snd (?V q (h'\<lparr>cells := (cells h')(1 := StringsCell [''secret''])\<rparr>)) = Some ?v"
    using w [of "h'\<lparr>cells := (cells h')(1 := StringsCell [''secret''])\<rparr>"] by (simp add: q(2) v)
  with q v show ?thesis by (intro exI [of _ q] exI [of _ h'] exI [of _ ?v]) (simp add: zeroMeta_def emptySpec_def)
qed

end
