(* ===== verification/Spec2Isabelle.thy ===== *)
theory Spec2Isabelle
  imports Facades Manager Pod Deep_Copy
begin

text \<open>
  Verification of kube-actions, the Kubernetes operator of GitHub Actions runners, and of the two programs that run in its pods.

  \<^bold>\<open>The program.\<close> The operator (\<^verbatim>\<open>operator/\<close>) has three resource kinds. An \<^verbatim>\<open>ActionsRunnerReplicaSet\<close> keeps a number of
  \<^verbatim>\<open>ActionsRunner\<close>s. For each runner the runner reconciler keeps a \<^emph>\<open>wire\<close>: a registration with GitHub and Azure DevOps that
  listens for job requests, checks them against the policy of the runner, and makes an allowed one pending; a
  pending request becomes an \<^verbatim>\<open>ActionsRunnerJob\<close>, for which the job reconciler creates a claim and a pod. In the pod the runner container
  (\<^verbatim>\<open>runner/\<close>) runs the actions runner, beside a dind container (\<^verbatim>\<open>dind/\<close>) with a docker daemon when the runner has that
  capability. Admission webhooks check the resources.

  \<^bold>\<open>How it is modelled.\<close> Effectful code is a state transformer \<open>('s, 'a) go\<close> over the state the code has, with
  results \<open>Ok\<close>, \<open>Err\<close> and \<open>Panic\<close> (\<open>Prelude\<close>); a failed call keeps the writes made before it, a nil dereference is a panic. Structs are records,
  nil pointers \<open>None\<close>, nil slices apart from empty ones where the code tells them apart. Libraries and services
  (the Kubernetes client, the GitHub and Azure DevOps clients, gojq, docker, iptables, the clock, commands)
  are fields of records of functions over an abstract world; what a property needs of them is a named
  hypothesis of it, and its witness gives a concrete instance. Concurrency is interleaving: step relations for the operator
  (\<open>op_step\<close>), the two goroutines of dind (\<open>dind_step\<close>), the runner process (\<open>runner_step\<close>) and the pod (\<open>pod_step\<close>), all instances of
  the locale \<open>transition_system\<close>. Machine integers are words where wrap-around shows (replica counts, token rates, message ids, visibilities).
  Loops are recursion on their data; \<open>listenLoop\<close> takes the number of turns as fuel and its properties hold for every number, and the loops with
  a bound in the code (fifteen probes of the daemon) have that bound.

  \<^bold>\<open>The theories.\<close>
  \<^item> \<open>Prelude\<close>: errors, results, effects, frame rules, formatting and parsing, reachability. \<open>Goroutines\<close>: goroutines as trees of actions.
  \<^item> \<open>Api_Types\<close> (\<^verbatim>\<open>api/v1alpha1/*_types.go\<close> and the Kubernetes objects), \<open>Controller_Util\<close> (\<^verbatim>\<open>internal/controller/util.go\<close>), \<open>Webhook\<close>
    (\<^verbatim>\<open>*_webhook.go\<close>): over every admitted history identity and rules are kept.
  \<^item> \<open>Deep_Copy\<close> (\<^verbatim>\<open>api/v1alpha1/zz_generated.deepcopy.go\<close>): over an explicit memory a deep copy has the value of the original and shares no cell
    with it, which is why the other theories may take resources as values.
  \<^item> \<open>Context_Data\<close>, \<open>Policy_Validator\<close> (\<^verbatim>\<open>wire/context.go\<close>, \<^verbatim>\<open>wire/validator.go\<close>): decoding and flattening of job contexts round-trip, and
    the policy check with its cache of compiled rules decides as the rules say; a \<^verbatim>\<open>mustNot\<close> rule that errs fails open.
  \<^item> \<open>Dot_Files\<close>, \<open>Converters\<close> (\<^verbatim>\<open>dot/\<close>, \<^verbatim>\<open>util/converters.go\<close>, \<^verbatim>\<open>util/filters.go\<close>): stored identities and keys round-trip; secrets, privilege, reserved
    mounts, storage and platform of the pod are as the capabilities and the operator say.
  \<^item> \<open>Replica_Set\<close>, \<open>Job_Reconciler\<close> (\<^verbatim>\<open>actionsrunnerreplicaset\<close>, \<^verbatim>\<open>actionsrunnerjob\<close>): reconciliations converge, and the job
    reconciler refines an abstract step on job, claim and pod.
  \<^item> \<open>Wire_Util\<close> (\<^verbatim>\<open>util/oauth2.go\<close>, \<^verbatim>\<open>wire/errors.go\<close>, \<^verbatim>\<open>wire/message.go\<close>, \<^verbatim>\<open>wire/pajr.go\<close>), \<open>Github_Facade\<close> (\<^verbatim>\<open>facades/gh.go\<close>), \<open>Azure_Devops\<close>
    (\<^verbatim>\<open>facades/ado.go\<close>, \<^verbatim>\<open>util/jwt.go\<close>, \<^verbatim>\<open>util/pkcs7.go\<close>): only configured repositories are served, a token serves at most sixty calls, a runner
    has one agent, encrypted messages are read as written.
  \<^item> \<open>Wire\<close> (\<^verbatim>\<open>wire/wire.go\<close>), \<open>Runner_Reconciler\<close> (\<^verbatim>\<open>actionsrunner/reconciler.go\<close>, \<^verbatim>\<open>wire/collection.go\<close>), \<open>Operator\<close> (its runs): a job request is
    handed over exactly if the policy allows it, every job created is backed by such a request of its own in every interleaving,
    jobs are deleted only when completed, and their gauges follow them. \<open>Facades\<close> puts the two facades under the wire: an initialised wire is allowed and idle.
  \<^item> \<open>Metrics\<close> (\<^verbatim>\<open>operator/metrics/metrics.go\<close>): the collectors, their registration and the reports of the facades and the runner
    reconciler; a wire keeps the label values its event counter is called with.
  \<^item> \<open>Manager\<close> (\<^verbatim>\<open>cmd/main.go\<close> and the \<^verbatim>\<open>SetupWithManager\<close> methods): nothing is served half configured, and which events wake which
    controller.
  \<^item> \<open>Dind_Cache\<close>, \<open>Dind_Docker\<close>, \<open>Dind_Main\<close>, \<open>Dind_Start\<close> (\<^verbatim>\<open>dind/*.go\<close>): host octets are never shared nor leaked, stops are forwarded once, the proxied
    addresses agree with NETMAP, no proxy is lost when events are answered in turn; a restart can race.
  \<^item> \<open>Runner\<close> (\<^verbatim>\<open>runner/main.go\<close>, \<^verbatim>\<open>runner/util.go\<close>): the actions runner runs between its brackets, every run ends, settings are expanded with the detected
    environment. \<open>Pod\<close>: the runner asks dind to stop only when dind listens. At the end of this theory: the runner asks exactly a dind that the
    operator put into its pod.

  \<^bold>\<open>Interfaces.\<close> The locales \<open>keyed_store\<close> (the cache), \<open>octet_pool\<close> (the octets), \<open>memo\<close> (compiled rules), \<open>admission\<close> (both webhooks),
  \<open>token_cache\<close> and \<open>token_source\<close> (both kinds of tokens), \<open>deep_copied\<close> (the copies of the kinds) and \<open>transition_system\<close> are interpreted on the definitions of the model; the wire
  is written against the record \<open>facade_api\<close>, which \<open>facadesOf\<close> instantiates with the two facades.

  \<^bold>\<open>Where the code does not do what it means to.\<close> Theorems about behaviour that is likely unintended stand beside the others:
  \<open>restart_race_loses_a_proxy\<close>, \<open>start_panics_iff_unknown_protocol\<close>, \<open>must_not_rule_fails_open\<close>, \<open>scale_down_may_delete_a_dying_runner\<close>,
  \<open>huge_replicas_panic\<close>, \<open>failed_key_generation_panics\<close>, \<open>listening_flag_outlives_goroutine\<close>, \<open>valid_wire_keeps_its_policy\<close>,
  \<open>tolerations_and_node_selector_ignored\<close>, \<open>unstartable_command_hangs\<close>, and the second half of \<open>dind_hears_the_runner\<close>.

  \<^bold>\<open>Not modelled.\<close> Logging; registration of the API group and build-time constants; parsing of
  command line flags; forwarding of unix signals to child processes; pauses between attempts. Locks are not modelled as such: the code
  they guard is one step of the relations, and where the code acts outside its lock (the flag \<^verbatim>\<open>listening\<close>, the dind cache) the parts
  are separate steps. Lexing of JSON, HTTP, cryptography and jq programs are parameters.
\<close>

section \<open>From the pod of the operator to the process of the runner\<close>

text \<open>
  The operator and the runner agree on one variable: the converter puts \<^verbatim>\<open>DOCKER_HOST\<close> into the runner container exactly
  when it adds the dind container, and the runner process takes its presence for the presence of dind. Between the two
  is the kubelet, of which only the documented behaviour is used: the last literal entry of \<^verbatim>\<open>env\<close> with a name (one that has
  no reference to expand) gives the value of the variable, and a name that is neither in \<^verbatim>\<open>env\<close> nor among the other names the
  container gets (of its image, of \<^verbatim>\<open>envFrom\<close> sources, of services) is not set.
\<close>

definition last_named :: "string \<Rightarrow> EnvVar list \<Rightarrow> EnvVar option" where
  "last_named n es = find (\<lambda>e. EnvName e = n) (rev es)"

definition kubelet_env :: "string set \<Rightarrow> Container \<Rightarrow> (string \<rightharpoonup> string) \<Rightarrow> bool" where
  "kubelet_env others c penv \<longleftrightarrow> (\<forall>n. case last_named n (elems (CEnv c)) of
       Some e \<Rightarrow> ValueFrom e = None \<and> CHR ''$'' \<notin> set (EnvValue e) \<longrightarrow> penv n = Some (EnvValue e)
     | None \<Rightarrow> n \<notin> others \<longrightarrow> penv n = None)"

lemma docker_host_iff_dind:
  assumes "ToPod env (Some ar) (Some arj) (Some sch) = Ok pod" and "kubelet_env others (hd (Containers pod)) penv"
  shows "''dind'' \<in> set (map CName (Containers pod)) \<Longrightarrow> penv ''DOCKER_HOST'' = Some ''tcp://localhost:2375''"
    and "penv ''DOCKER_HOST'' \<noteq> None \<Longrightarrow> ''DOCKER_HOST'' \<notin> others \<union> EnvName ` set (elems (Env (ArSpec ar))) \<Longrightarrow>
      ''dind'' \<in> set (map CName (Containers pod))"
proof -
  obtain c where c: "Containers (capablePod env ar arj) =
       c # (if has_capability ActionsRunnerCapabilityDocker ar then [dindContainer env ar] else [])" "CName c = ''runner''"
     "elems (CEnv c) = filter (\<lambda>e. \<not> isSecretEnv e) (elems (Env (ArSpec ar))) @ runnerVars ar arj @ secretEnvs ar @ dockerEnvs ar"
    using capablePod_containers [of env ar arj] by blast
  have cs: "Containers pod = Containers (capablePod env ar arj)" using ToPod_Ok [OF assms(1)] by auto
  have k: "kubelet_env others c penv" using assms(2) cs c(1) by simp
  have dind: "''dind'' \<in> set (map CName (Containers pod)) \<longleftrightarrow> has_capability ActionsRunnerCapabilityDocker ar"
    by (cases "has_capability ActionsRunnerCapabilityDocker ar") (simp_all add: cs c(1,2) dindContainer_def)
  have "last_named ''DOCKER_HOST'' (elems (CEnv c)) = Some (envVar ''DOCKER_HOST'' ''tcp://localhost:2375'')"
    if "has_capability ActionsRunnerCapabilityDocker ar"
    using that c(3) by (simp add: last_named_def dockerEnvs_def envVar_def)
  then show "penv ''DOCKER_HOST'' = Some ''tcp://localhost:2375''" if "''dind'' \<in> set (map CName (Containers pod))"
    using that dind k [unfolded kubelet_env_def, rule_format, of "''DOCKER_HOST''"] by (simp add: envVar_def)
  show "''dind'' \<in> set (map CName (Containers pod))"
    if h: "penv ''DOCKER_HOST'' \<noteq> None" "''DOCKER_HOST'' \<notin> others \<union> EnvName ` set (elems (Env (ArSpec ar)))"
  proof (rule ccontr)
    assume "\<not> ?thesis"
    then have "\<not> has_capability ActionsRunnerCapabilityDocker ar" using dind by simp
    moreover have "\<forall>e\<in>set (elems (Env (ArSpec ar))). EnvName e \<noteq> ''DOCKER_HOST''" using h(2) by force
    ultimately have "\<forall>e\<in>set (elems (CEnv c)). EnvName e \<noteq> ''DOCKER_HOST''" unfolding c(3)
      by (auto simp: dockerEnvs_def secretEnvs_def runnerVars_def envVar_def)
    then have "last_named ''DOCKER_HOST'' (elems (CEnv c)) = None" by (auto simp: last_named_def find_None_iff)
    then show False using h k [unfolded kubelet_env_def, rule_format, of "''DOCKER_HOST''"] by simp
  qed
qed

text \<open>A kubelet that sets the literal entries and nothing else.\<close>

definition plainEnv :: "Container \<Rightarrow> string \<rightharpoonup> string" where
  "plainEnv c n = map_option EnvValue (last_named n (elems (CEnv c)))"

lemma plainEnv_law: "kubelet_env {} c (plainEnv c)"
  by (simp add: kubelet_env_def plainEnv_def split: option.split)

text \<open>A runner process started in the first container of a pod with the docker capability.\<close>

definition demo_started :: "unit Runner.pod" where
  "demo_started = Runner.demo_pod\<lparr>osEnv := plainEnv (hd (Containers (capablePod demo_env (Converters.demo_runner [''docker'']) demo_job)))\<rparr>"

lemma demo_started_env:
  "osEnv demo_started ''DOCKER_HOST'' = Some ''tcp://localhost:2375''"
  "n \<in> {''AWS_REGION'', ''AWS_DEFAULT_REGION'', ''DOCKER_AUTHS'', ''DOCKER_PLUGINS'', ''DOCKER_CREDENTIAL_HELPERS''} \<Longrightarrow> osEnv demo_started n = None"
proof -
  let ?ar = "Converters.demo_runner [''docker'']"
  have cap: "has_capability ActionsRunnerCapabilityDocker ?ar" "\<not> has_capability ActionsRunnerCapabilitySecret ?ar"
    by (simp_all add: has_capability_def Converters.demo_runner_def ActionsRunnerCapabilityDocker_def ActionsRunnerCapabilitySecret_def)
  have v: "elems (CEnv (hd (Containers (capablePod demo_env ?ar demo_job)))) =
      [envVar ''A'' ''1''] @ runnerVars ?ar demo_job @ [envVar ''DOCKER_HOST'' ''tcp://localhost:2375'']"
    using capablePod_containers [of demo_env ?ar demo_job] cap
    by (auto simp: dockerEnvs_def secretEnvs_def Converters.demo_runner_def isSecretEnv_def envVar_def)
  show "osEnv demo_started ''DOCKER_HOST'' = Some ''tcp://localhost:2375''"
    by (simp add: demo_started_def plainEnv_def v last_named_def envVar_def)
  show "osEnv demo_started n = None" if "n \<in> {''AWS_REGION'', ''AWS_DEFAULT_REGION'', ''DOCKER_AUTHS'', ''DOCKER_PLUGINS'', ''DOCKER_CREDENTIAL_HELPERS''}"
    using that by (auto simp: demo_started_def plainEnv_def v last_named_def envVar_def runnerVars_def)
qed

lemma demo_started_setup: "\<exists>s. runTasks (tasks Runner.demo_runner True) demo_started = Some s"
proof -
  have "demo_started = Runner.demo_pod\<lparr>osEnv := osEnv demo_started\<rparr>" by (simp add: demo_started_def)
  then show ?thesis using demo_setup_without_settings [of "osEnv demo_started"] demo_started_env(2) by simp
qed

text \<open>
  Claim C15. The runner asks dind to stop exactly when the operator gave it a dind: started by the kubelet in the first container of
  the pod the operator made, a runner process whose set-up succeeded and whose body ended has asked a dind of the pod to stop,
  in every interleaving of its tasks; and it never asks when the pod has no dind, unless the
  spec of the runner or the image sets \<^verbatim>\<open>DOCKER_HOST\<close> itself.
\<close>

theorem dind_asked_iff_in_pod:
  assumes "ToPod env (Some ar) (Some arj) (Some sch) = Ok pod" and "kubelet_env others (hd (Containers pod)) (osEnv s)" and "seen s = []"
    and "rtranclp (runner_step api (hasDockerCapability (osEnv s))) (startProcess api (hasDockerCapability (osEnv s)) s) p"
  shows "(''dind'' \<in> set (map CName (Containers pod)) \<and> pc p = Over r \<and> r \<noteq> Hangs \<and> (\<forall>i<4. tasksOf p ! i = Ended (Inr ())) \<longrightarrow>
       (\<exists>ok. Dialled ok \<in> set (seen (shared p)))) \<and>
     (Dialled ok \<in> set (seen (shared p)) \<and> ''DOCKER_HOST'' \<notin> others \<union> EnvName ` set (elems (Env (ArSpec ar))) \<longrightarrow>
       ''dind'' \<in> set (map CName (Containers pod)))"
proof -
  have "fresh api (hasDockerCapability (osEnv s)) (startProcess api (hasDockerCapability (osEnv s)) s)" using assms(3) by (auto simp: fresh_def)
  from runner_runs.reachable_inv [OF this assms(4)] have inv: "process_inv (hasDockerCapability (osEnv s)) p" .
  note host = docker_host_iff_dind [OF assms(1,2)]
  show ?thesis
    using dials_if_capable [OF inv] dials_only_if_capable [OF inv] host by (auto simp: hasDockerCapability_def)
qed


theorem dind_asked_iff_in_pod_witness:
  "\<exists>pod p. ToPod demo_env (Some (Converters.demo_runner [''docker''])) (Some demo_job) (Some demo_scheme) = Ok pod \<and>
     ''dind'' \<in> set (map CName (Containers pod)) \<and>
     rtranclp (runner_step Runner.demo_runner True) (startProcess Runner.demo_runner True demo_started) p \<and>
     (\<exists>ok. Dialled ok \<in> set (seen (shared p)))"
proof -
  let ?ar = "Converters.demo_runner [''docker'']"
  obtain pod where p: "ToPod demo_env (Some ?ar) (Some demo_job) (Some demo_scheme) = Ok pod"
    using ToPod_total [OF demo_scheme_laws] by blast
  have cap: "hasDockerCapability (osEnv demo_started)" by (simp add: hasDockerCapability_def demo_started_env(1))
  have "osEnv demo_started = plainEnv (hd (Containers pod))" using ToPod_Ok [OF p] by (auto simp: demo_started_def)
  then have law: "kubelet_env {} (hd (Containers pod)) (osEnv demo_started)" using plainEnv_law by simp
  have "\<forall>e\<in>set (elems (Env (ArSpec ?ar))). EnvName e \<noteq> ''DOCKER_HOST''" by (simp add: Converters.demo_runner_def envVar_def)
  then have names: "''DOCKER_HOST'' \<notin> {} \<union> EnvName ` set (elems (Env (ArSpec ?ar)))" by force
  obtain s1 where s1: "runTasks (tasks Runner.demo_runner True) demo_started = Some s1" using demo_started_setup by blast
  obtain s2 where s2: "mainBody Runner.demo_runner True s1 = (Returned, s2)" using demo_body [of s1] by (metis prod.collapse)
  let ?p = "\<lparr>tasksOf = replicate 4 (Ended (Inr ())), pc = Over Returned, shared = s2\<rparr>"
  have r: "rtranclp (runner_step Runner.demo_runner True) (startProcess Runner.demo_runner True demo_started) ?p" by (rule process_can_finish [OF s1 s2])
  have fresh: "seen demo_started = []" by (simp add: demo_started_def Runner.demo_pod_def)
  have dind: "''dind'' \<in> set (map CName (Containers pod))"
    by (rule docker_host_iff_dind(2) [OF p law _ names]) (use cap in \<open>simp add: hasDockerCapability_def\<close>)
  have "\<exists>ok. Dialled ok \<in> set (seen (shared ?p))"
    using dind_asked_iff_in_pod [OF p law fresh, of Runner.demo_runner ?p Returned] cap r dind by simp
  with p dind r show ?thesis by blast
qed

end
